(* ===== verification/Prelude.thy ===== *)
theory Prelude
  imports Main "HOL-Library.Word" "HOL-Library.Product_Lexorder"
begin

text \<open>
  Shared vocabulary of the development.

  \<^item> Machine integers: \<open>u8\<close>, \<open>u16\<close>, \<open>u32\<close>, \<open>u64\<close> as words with Rust's
    \<open>saturating_add\<close>, \<open>saturating_sub\<close> and \<open>try_from\<close>, each with its reading on
    natural numbers (collection \<open>rust_arith\<close>).
  \<^item> Fallible code: \<open>Inl\<close> is \<open>Err\<close>, \<open>Inr\<close> is \<open>Ok\<close>; \<open>try_bind\<close> is Rust's \<open>?\<close>,
    \<open>ok_or\<close> and \<open>traverse\<close> the combinators of the same meaning.
  \<^item> Time: instants and durations are integers counting nanoseconds; \<open>num_seconds\<close>
    and \<open>num_minutes\<close> truncate towards zero, as the duration accessors do.
  \<^item> Tables: an SQLite table is the list of its rows in insertion order; \<open>update_where\<close>,
    \<open>count_where\<close> and \<open>fetch_optional\<close> are the statements the store executes. The
    locale \<open>keyed_rows\<close> holds what follows for a column that no update changes.
\<close>

named_theorems rust_arith
named_theorems result_simps
named_theorems table_simps

section \<open>Machine integers\<close>

type_synonym u8 = "8 word"
type_synonym u16 = "16 word"
type_synonym u32 = "32 word"
type_synonym u64 = "64 word"

definition saturating_add :: "'a::len word \<Rightarrow> 'a word \<Rightarrow> 'a word" where
  "saturating_add a b = (if unat a + unat b < 2 ^ LENGTH('a) then a + b else - 1)"

definition saturating_sub :: "'a::len word \<Rightarrow> 'a word \<Rightarrow> 'a word" where
  "saturating_sub a b = (if b \<le> a then a - b else 0)"

text \<open>\<open>T::try_from(i)\<close> for an unsigned target: the value when it is in range.\<close>

definition try_from_int :: "int \<Rightarrow> 'a::len word option" where
  "try_from_int i = (if 0 \<le> i \<and> i < 2 ^ LENGTH('a) then Some (word_of_int i) else None)"

lemma unat_saturating_add [rust_arith]:
  "unat (saturating_add a b) = min (unat a + unat b) (2 ^ LENGTH('a) - 1)"
  for a b :: "'a::len word"
proof (cases "unat a + unat b < 2 ^ LENGTH('a)")
  case True
  then have "unat (a + b) = unat a + unat b"
    by (simp add: unat_word_ariths)
  with True show ?thesis by (simp add: saturating_add_def)
next
  case False
  have "unat (- 1 :: 'a word) = 2 ^ LENGTH('a) - 1"
    by (simp add: unsigned_minus_1_eq_mask mask_eq_exp_minus_1)
  with False show ?thesis by (simp add: saturating_add_def)
qed

lemma saturating_add_code [code]: "saturating_add a b = (if a \<le> a + b then a + b else - 1)"
  for a b :: "'a::len word"
  using no_plus_overflow_unat_size [of a b] by (simp add: saturating_add_def word_size)

lemma unat_saturating_sub [rust_arith]: "unat (saturating_sub a b) = unat a - unat b"
  by (simp add: saturating_sub_def unat_sub word_le_nat_alt)

lemma try_from_int_Some [rust_arith]:
  "(try_from_int i = Some w) \<longleftrightarrow> (0 \<le> i \<and> i < 2 ^ LENGTH('a) \<and> w = word_of_int i)"
  for w :: "'a::len word"
  by (auto simp: try_from_int_def)

lemma try_from_int_uint [simp]: "try_from_int (uint w) = Some w"
  using uint_lt2p [of w] by (simp add: try_from_int_def)

lemma uint_word_of_int_in_range [rust_arith]:
  "0 \<le> i \<Longrightarrow> i < 2 ^ LENGTH('a) \<Longrightarrow> uint (word_of_int i :: 'a::len word) = i"
  by (simp add: uint_word_of_int)

section \<open>Fallible code\<close>

definition try_bind :: "'e + 'a \<Rightarrow> ('a \<Rightarrow> 'e + 'b) \<Rightarrow> 'e + 'b" where
  "try_bind m f = (case m of Inl e \<Rightarrow> Inl e | Inr x \<Rightarrow> f x)"

definition ok_or :: "'e \<Rightarrow> 'a option \<Rightarrow> 'e + 'a" where
  "ok_or e m = (case m of None \<Rightarrow> Inl e | Some x \<Rightarrow> Inr x)"

definition map_err :: "('e \<Rightarrow> 'f) \<Rightarrow> 'e + 'a \<Rightarrow> 'f + 'a" where
  "map_err f m = (case m of Inl e \<Rightarrow> Inl (f e) | Inr x \<Rightarrow> Inr x)"

fun traverse :: "('a \<Rightarrow> 'e + 'b) \<Rightarrow> 'a list \<Rightarrow> 'e + 'b list" where
  "traverse f [] = Inr []"
| "traverse f (x # xs) = try_bind (f x) (\<lambda>y. try_bind (traverse f xs) (\<lambda>ys. Inr (y # ys)))"

text \<open>\<open>if b { bail!(e) }\<close>, and a loop whose body may bail.\<close>

definition bail_if :: "bool \<Rightarrow> 'e \<Rightarrow> 'e + unit" where
  "bail_if b e = (if b then Inl e else Inr ())"

fun check_all :: "('a \<Rightarrow> 'e + unit) \<Rightarrow> 'a list \<Rightarrow> 'e + unit" where
  "check_all f [] = Inr ()"
| "check_all f (x # xs) = try_bind (f x) (\<lambda>_. check_all f xs)"

lemma try_bind_simps [simp]:
  "try_bind (Inl e) f = Inl e"
  "try_bind (Inr x) f = f x"
  by (simp_all add: try_bind_def)

lemma try_bind_assoc: "try_bind (try_bind m f) g = try_bind m (\<lambda>x. try_bind (f x) g)"
  by (cases m) simp_all

lemma try_bind_Inr_iff [result_simps]:
  "(try_bind m f = Inr y) \<longleftrightarrow> (\<exists>x. m = Inr x \<and> f x = Inr y)"
  by (cases m) simp_all

lemma try_bind_Inl_iff [result_simps]:
  "(try_bind m f = Inl e) \<longleftrightarrow> (m = Inl e \<or> (\<exists>x. m = Inr x \<and> f x = Inl e))"
  by (cases m) simp_all

lemma ok_or_simps [simp]:
  "ok_or e None = Inl e"
  "ok_or e (Some x) = Inr x"
  by (simp_all add: ok_or_def)

lemma map_err_iff [result_simps]:
  "(map_err f m = Inr x) \<longleftrightarrow> m = Inr x"
  by (cases m) (simp_all add: map_err_def)

lemma ok_or_iff [result_simps]:
  "(ok_or e m = Inr x) \<longleftrightarrow> m = Some x"
  "(ok_or e m = Inl e') \<longleftrightarrow> (m = None \<and> e' = e)"
  by (cases m; auto)+

lemma bail_if_iff [result_simps]:
  "(bail_if b e = Inr u) \<longleftrightarrow> \<not> b"
  "(bail_if b e = Inl e') \<longleftrightarrow> b \<and> e' = e"
  by (auto simp: bail_if_def)

lemma check_all_Inr_iff [result_simps]:
  "(check_all f xs = Inr u) \<longleftrightarrow> (\<forall>x \<in> set xs. f x = Inr ())"
  by (induction xs) (auto simp: result_simps)

lemma traverse_Inr_iff [result_simps]:
  "(traverse f xs = Inr ys) \<longleftrightarrow> list_all2 (\<lambda>x y. f x = Inr y) xs ys"
proof (induction xs arbitrary: ys)
  case Nil
  then show ?case by auto
next
  case (Cons x xs)
  then show ?case by (cases ys) (auto simp: result_simps)
qed

lemma traverse_map_Inr: "(\<And>x. x \<in> set xs \<Longrightarrow> f x = Inr (g x)) \<Longrightarrow> traverse f xs = Inr (map g xs)"
  by (induction xs) auto

lemma list_all2_setD: "list_all2 P xs ys \<Longrightarrow> y \<in> set ys \<Longrightarrow> \<exists>x \<in> set xs. P x y"
  by (induction rule: list_all2_induct) auto

lemma list_all2_setD1: "list_all2 P xs ys \<Longrightarrow> x \<in> set xs \<Longrightarrow> \<exists>y \<in> set ys. P x y"
  by (induction rule: list_all2_induct) auto

lemma list_all2_map_eq: "list_all2 P xs ys \<Longrightarrow> (\<And>x y. P x y \<Longrightarrow> g y = f x) \<Longrightarrow> map g ys = map f xs"
  by (induction rule: list_all2_induct) auto

lemma traverse_total:
  "\<forall>x \<in> set xs. \<exists>y. f x = Inr y \<and> P x y \<Longrightarrow> \<exists>ys. traverse f xs = Inr ys \<and> list_all2 P xs ys"
proof (induction xs)
  case (Cons x xs)
  then obtain y ys where "f x = Inr y" "P x y" "traverse f xs = Inr ys" "list_all2 P xs ys"
    by auto
  then show ?case by (intro exI [of _ "y # ys"]) simp
qed simp

section \<open>Time\<close>

type_synonym time = int

definition nanos_per_second :: int where
  "nanos_per_second = 1000000000"

text \<open>Whole seconds and minutes of a signed duration, truncated towards zero.\<close>

definition trunc_div :: "int \<Rightarrow> int \<Rightarrow> int" where
  "trunc_div d n = (if 0 \<le> d then d div n else - ((- d) div n))"

definition num_seconds :: "int \<Rightarrow> int" where
  "num_seconds d = trunc_div d nanos_per_second"

definition num_minutes :: "int \<Rightarrow> int" where
  "num_minutes d = trunc_div d (60 * nanos_per_second)"

lemma trunc_div_mono: "0 < n \<Longrightarrow> a \<le> b \<Longrightarrow> trunc_div a n \<le> trunc_div b n"
proof -
  assume n: "0 < n" and ab: "a \<le> b"
  consider "0 \<le> a" | "a < 0" "0 \<le> b" | "b < 0" by linarith
  then show ?thesis
  proof cases
    case 1
    with ab n show ?thesis by (simp add: trunc_div_def zdiv_mono1)
  next
    case 2
    have "0 \<le> (- a) div n" "0 \<le> b div n"
      using 2 n by (simp_all add: pos_imp_zdiv_nonneg_iff)
    with 2 show ?thesis by (simp add: trunc_div_def)
  next
    case 3
    have "(- b) div n \<le> (- a) div n"
      using ab n by (simp add: zdiv_mono1)
    with 3 ab show ?thesis by (simp add: trunc_div_def)
  qed
qed

section \<open>Text\<close>

text \<open>\<open>[T]::join\<close> on strings.\<close>

fun join_with :: "string \<Rightarrow> string list \<Rightarrow> string" where
  "join_with sep [] = []"
| "join_with sep [x] = x"
| "join_with sep (x # y # ys) = x @ sep @ join_with sep (y # ys)"

section \<open>Tables\<close>

definition update_where :: "('r \<Rightarrow> bool) \<Rightarrow> ('r \<Rightarrow> 'r) \<Rightarrow> 'r list \<Rightarrow> 'r list" where
  "update_where p f t = map (\<lambda>r. if p r then f r else r) t"

definition count_where :: "('r \<Rightarrow> bool) \<Rightarrow> 'r list \<Rightarrow> nat" where
  "count_where p t = length (filter p t)"

definition fetch_optional :: "('r \<Rightarrow> bool) \<Rightarrow> 'r list \<Rightarrow> 'r option" where
  "fetch_optional p t = find p t"

lemma length_update_where [table_simps]: "length (update_where p f t) = length t"
  by (simp add: update_where_def)

lemma update_where_append [table_simps]:
  "update_where p f (t @ u) = update_where p f t @ update_where p f u"
  by (simp add: update_where_def)

lemma set_update_where:
  "set (update_where p f t) = (\<lambda>r. if p r then f r else r) ` set t"
  by (simp add: update_where_def)

lemma fetch_optional_append [table_simps]:
  "fetch_optional p (t @ u) =
     (case fetch_optional p t of None \<Rightarrow> fetch_optional p u | Some r \<Rightarrow> Some r)"
  unfolding fetch_optional_def by (induction t) auto

lemma fetch_optional_Cons [table_simps]:
  "fetch_optional p (r # t) = (if p r then Some r else fetch_optional p t)"
  by (simp add: fetch_optional_def)

lemma fetch_optional_Nil [table_simps]: "fetch_optional p [] = None"
  by (simp add: fetch_optional_def)

lemma fetch_optional_SomeD: "fetch_optional p t = Some r \<Longrightarrow> r \<in> set t \<and> p r"
  unfolding fetch_optional_def by (auto simp: find_Some_iff)

lemma fetch_optional_None_iff: "(fetch_optional p t = None) \<longleftrightarrow> (\<forall>r \<in> set t. \<not> p r)"
  unfolding fetch_optional_def by (auto simp: find_None_iff)

lemma count_where_append [table_simps]:
  "count_where p (t @ u) = count_where p t + count_where p u"
  by (simp add: count_where_def)

lemma count_where_Cons [table_simps]:
  "count_where p (r # t) = (if p r then Suc (count_where p t) else count_where p t)"
  by (simp add: count_where_def)

lemma count_where_Nil [table_simps]: "count_where p [] = 0"
  by (simp add: count_where_def)

lemma count_where_0_iff: "(count_where p t = 0) \<longleftrightarrow> (\<forall>r \<in> set t. \<not> p r)"
  by (simp add: count_where_def filter_empty_conv)

lemma count_where_mono: "(\<And>r. r \<in> set t \<Longrightarrow> p r \<Longrightarrow> q r) \<Longrightarrow> count_where p t \<le> count_where q t"
  by (induction t) (auto simp: table_simps le_SucI)

lemma count_where_cong: "(\<And>r. r \<in> set t \<Longrightarrow> p r \<longleftrightarrow> q r) \<Longrightarrow> count_where p t = count_where q t"
  by (induction t) (auto simp: table_simps)

lemma count_where_update [table_simps]:
  "count_where q (update_where p f t) = count_where (\<lambda>r. q (if p r then f r else r)) t"
  by (induction t) (simp_all add: update_where_def table_simps)

lemma count_where_split: "count_where q t = count_where (\<lambda>r. q r \<and> m r) t + count_where (\<lambda>r. q r \<and> \<not> m r) t"
  by (induction t) (auto simp: table_simps)

lemma count_where_positive: "0 < count_where p t \<longleftrightarrow> (\<exists>r \<in> set t. p r)"
  using count_where_0_iff [of p t] by auto

lemma ball_update_where:
  "(\<forall>r \<in> set (update_where p f t). P r) \<longleftrightarrow> (\<forall>r \<in> set t. P (if p r then f r else r))"
  by (auto simp: set_update_where)

lemma map_update_where: "(\<And>r. p r \<Longrightarrow> g (f r) = g r) \<Longrightarrow> map g (update_where p f t) = map g t"
  by (auto simp: update_where_def)

lemma fetch_update_where:
  "(\<And>r. p r \<Longrightarrow> q (f r) = q r) \<Longrightarrow>
     fetch_optional q (update_where p f t) =
     map_option (\<lambda>r. if p r then f r else r) (fetch_optional q t)"
  by (induction t) (auto simp: update_where_def table_simps)

text \<open>
  A column that identifies the rows of a table and that the statement's assignment leaves
  alone: what a look-up by that column returns after the statement, and how many rows it
  touched. Every table of the store is an instance, by its primary key.
\<close>

locale keyed_rows =
  fixes key :: "'r \<Rightarrow> 'k"
    and assign :: "'r \<Rightarrow> 'r"
  assumes key_assign: "key (assign r) = key r"
begin

lemma fetch_update:
  "fetch_optional (\<lambda>r. key r = x) (update_where p assign t) =
     map_option (\<lambda>r. if p r then assign r else r) (fetch_optional (\<lambda>r. key r = x) t)"
  by (induction t) (auto simp: update_where_def table_simps key_assign)

lemma keys_update: "map key (update_where p assign t) = map key t"
  by (induction t) (auto simp: update_where_def key_assign)

end

lemma fetch_key_distinct:
  assumes "distinct (map key t)" and "r \<in> set t"
  shows "fetch_optional (\<lambda>r'. key r' = key r) t = Some r"
  using assms by (induction t) (force simp: table_simps)+

lemma count_key_distinct:
  assumes "distinct (map key t)"
  shows "count_where (\<lambda>r. key r = x \<and> q r) t =
    (case fetch_optional (\<lambda>r. key r = x) t of None \<Rightarrow> 0 | Some r \<Rightarrow> if q r then 1 else 0)"
  using assms
proof (induction t)
  case Nil
  then show ?case by (simp add: table_simps)
next
  case (Cons r t)
  have "count_where (\<lambda>r. key r = x \<and> q r) t = 0" if "key r = x"
    using Cons.prems that by (auto simp: count_where_0_iff image_iff)
  with Cons show ?case by (auto simp: table_simps)
qed

end
