(* ===== verification/Json.thy ===== *)
theory Json
  imports Prelude
begin

text \<open>
  JSON values as the code takes them apart: the enum \<open>serde_json::Value\<close> with the
  constructors the sources match on (\<open>Value::Object(map)\<close>, \<open>Value::Array(values)\<close>)
  and the accessors they call (\<open>get\<close>, \<open>as_str\<close>, \<open>as_u64\<close>, \<open>as_bool\<close>,
  \<open>as_array\<close>, \<open>pointer\<close>). An object is its entries in the order the map iterates
  them; numbers are integers or the bit pattern of a double. Parsing and printing JSON
  text is library code and is not modelled.
\<close>

datatype json =
    JNull
  | JBool bool
  | JInt int
  | JFloat u64
  | JString string
  | JArray "json list"
  | JObject "(string \<times> json) list"

definition json_get :: "string \<Rightarrow> json \<Rightarrow> json option" where
  "json_get k v = (case v of JObject m \<Rightarrow> map_of m k | _ \<Rightarrow> None)"

definition as_str :: "json \<Rightarrow> string option" where
  "as_str v = (case v of JString s \<Rightarrow> Some s | _ \<Rightarrow> None)"

definition as_bool :: "json \<Rightarrow> bool option" where
  "as_bool v = (case v of JBool b \<Rightarrow> Some b | _ \<Rightarrow> None)"

definition as_array :: "json \<Rightarrow> json list option" where
  "as_array v = (case v of JArray xs \<Rightarrow> Some xs | _ \<Rightarrow> None)"

definition as_u64 :: "json \<Rightarrow> u64 option" where
  "as_u64 v = (case v of JInt i \<Rightarrow> try_from_int i | _ \<Rightarrow> None)"

text \<open>\<open>pointer\<close> along the keys of a path, for the object paths the sources use.\<close>

fun json_pointer :: "string list \<Rightarrow> json \<Rightarrow> json option" where
  "json_pointer [] v = Some v"
| "json_pointer (k # ks) v = (case json_get k v of None \<Rightarrow> None | Some w \<Rightarrow> json_pointer ks w)"

definition json_opt :: "('a \<Rightarrow> json) \<Rightarrow> 'a option \<Rightarrow> json" where
  "json_opt f x = (case x of None \<Rightarrow> JNull | Some y \<Rightarrow> f y)"

lemma json_get_simps [simp]:
  "json_get k JNull = None"
  "json_get k (JBool b) = None"
  "json_get k (JInt i) = None"
  "json_get k (JFloat d) = None"
  "json_get k (JString s) = None"
  "json_get k (JArray xs) = None"
  "json_get k (JObject m) = map_of m k"
  by (simp_all add: json_get_def)

lemma as_str_iff [simp]: "(as_str v = Some s) \<longleftrightarrow> v = JString s"
  by (cases v) (auto simp: as_str_def)

lemma as_str_JString [simp]: "as_str (JString s) = Some s"
  by simp

lemma as_bool_iff [simp]: "(as_bool v = Some b) \<longleftrightarrow> v = JBool b"
  by (cases v) (auto simp: as_bool_def)

lemma as_array_iff [simp]: "(as_array v = Some xs) \<longleftrightarrow> v = JArray xs"
  by (cases v) (auto simp: as_array_def)

lemma as_u64_iff: "(as_u64 v = Some w) \<longleftrightarrow> v = JInt (uint w)"
proof (cases v)
  case (JInt i)
  have "try_from_int i = Some w \<longleftrightarrow> i = uint w"
    using try_from_int_uint [of w]
    by (metis try_from_int_Some uint_word_of_int_in_range)
  with JInt show ?thesis by (simp add: as_u64_def)
qed (simp_all add: as_u64_def)

lemma json_pointer_append:
  "json_pointer (ks @ ls) v =
     (case json_pointer ks v of None \<Rightarrow> None | Some w \<Rightarrow> json_pointer ls w)"
  by (induction ks arbitrary: v) (auto split: option.splits)

end
