(* ===== verification/Protocol.thy ===== *)
theory Protocol
  imports Json
begin

text \<open>
  The public protocol types of \<open>crates/protocol/src/lib.rs\<close>: every struct is a record
  whose fields carry a short prefix of the struct's name (records share one name space),
  every enum is a datatype with the source's constructors. The states of a Submission are
  ordered by progress, an instance of the class of preorders.
\<close>

section \<open>Requests\<close>

datatype task_mode = Task | Goal "u64 option"

fun mode_name :: "task_mode \<Rightarrow> string" where
  "mode_name Task = ''task''"
| "mode_name (Goal token_budget) = ''goal''"

record object_ref =
  obj_resolver_id :: string
  obj_object_key :: string
  obj_digest :: string
  obj_size_bytes :: "u64 option"
  obj_media_type :: "string option"

datatype file_ref =
    FileWorkspace (file_path: string) (file_digest: "string option")
  | FileObject object_ref

datatype content_part =
    PartText string
  | PartData json "string option"
  | PartFile file_ref "string option" "string option"

record input_body =
  inp_parts :: "content_part list"

datatype workspace_access = ReadOnly | Writable | WritableOverlay

datatype workspace_ref =
    WsLocal (ws_root_id: string) (ws_path: "string option") "string option" workspace_access
  | WsBinding string string workspace_access

fun ws_access :: "workspace_ref \<Rightarrow> workspace_access" where
  "ws_access (WsLocal root_id path revision access) = access"
| "ws_access (WsBinding binding_id revision access) = access"

datatype json_schema_source = SchemaInline json | SchemaObject object_ref

datatype final_output = FinalText | FinalJsonSchema json_schema_source

record artifact_collection =
  ac_sink_id :: string
  ac_include :: "string list"

record output_spec =
  os_final_output :: "final_output option"
  os_artifacts :: "artifact_collection option"

record resource_selector =
  sel_id :: string
  sel_version :: "string option"

record capability_requirement =
  cr_name :: string
  cr_min_version :: "string option"

datatype extension_kind = Skill | Mcp | Plugin

record extension_ref =
  ext_kind :: extension_kind
  ext_resource :: resource_selector

record agent_selector =
  ag_profile :: "resource_selector option"
  ag_adapter :: "string option"
  ag_model :: "string option"
  ag_required_capabilities :: "capability_requirement list"
  ag_extensions :: "extension_ref list"

datatype locality = LocalOnly | AnyLocality

datatype side_effects = ReadOnlyEffects | IdempotentWrite | SideEffecting

record execution_selector =
  ex_route_ids :: "string list option"
  ex_target_ids :: "string list option"
  ex_locality :: "locality option"
  ex_side_effects :: "side_effects option"

datatype session_binding = Ephemeral | SessionCreate "u64 option" | SessionResume string

record scheduling =
  sch_priority :: "u8 option"
  sch_not_before :: "time option"
  sch_start_deadline :: "time option"

record limits =
  lim_run_timeout_seconds :: "u64 option"
  lim_idle_timeout_seconds :: "u64 option"
  lim_max_tokens :: "u64 option"
  lim_max_provider_requests :: "u64 option"

record submission_create =
  sc_client_reference :: "string option"
  sc_labels :: "(string \<times> string) list"
  sc_mode :: task_mode
  sc_input :: input_body
  sc_workspace :: "workspace_ref option"
  sc_output :: "output_spec option"
  sc_agent :: "agent_selector option"
  sc_execution :: "execution_selector option"
  sc_session :: "session_binding option"
  sc_scheduling :: "scheduling option"
  sc_limits :: "limits option"
  sc_policy :: "resource_selector option"

text \<open>
  A patch field that is absent is \<open>None\<close>, one that is \<open>null\<close> is \<open>Some None\<close>
  (\<open>deserialize_optional_nullable\<close>).
\<close>

record submission_patch =
  pt_priority :: "u8 option"
  pt_not_before :: "time option option"
  pt_start_deadline :: "time option option"

section \<open>Resources, states and results\<close>

record resource_ref =
  rr_id :: string
  rr_version :: string
  rr_digest :: string

record runtime_ref =
  rt_name :: string
  rt_version :: string
  rt_digest :: string

datatype submission_state =
  Queued | Running | Completed | Failed | Cancelled | Expired | Uncertain

definition terminal :: "submission_state \<Rightarrow> bool" where
  "terminal s \<longleftrightarrow> s \<in> {Completed, Failed, Cancelled, Expired, Uncertain}"

datatype attempt_state =
    AttemptStarting | AttemptRunning | AttemptCompleted
  | AttemptFailed | AttemptCancelled | AttemptUncertain

datatype error_scope =
    ScopeRequest | ScopeSubmission | ScopeAttempt | ScopeRoute
  | ScopeTarget | ScopeSource | ScopeSession

record error_detail =
  ed_code :: string
  ed_message :: string
  ed_retryable :: bool
  ed_scope :: error_scope
  ed_retry_after_seconds :: "u64 option"
  ed_field :: "string option"

record api_error =
  ae_request_id :: string
  ae_error :: error_detail

record submission_accepted =
  sa_submission_id :: string
  sa_state :: submission_state
  sa_terminal :: bool
  sa_revision :: u64
  sa_request_digest :: string
  sa_resolved_profile :: resource_ref
  sa_resolved_policy :: resource_ref
  sa_status_url :: string
  sa_events_url :: string
  sa_result_url :: string
  sa_idempotent_replay :: bool

record blocker =
  bl_code :: string
  bl_retry_after :: "time option"
  bl_detail :: "string option"

record usage_summary =
  us_input_tokens :: "u64 option"
  us_output_tokens :: "u64 option"
  us_reasoning_tokens :: "u64 option"
  us_provider_requests :: "u64 option"
  us_measurement :: string

record attempt =
  at_attempt_id :: string
  at_number :: u32
  at_state :: attempt_state
  at_route_id :: string
  at_adapter :: string
  at_model :: string
  at_target_id :: string
  at_source_label :: string
  at_sandbox_profile :: string
  at_runtime :: runtime_ref
  at_agent_version :: "string option"
  at_session_id :: "string option"
  at_started_at :: "time option"
  at_finished_at :: "time option"
  at_usage :: "usage_summary option"
  at_error :: "error_detail option"

record submission_status =
  st_submission_id :: string
  st_client_reference :: "string option"
  st_request_digest :: string
  st_resolved_profile :: resource_ref
  st_resolved_policy :: resource_ref
  st_state :: submission_state
  st_terminal :: bool
  st_revision :: u64
  st_mode :: string
  st_created_at :: time
  st_updated_at :: time
  st_blocker :: "blocker option"
  st_session_id :: "string option"
  st_attempts :: "attempt list"
  st_latest_event_sequence :: u64
  st_error :: "error_detail option"

record event_envelope =
  ev_event_id :: string
  ev_submission_id :: string
  ev_session_id :: "string option"
  ev_attempt_id :: "string option"
  ev_sequence :: u64
  ev_occurred_at :: time
  ev_event_type :: string
  ev_data :: json

datatype output_value = OutputText string bool | OutputData json

record artifact_ref =
  ar_sink_id :: string
  ar_object_key :: string
  ar_digest :: string
  ar_size_bytes :: u64
  ar_media_type :: string

record submission_result =
  sr_submission_id :: string
  sr_state :: submission_state
  sr_terminal :: bool
  sr_output :: "output_value option"
  sr_artifacts :: "artifact_ref list"
  sr_attempts :: "attempt list"
  sr_usage :: "usage_summary option"
  sr_error :: "error_detail option"
  sr_finished_at :: time

record cancellation_result =
  cn_submission_id :: string
  cn_disposition :: string
  cn_revision :: u64

record capability_descriptor =
  cd_name :: string
  cd_version :: string
  cd_constraints :: "(string \<times> json) list"

record resource_summary =
  rs_resource_ref :: resource_ref
  rs_description :: "string option"
  rs_capabilities :: "capability_descriptor list"
  rs_deprecated :: bool

record 'a page =
  pg_items :: "'a list"
  pg_next_cursor :: "string option"

section \<open>States ordered by progress\<close>

definition progress :: "submission_state \<Rightarrow> nat" where
  "progress s = (if s = Queued then 0 else if s = Running then 1 else 2)"

instantiation submission_state :: preorder
begin

definition less_eq_submission_state :: "submission_state \<Rightarrow> submission_state \<Rightarrow> bool" where
  "s \<le> t \<longleftrightarrow> s = t \<or> progress s < progress t"

definition less_submission_state :: "submission_state \<Rightarrow> submission_state \<Rightarrow> bool" where
  "(s::submission_state) < t \<longleftrightarrow> progress s < progress t"

instance
  by standard (auto simp: less_eq_submission_state_def less_submission_state_def)

end

lemma terminal_simps [simp]:
  "\<not> terminal Queued" "\<not> terminal Running"
  "terminal Completed" "terminal Failed" "terminal Cancelled" "terminal Expired"
  "terminal Uncertain"
  by (simp_all add: terminal_def)

lemma terminal_progress: "terminal s \<longleftrightarrow> progress s = 2"
  by (cases s) (simp_all add: progress_def)

lemma terminal_maximal: "terminal s \<Longrightarrow> \<not> s < t"
  by (simp add: less_submission_state_def terminal_progress) (simp add: progress_def)

end
