(* ===== verification/Paths.thy ===== *)
theory Paths
  imports Prelude "HOL-Library.Sublist"
begin

text \<open>
  \<open>std::path\<close> on Unix as the sources use it: \<open>components\<close>, \<open>is_absolute\<close>, \<open>join\<close>,
  \<open>starts_with\<close>, \<open>strip_prefix\<close>, \<open>parent\<close>, \<open>with_extension\<close>, and the relative-path test that appears three times in the program
  (\<open>validate_relative_sandbox_path\<close> in config.rs, \<open>validate_sandbox_relative\<close> in the
  runner, the workspace path in api.rs). \<open>lexical_resolve\<close> is the specification the
  test is judged by: where a path leads when \<open>..\<close> climbs and a root component restarts.
\<close>

datatype path_component = RootDir | CurDir | ParentDir | Normal string

fun split_on :: "char \<Rightarrow> string \<Rightarrow> string list" where
  "split_on d [] = [[]]"
| "split_on d (c # cs) =
     (if c = d then [] # split_on d cs
      else (case split_on d cs of [] \<Rightarrow> [[c]] | s # ss \<Rightarrow> (c # s) # ss))"

definition is_absolute :: "string \<Rightarrow> bool" where
  "is_absolute p \<longleftrightarrow> (case p of [] \<Rightarrow> False | c # _ \<Rightarrow> c = CHR ''/'')"

text \<open>Empty segments and inner \<open>.\<close> segments vanish; a leading \<open>.\<close> stays.\<close>

fun body_components :: "string list \<Rightarrow> path_component list" where
  "body_components [] = []"
| "body_components (s # ss) =
     (if s = [] \<or> s = ''.'' then body_components ss
      else (if s = ''..'' then ParentDir else Normal s) # body_components ss)"

definition path_components :: "string \<Rightarrow> path_component list" where
  "path_components p =
     (if is_absolute p then RootDir # body_components (split_on (CHR ''/'') p)
      else (case split_on (CHR ''/'') p of
              [] \<Rightarrow> []
            | s # ss \<Rightarrow> (if s = ''.'' then [CurDir] else []) @ body_components (s # ss)))"

definition path_join :: "string \<Rightarrow> string \<Rightarrow> string" where
  "path_join base p =
     (if is_absolute p then p
      else if base = [] \<or> last base = CHR ''/'' then base @ p
      else base @ CHR ''/'' # p)"

definition path_starts_with :: "string \<Rightarrow> string \<Rightarrow> bool" where
  "path_starts_with p base \<longleftrightarrow> prefix (path_components base) (path_components p)"

text \<open>\<open>matches!(component, ParentDir | RootDir | Prefix(_))\<close>: no prefixes on Unix.\<close>

definition escaping_component :: "path_component \<Rightarrow> bool" where
  "escaping_component c \<longleftrightarrow> c = ParentDir \<or> c = RootDir"

definition safe_relative :: "string \<Rightarrow> bool" where
  "safe_relative p \<longleftrightarrow>
     \<not> (is_absolute p \<or> list_ex escaping_component (path_components p))"

section \<open>Where a path leads\<close>

fun resolve_step :: "string list \<Rightarrow> path_component \<Rightarrow> string list" where
  "resolve_step d RootDir = []"
| "resolve_step d CurDir = d"
| "resolve_step d ParentDir = butlast d"
| "resolve_step d (Normal s) = d @ [s]"

definition lexical_resolve :: "string list \<Rightarrow> path_component list \<Rightarrow> string list" where
  "lexical_resolve d cs = foldl resolve_step d cs"

lemma lexical_resolve_simps [simp]:
  "lexical_resolve d [] = d"
  "lexical_resolve d (c # cs) = lexical_resolve (resolve_step d c) cs"
  by (simp_all add: lexical_resolve_def)

lemma lexical_resolve_append:
  "lexical_resolve d (cs @ ds) = lexical_resolve (lexical_resolve d cs) ds"
  by (simp add: lexical_resolve_def)

lemma resolve_stays_below:
  "\<not> list_ex escaping_component cs \<Longrightarrow> prefix d (lexical_resolve d cs)"
proof (induction cs arbitrary: d)
  case Nil
  then show ?case by simp
next
  case (Cons c cs)
  then have "prefix d (resolve_step d c)"
    by (cases c) (auto simp: escaping_component_def)
  moreover from Cons have "prefix (resolve_step d c) (lexical_resolve (resolve_step d c) cs)"
    by simp
  ultimately show ?case by (auto intro: prefix_order.trans)
qed

lemma safe_relative_stays_below:
  "safe_relative p \<Longrightarrow> prefix d (lexical_resolve d (path_components p))"
  by (simp add: safe_relative_def resolve_stays_below)

text \<open>Every component that the test passes over names an entry or nothing at all.\<close>

lemma safe_relative_components:
  "safe_relative p \<Longrightarrow> set (path_components p) \<subseteq> {CurDir} \<union> range Normal"
proof
  fix c
  assume "safe_relative p" and "c \<in> set (path_components p)"
  then have "\<not> escaping_component c"
    by (auto simp: safe_relative_def list_ex_iff)
  then show "c \<in> {CurDir} \<union> range Normal"
    by (cases c) (auto simp: escaping_component_def)
qed

section \<open>Splitting and joining\<close>

lemma split_on_nonempty [simp]: "split_on d s \<noteq> []"
  by (induction s) (auto split: list.splits)

lemma split_on_append_sep: "split_on d (s @ d # t) = split_on d s @ split_on d t"
proof (induction s)
  case Nil
  then show ?case by simp
next
  case (Cons c s)
  then show ?case by (cases "split_on d s") (auto split: list.splits)
qed

lemma body_components_append: "body_components (xs @ ys) = body_components xs @ body_components ys"
  by (induction xs) auto

lemma path_components_absolute:
  "is_absolute p \<Longrightarrow> path_components p = RootDir # body_components (split_on (CHR ''/'') p)"
  by (simp add: path_components_def)

lemma body_components_relative:
  "\<not> is_absolute p \<Longrightarrow>
     body_components (split_on (CHR ''/'') p) = filter (\<lambda>c. c \<noteq> CurDir) (path_components p)"
proof -
  have no_cur: "filter (\<lambda>c. c \<noteq> CurDir) (body_components ss) = body_components ss" for ss
    by (induction ss) auto
  assume "\<not> is_absolute p"
  then show ?thesis
    by (auto simp: path_components_def no_cur split: list.splits)
qed

lemma is_absolute_append: "base \<noteq> [] \<Longrightarrow> is_absolute (base @ q) = is_absolute base"
  by (cases base) (auto simp: is_absolute_def)

lemma split_on_trailing_sep:
  "base \<noteq> [] \<Longrightarrow> last base = d \<Longrightarrow> split_on d (base @ p) = butlast (split_on d base) @ split_on d p"
proof -
  assume "base \<noteq> []" and "last base = d"
  then have base: "base = butlast base @ d # []" by (metis append_butlast_last_id)
  have "split_on d (base @ p) = split_on d (butlast base @ d # p)"
    using base by (metis append.assoc append_Cons append_Nil)
  moreover have "split_on d base = split_on d (butlast base) @ [[]]"
    using base split_on_append_sep [of d "butlast base" "[]"] by simp
  ultimately show ?thesis by (simp add: split_on_append_sep)
qed

text \<open>Joining a relative path to an absolute base: the base's components, then the path's.\<close>

lemma components_join:
  assumes "is_absolute base" and "\<not> is_absolute p"
  shows "path_components (path_join base p) =
    path_components base @ filter (\<lambda>c. c \<noteq> CurDir) (path_components p)"
proof -
  let ?split = "split_on (CHR ''/'')"
  have nonempty: "base \<noteq> []" using assms(1) by (auto simp: is_absolute_def)
  have abs: "is_absolute (path_join base p)"
    using assms nonempty by (simp add: path_join_def is_absolute_append)
  have "body_components (?split (path_join base p)) =
      body_components (?split base) @ body_components (?split p)"
  proof (cases "last base = CHR ''/''")
    case True
    have "?split base = butlast (?split base) @ [[]]"
      using split_on_trailing_sep [OF nonempty True, of "[]"] by simp
    then have "body_components (?split base) = body_components (butlast (?split base))"
      by (metis append_Nil2 body_components.simps body_components_append)
    with True nonempty assms show ?thesis
      by (simp add: path_join_def split_on_trailing_sep body_components_append)
  next
    case False
    with nonempty assms show ?thesis
      by (simp add: path_join_def split_on_append_sep body_components_append)
  qed
  with abs assms show ?thesis
    by (simp add: path_components_absolute body_components_relative)
qed

lemma join_starts_with:
  "is_absolute base \<Longrightarrow> \<not> is_absolute p \<Longrightarrow> path_starts_with (path_join base p) base"
  by (simp add: path_starts_with_def components_join)

section \<open>Taking paths apart\<close>

text \<open>
  \<open>Path::strip_prefix\<close> with a base of at least one component, as the sources call it: the
  remaining slice, without the separators and \<open>.\<close> segments at its ends. \<open>Path::parent\<close>,
  \<open>Path::file_name\<close> and \<open>Path::with_extension\<close> cut at the last component.
\<close>

definition idle_segment :: "string \<Rightarrow> bool" where
  "idle_segment s \<longleftrightarrow> s = [] \<or> s = ''.''"

fun skip_segments :: "nat \<Rightarrow> string list \<Rightarrow> string list" where
  "skip_segments 0 ss = ss"
| "skip_segments (Suc n) [] = []"
| "skip_segments (Suc n) (s # ss) = (if idle_segment s then skip_segments (Suc n) ss else skip_segments n ss)"

definition trim_end :: "string list \<Rightarrow> string list" where
  "trim_end ss = rev (dropWhile idle_segment (rev ss))"

definition trim_segments :: "string list \<Rightarrow> string list" where
  "trim_segments ss = trim_end (dropWhile idle_segment ss)"

definition named_components :: "path_component list \<Rightarrow> nat" where
  "named_components cs = length (filter (\<lambda>c. c \<noteq> RootDir \<and> c \<noteq> CurDir) cs)"

definition path_strip_prefix :: "string \<Rightarrow> string \<Rightarrow> string option" where
  "path_strip_prefix p base =
     (if prefix (path_components base) (path_components p)
      then Some (join_with ''/'' (trim_segments
        (skip_segments (named_components (path_components base)) (split_on (CHR ''/'') p))))
      else None)"

definition path_parent :: "string \<Rightarrow> string option" where
  "path_parent p =
     (let cs = path_components p in
      if cs = [] \<or> last cs = RootDir then None
      else if last cs = CurDir then Some []
      else
        let kept = trim_end (butlast (trim_end (split_on (CHR ''/'') p))) in
        Some (if kept = [] \<and> is_absolute p then ''/''
          else if kept = [] \<and> hd cs = CurDir then ''.''
          else join_with ''/'' kept))"

definition path_file_name :: "string \<Rightarrow> string option" where
  "path_file_name p =
     (case rev (path_components p) of Normal name # _ \<Rightarrow> Some name | _ \<Rightarrow> None)"

text \<open>The name up to its last dot, unless that is its first character.\<close>

definition file_stem :: "string \<Rightarrow> string" where
  "file_stem name =
     (let parts = split_on (CHR ''.'') name; stem = join_with ''.'' (butlast parts)
      in if length parts = 1 \<or> stem = [] then name else stem)"

definition path_with_extension :: "string \<Rightarrow> string \<Rightarrow> string" where
  "path_with_extension p extension =
     (case path_file_name p of
        None \<Rightarrow> p
      | Some name \<Rightarrow>
          join_with ''/'' (butlast (trim_end (split_on (CHR ''/'') p)) @ [file_stem name]) @
            (if extension = [] then [] else CHR ''.'' # extension))"

lemma split_on_free: "d \<notin> set s \<Longrightarrow> split_on d s = [s]"
  by (induction s) auto

lemma split_on_segments: "s \<in> set (split_on d p) \<Longrightarrow> d \<notin> set s"
proof (induction p arbitrary: s)
  case (Cons c p)
  then show ?case by (cases "split_on d p") (auto split: if_splits)
qed simp

lemma split_join: "ss \<noteq> [] \<Longrightarrow> \<forall>s \<in> set ss. d \<notin> set s \<Longrightarrow> split_on d (join_with [d] ss) = ss"
  by (induction "[d]" ss rule: join_with.induct) (simp_all add: split_on_free split_on_append_sep)

lemma set_skip_segments: "set (skip_segments n ss) \<subseteq> set ss"
  by (induction n ss rule: skip_segments.induct) auto

lemma set_trim_end: "set (trim_end ss) \<subseteq> set ss"
  by (auto simp: trim_end_def dest: set_dropWhileD)

lemma set_trim_segments: "set (trim_segments ss) \<subseteq> set ss"
  using set_trim_end [of "dropWhile idle_segment ss"]
  by (auto simp: trim_segments_def dest: set_dropWhileD)

lemma body_components_idle: "\<forall>s \<in> set ss. idle_segment s \<Longrightarrow> body_components ss = []"
  by (induction ss) (auto simp: idle_segment_def)

lemma body_components_skip: "body_components (skip_segments n ss) = drop n (body_components ss)"
  by (induction n ss rule: skip_segments.induct) (auto simp: idle_segment_def)

lemma body_components_dropWhile: "body_components (dropWhile idle_segment ss) = body_components ss"
  by (induction ss) (auto simp: idle_segment_def)

lemma body_components_trim_end: "body_components (trim_end ss) = body_components ss"
proof -
  have "ss = trim_end ss @ rev (takeWhile idle_segment (rev ss))"
    by (metis rev_append rev_rev_ident takeWhile_dropWhile_id trim_end_def)
  moreover have "body_components (rev (takeWhile idle_segment (rev ss))) = []"
    by (rule body_components_idle) (auto dest: set_takeWhileD)
  ultimately show ?thesis
    by (metis append_Nil2 body_components_append)
qed

lemma body_components_trim: "body_components (trim_segments ss) = body_components ss"
  by (simp add: trim_segments_def body_components_trim_end body_components_dropWhile)

lemma trim_segments_first: "trim_segments ss = s # ss' \<Longrightarrow> \<not> idle_segment s"
proof (induction ss)
  case (Cons x ss)
  have kept: "rev (dropWhile P (xs @ [y])) = y # rev (dropWhile P xs)" if "\<not> P y"
    for P and y :: string and xs
    using that by (induction xs) auto
  show ?case
  proof (cases "idle_segment x")
    case False
    then have "trim_segments (x # ss) = x # rev (dropWhile idle_segment (rev ss))"
      using kept [of idle_segment x "rev ss"] by (simp add: trim_segments_def trim_end_def)
    then show ?thesis using Cons.prems False by simp
  qed (use Cons in \<open>simp add: trim_segments_def\<close>)
qed (simp add: trim_segments_def trim_end_def)

lemma named_body: "named_components (body_components ss) = length (body_components ss)"
  by (induction ss) (auto simp: named_components_def)

text \<open>Below an absolute base, the stripped path has the remaining components and is relative.\<close>

lemma components_join_segments:
  assumes "\<forall>s \<in> set ss. CHR ''/'' \<notin> set s"
  shows "path_components (join_with ''/'' (trim_segments ss)) = body_components ss \<and>
    \<not> is_absolute (join_with ''/'' (trim_segments ss))"
proof (cases "trim_segments ss")
  case Nil
  then show ?thesis
    using body_components_trim [of ss] by (simp add: path_components_def is_absolute_def)
next
  case (Cons s ss')
  let ?rel = "join_with ''/'' (trim_segments ss)"
  have free: "\<forall>s \<in> set (trim_segments ss). CHR ''/'' \<notin> set s"
    using assms set_trim_segments [of ss] by blast
  have s: "\<not> idle_segment s" "CHR ''/'' \<notin> set s"
    using trim_segments_first [OF Cons] free Cons by auto
  then obtain c cs where "s = c # cs" "c \<noteq> CHR ''/''"
    by (cases s) (auto simp: idle_segment_def)
  then have rel: "\<not> is_absolute ?rel"
    using Cons by (cases ss') (simp_all add: is_absolute_def)
  have "split_on (CHR ''/'') ?rel = trim_segments ss"
    using split_join [OF _ free] Cons by simp
  then show ?thesis
    using rel s(1) Cons body_components_trim [of ss]
    by (simp add: path_components_def idle_segment_def)
qed

lemma strip_prefix_components:
  assumes "is_absolute p" and "is_absolute base" and "path_components p = path_components base @ cs"
  shows "\<exists>rel. path_strip_prefix p base = Some rel \<and> path_components rel = cs \<and> \<not> is_absolute rel"
proof -
  let ?split = "split_on (CHR ''/'')"
  let ?n = "length (body_components (?split base))"
  let ?rest = "skip_segments ?n (?split p)"
  have n: "named_components (path_components base) = ?n"
    using named_body [of "?split base"] assms(2)
    by (simp add: path_components_absolute named_components_def)
  have "body_components (?split p) = body_components (?split base) @ cs"
    using assms by (simp add: path_components_absolute)
  then have "body_components ?rest = cs" by (simp add: body_components_skip)
  moreover have "\<forall>s \<in> set ?rest. CHR ''/'' \<notin> set s"
    using set_skip_segments [of ?n "?split p"] split_on_segments by blast
  ultimately show ?thesis
    using components_join_segments [of ?rest] assms(3) by (simp add: path_strip_prefix_def n)
qed

end
