(* ===== verification/Config.thy ===== *)
theory Config
  imports Paths "HOL-Library.Char_ord" "HOL-Library.List_Lexorder"
begin

text \<open>
  \<open>crates/service/src/config.rs\<close>: the configuration records, \<open>Config::validate\<close> with
  its checks in the source's order (one error constructor per \<open>bail!\<close>), and the look-ups
  by id. Reading the file and decoding TOML is library code. \<open>config_ok\<close> states what a
  validated configuration promises; \<open>validate_config_ok_iff\<close> is their equivalence.
\<close>

section \<open>Records\<close>

definition SANDBOX_AGENT_VERSION :: string where
  "SANDBOX_AGENT_VERSION = ''0.4.2''"

definition SANDBOX_AGENT_SHA256 :: string where
  "SANDBOX_AGENT_SHA256 = ''bab098abef874ade481aa7b50463662814fbf27294399f545307fedb638f029b''"

record daemon_config =
  dc_socket_path :: string
  dc_database_path :: string
  dc_max_inline_output_bytes :: u64

record runtime_config =
  rc_cache_dir :: string
  rc_download_if_missing :: bool

record agent_binary_config =
  ab_adapter :: string
  ab_binary :: string
  ab_sha256 :: string
  ab_agent_process_binary :: "string option"
  ab_agent_process_sha256 :: "string option"

record credential_file =
  cf_source_id :: string
  cf_host_path :: string
  cf_sandbox_path :: string

record local_source_binding_config =
  sb_source_id :: string
  sb_inherit_proxy_environment :: "string list"

record local_runner_config =
  lr_runner_binary :: string
  lr_bubblewrap_binary :: string
  lr_opencode_binary :: "string option"
  lr_opencode_sha256 :: "string option"
  lr_agent_binaries :: "agent_binary_config list"
  lr_credential_files :: "credential_file list"
  lr_source_bindings :: "local_source_binding_config list"

record defaults =
  df_profile_id :: string
  df_policy_id :: string
  df_route_id :: string

datatype network_mode = NetInherited | NetNone

record profile_config =
  pr_id :: string
  pr_version :: string
  pr_description :: string
  pr_network :: network_mode

record policy_config =
  po_id :: string
  po_version :: string
  po_description :: string
  po_run_timeout_seconds :: u64
  po_idle_timeout_seconds :: u64

datatype capacity_monitor_config =
    MonitorStatic
  | MonitorCommand (mon_program: string) (mon_args: "string list")
      (mon_interval_seconds: u64) (mon_timeout_seconds: u64) (mon_max_age_seconds: u64)

record source_config =
  so_id :: string
  so_label :: string
  so_concurrency_limit :: u32
  so_safety_reserve :: u32
  so_monitor :: capacity_monitor_config

record route_config =
  ro_id :: string
  ro_adapter :: string
  ro_model :: string
  ro_source_ids :: "string list"
  ro_target_id :: string

record workspace_root_config =
  wr_id :: string
  wr_path :: string
  wr_allow_writable :: bool

record config =
  cfg_daemon :: daemon_config
  cfg_runtime :: runtime_config
  cfg_local_runner :: local_runner_config
  cfg_defaults :: defaults
  cfg_profiles :: "profile_config list"
  cfg_policies :: "policy_config list"
  cfg_sources :: "source_config list"
  cfg_routes :: "route_config list"
  cfg_workspace_roots :: "workspace_root_config list"

section \<open>Helpers\<close>

datatype config_error =
    EmptyConfiguration
  | NoDefaultProfile
  | NoDefaultPolicy
  | NoDefaultRoute
  | NotUnique string
  | ZeroConcurrencyLimit string
  | ReserveExceedsLimit string
  | NonPositiveMonitorDuration string
  | LegacyOpencodePair
  | UnsupportedAgentAdapter string
  | AgentProcessPair string
  | AgentPathNotAbsolute string
  | InvalidAgentDigest string
  | CodexWithoutAgentProcess
  | UnsupportedRouteAdapter string
  | RouteWithoutAgentBinary string
  | BadSourcePool string
  | RouteTargetNotLocal string
  | ZeroInlineOutput
  | NonPositivePolicyTimeout
  | UnsafeCredentialPath
  | CredentialUnknownSource string
  | BindingUnknownSource string
  | ForbiddenEnvironment string string

text \<open>The loop over a \<open>HashSet\<close> of the items seen so far.\<close>

fun ensure_unique_from :: "string \<Rightarrow> string list \<Rightarrow> string list \<Rightarrow> config_error + unit" where
  "ensure_unique_from label vals [] = Inr ()"
| "ensure_unique_from label vals (item # items) =
     (if item = [] \<or> item \<in> set vals then Inl (NotUnique label)
      else ensure_unique_from label (item # vals) items)"

definition ensure_unique :: "string list \<Rightarrow> string \<Rightarrow> config_error + unit" where
  "ensure_unique items label = ensure_unique_from label [] items"

fun ensure_unique_versions_from ::
  "string \<Rightarrow> (string \<times> string) list \<Rightarrow> (string \<times> string) list \<Rightarrow> config_error + unit" where
  "ensure_unique_versions_from label vals [] = Inr ()"
| "ensure_unique_versions_from label vals ((i, version) # items) =
     (if i = [] \<or> version = [] \<or> (i, version) \<in> set vals then Inl (NotUnique label)
      else ensure_unique_versions_from label ((i, version) # vals) items)"

definition ensure_unique_resource_versions ::
  "(string \<times> string) list \<Rightarrow> string \<Rightarrow> config_error + unit" where
  "ensure_unique_resource_versions items label = ensure_unique_versions_from label [] items"

definition validate_relative_sandbox_path :: "string \<Rightarrow> config_error + unit" where
  "validate_relative_sandbox_path path =
     bail_if (is_absolute path \<or> list_ex escaping_component (path_components path))
       UnsafeCredentialPath"

definition is_allowed_proxy_environment :: "string \<Rightarrow> bool" where
  "is_allowed_proxy_environment name \<longleftrightarrow>
     name \<in> set [''HTTP_PROXY'', ''HTTPS_PROXY'', ''ALL_PROXY'', ''NO_PROXY'',
       ''http_proxy'', ''https_proxy'', ''all_proxy'', ''no_proxy'']"

definition is_sha256_hex :: "string \<Rightarrow> bool" where
  "is_sha256_hex value \<longleftrightarrow> length value = 64 \<and>
     list_all (\<lambda>b. (CHR ''0'' \<le> b \<and> b \<le> CHR ''9'') \<or> (CHR ''a'' \<le> b \<and> b \<le> CHR ''f'')) value"

definition supported_adapter :: "string \<Rightarrow> bool" where
  "supported_adapter a \<longleftrightarrow> a = ''codex'' \<or> a = ''opencode''"

section \<open>Look-ups\<close>

text \<open>\<open>Iterator::max_by\<close>: of several maximal elements, the last.\<close>

definition max_by_last :: "('a \<Rightarrow> 'k::linorder) \<Rightarrow> 'a list \<Rightarrow> 'a option" where
  "max_by_last key xs =
     foldl (\<lambda>acc x. case acc of None \<Rightarrow> Some x
        | Some a \<Rightarrow> if key x < key a then Some a else Some x) None xs"

definition version_matches :: "string option \<Rightarrow> string \<Rightarrow> bool" where
  "version_matches wanted v \<longleftrightarrow> (case wanted of None \<Rightarrow> True | Some w \<Rightarrow> v = w)"

definition config_profile :: "config \<Rightarrow> string \<Rightarrow> string option \<Rightarrow> profile_config option" where
  "config_profile c i version =
     max_by_last pr_version
       (filter (\<lambda>p. version_matches version (pr_version p))
         (filter (\<lambda>p. pr_id p = i) (cfg_profiles c)))"

definition config_policy :: "config \<Rightarrow> string \<Rightarrow> string option \<Rightarrow> policy_config option" where
  "config_policy c i version =
     max_by_last po_version
       (filter (\<lambda>p. version_matches version (po_version p))
         (filter (\<lambda>p. po_id p = i) (cfg_policies c)))"

definition config_route :: "config \<Rightarrow> string \<Rightarrow> route_config option" where
  "config_route c i = find (\<lambda>r. ro_id r = i) (cfg_routes c)"

definition config_source :: "config \<Rightarrow> string \<Rightarrow> source_config option" where
  "config_source c i = find (\<lambda>s. so_id s = i) (cfg_sources c)"

definition local_source_binding :: "config \<Rightarrow> string \<Rightarrow> local_source_binding_config option" where
  "local_source_binding c source_id =
     find (\<lambda>b. sb_source_id b = source_id) (lr_source_bindings (cfg_local_runner c))"

definition workspace_root :: "config \<Rightarrow> string \<Rightarrow> workspace_root_config option" where
  "workspace_root c i = find (\<lambda>r. wr_id r = i) (cfg_workspace_roots c)"

text \<open>The configured binary, or the legacy OpenCode pair for the adapter \<open>opencode\<close>.\<close>

definition agent_binary :: "config \<Rightarrow> string \<Rightarrow> agent_binary_config option" where
  "agent_binary c adapter =
     (case find (\<lambda>b. ab_adapter b = adapter) (lr_agent_binaries (cfg_local_runner c)) of
        Some b \<Rightarrow> Some b
      | None \<Rightarrow>
          (case lr_opencode_binary (cfg_local_runner c) of
             None \<Rightarrow> None
           | Some binary \<Rightarrow>
               (case lr_opencode_sha256 (cfg_local_runner c) of
                  None \<Rightarrow> None
                | Some sha256 \<Rightarrow>
                    if adapter = ''opencode''
                    then Some \<lparr>ab_adapter = ''opencode'', ab_binary = binary, ab_sha256 = sha256,
                      ab_agent_process_binary = None, ab_agent_process_sha256 = None\<rparr>
                    else None)))"

definition sandbox_agent_path :: "config \<Rightarrow> string" where
  "sandbox_agent_path c =
     path_join (path_join (rc_cache_dir (cfg_runtime c)) SANDBOX_AGENT_VERSION) ''sandbox-agent''"

section \<open>Validation\<close>

definition validate_source :: "source_config \<Rightarrow> config_error + unit" where
  "validate_source s =
     try_bind (bail_if (so_concurrency_limit s = 0) (ZeroConcurrencyLimit (so_id s))) (\<lambda>_.
     try_bind (bail_if (so_concurrency_limit s < so_safety_reserve s)
       (ReserveExceedsLimit (so_id s))) (\<lambda>_.
     (case so_monitor s of
        MonitorCommand program args interval timeout max_age \<Rightarrow>
          bail_if (interval = 0 \<or> timeout = 0 \<or> max_age = 0)
            (NonPositiveMonitorDuration (so_id s))
      | MonitorStatic \<Rightarrow> Inr ())))"

definition validate_agent_binary :: "agent_binary_config \<Rightarrow> config_error + unit" where
  "validate_agent_binary b =
     try_bind (bail_if (\<not> supported_adapter (ab_adapter b))
       (UnsupportedAgentAdapter (ab_adapter b))) (\<lambda>_.
     try_bind (bail_if ((ab_agent_process_binary b \<noteq> None) \<noteq> (ab_agent_process_sha256 b \<noteq> None))
       (AgentProcessPair (ab_adapter b))) (\<lambda>_.
     try_bind (bail_if (\<not> is_absolute (ab_binary b) \<or>
         (case ab_agent_process_binary b of None \<Rightarrow> False | Some p \<Rightarrow> \<not> is_absolute p))
       (AgentPathNotAbsolute (ab_adapter b))) (\<lambda>_.
     try_bind (bail_if (\<not> is_sha256_hex (ab_sha256 b) \<or>
         (case ab_agent_process_sha256 b of None \<Rightarrow> False | Some d \<Rightarrow> \<not> is_sha256_hex d))
       (InvalidAgentDigest (ab_adapter b))) (\<lambda>_.
     bail_if (ab_adapter b = ''codex'' \<and> ab_agent_process_binary b = None)
       CodexWithoutAgentProcess))))"

definition validate_route :: "config \<Rightarrow> string list \<Rightarrow> route_config \<Rightarrow> config_error + unit" where
  "validate_route c source_ids r =
     try_bind (bail_if (\<not> supported_adapter (ro_adapter r))
       (UnsupportedRouteAdapter (ro_id r))) (\<lambda>_.
     try_bind (bail_if (agent_binary c (ro_adapter r) = None)
       (RouteWithoutAgentBinary (ro_id r))) (\<lambda>_.
     try_bind (bail_if (ro_source_ids r = [] \<or>
         list_ex (\<lambda>i. i \<notin> set source_ids) (ro_source_ids r))
       (BadSourcePool (ro_id r))) (\<lambda>_.
     bail_if (ro_target_id r \<noteq> ''local'') (RouteTargetNotLocal (ro_id r)))))"

definition validate_binding ::
  "string list \<Rightarrow> local_source_binding_config \<Rightarrow> config_error + unit" where
  "validate_binding source_ids b =
     try_bind (bail_if (sb_source_id b \<notin> set source_ids)
       (BindingUnknownSource (sb_source_id b))) (\<lambda>_.
     try_bind (ensure_unique (sb_inherit_proxy_environment b)
       ''inherited proxy environment variable'') (\<lambda>_.
     check_all (\<lambda>name. bail_if (\<not> is_allowed_proxy_environment name)
       (ForbiddenEnvironment (sb_source_id b) name)) (sb_inherit_proxy_environment b)))"

definition validate_credential ::
  "string list \<Rightarrow> credential_file \<Rightarrow> config_error + unit" where
  "validate_credential source_ids m =
     try_bind (validate_relative_sandbox_path (cf_sandbox_path m)) (\<lambda>_.
     bail_if (cf_source_id m \<notin> set source_ids) (CredentialUnknownSource (cf_source_id m)))"

definition validate_config :: "config \<Rightarrow> config_error + unit" where
  "validate_config c =
     (let lr = cfg_local_runner c; df = cfg_defaults c;
          source_ids = map so_id (cfg_sources c) in
     try_bind (bail_if (cfg_sources c = [] \<or> cfg_routes c = [] \<or> cfg_workspace_roots c = [])
       EmptyConfiguration) (\<lambda>_.
     try_bind (bail_if (\<not> list_ex (\<lambda>p. pr_id p = df_profile_id df) (cfg_profiles c))
       NoDefaultProfile) (\<lambda>_.
     try_bind (bail_if (\<not> list_ex (\<lambda>p. po_id p = df_policy_id df) (cfg_policies c))
       NoDefaultPolicy) (\<lambda>_.
     try_bind (bail_if (\<not> list_ex (\<lambda>r. ro_id r = df_route_id df) (cfg_routes c))
       NoDefaultRoute) (\<lambda>_.
     try_bind (ensure_unique_resource_versions
       (map (\<lambda>p. (pr_id p, pr_version p)) (cfg_profiles c)) ''profile'') (\<lambda>_.
     try_bind (ensure_unique_resource_versions
       (map (\<lambda>p. (po_id p, po_version p)) (cfg_policies c)) ''policy'') (\<lambda>_.
     try_bind (ensure_unique (map so_id (cfg_sources c)) ''source'') (\<lambda>_.
     try_bind (ensure_unique (map ro_id (cfg_routes c)) ''route'') (\<lambda>_.
     try_bind (ensure_unique (map wr_id (cfg_workspace_roots c)) ''workspace root'') (\<lambda>_.
     try_bind (check_all validate_source (cfg_sources c)) (\<lambda>_.
     try_bind (ensure_unique (map ab_adapter (lr_agent_binaries lr)) ''local Agent binary'') (\<lambda>_.
     try_bind (bail_if ((lr_opencode_binary lr \<noteq> None) \<noteq> (lr_opencode_sha256 lr \<noteq> None))
       LegacyOpencodePair) (\<lambda>_.
     try_bind (check_all validate_agent_binary (lr_agent_binaries lr)) (\<lambda>_.
     try_bind (check_all (validate_route c source_ids) (cfg_routes c)) (\<lambda>_.
     try_bind (bail_if (dc_max_inline_output_bytes (cfg_daemon c) = 0) ZeroInlineOutput) (\<lambda>_.
     try_bind (bail_if (list_ex (\<lambda>p. po_run_timeout_seconds p = 0 \<or> po_idle_timeout_seconds p = 0)
         (cfg_policies c)) NonPositivePolicyTimeout) (\<lambda>_.
     try_bind (check_all (validate_credential source_ids) (lr_credential_files lr)) (\<lambda>_.
     try_bind (ensure_unique (map sb_source_id (lr_source_bindings lr))
       ''local source binding'') (\<lambda>_.
     check_all (validate_binding source_ids) (lr_source_bindings lr))))))))))))))))))))"

section \<open>What a validated configuration promises\<close>

definition unique_ids :: "string list \<Rightarrow> bool" where
  "unique_ids ids \<longleftrightarrow> distinct ids \<and> [] \<notin> set ids"

definition source_ok :: "source_config \<Rightarrow> bool" where
  "source_ok s \<longleftrightarrow> 0 < unat (so_concurrency_limit s) \<and>
     unat (so_safety_reserve s) \<le> unat (so_concurrency_limit s) \<and>
     (\<forall>program args interval timeout max_age.
        so_monitor s = MonitorCommand program args interval timeout max_age \<longrightarrow>
        0 < unat interval \<and> 0 < unat timeout \<and> 0 < unat max_age)"

definition agent_binary_ok :: "agent_binary_config \<Rightarrow> bool" where
  "agent_binary_ok b \<longleftrightarrow>
     ab_adapter b \<in> {''codex'', ''opencode''} \<and>
     is_absolute (ab_binary b) \<and> is_sha256_hex (ab_sha256 b) \<and>
     (case (ab_agent_process_binary b, ab_agent_process_sha256 b) of
        (None, None) \<Rightarrow> ab_adapter b \<noteq> ''codex''
      | (Some p, Some d) \<Rightarrow> is_absolute p \<and> is_sha256_hex d
      | _ \<Rightarrow> False)"

definition route_ok :: "config \<Rightarrow> route_config \<Rightarrow> bool" where
  "route_ok c r \<longleftrightarrow>
     ro_adapter r \<in> {''codex'', ''opencode''} \<and> (\<exists>b. agent_binary c (ro_adapter r) = Some b) \<and>
     ro_source_ids r \<noteq> [] \<and> (\<forall>i \<in> set (ro_source_ids r). \<exists>s. config_source c i = Some s) \<and>
     ro_target_id r = ''local''"

definition config_ok :: "config \<Rightarrow> bool" where
  "config_ok c \<longleftrightarrow>
     (let lr = cfg_local_runner c; df = cfg_defaults c in
      cfg_sources c \<noteq> [] \<and> cfg_routes c \<noteq> [] \<and> cfg_workspace_roots c \<noteq> [] \<and>
      (\<exists>p. config_profile c (df_profile_id df) None = Some p) \<and>
      (\<exists>p. config_policy c (df_policy_id df) None = Some p) \<and>
      (\<exists>r. config_route c (df_route_id df) = Some r) \<and>
      distinct (map (\<lambda>p. (pr_id p, pr_version p)) (cfg_profiles c)) \<and>
      (\<forall>p \<in> set (cfg_profiles c). pr_id p \<noteq> [] \<and> pr_version p \<noteq> []) \<and>
      distinct (map (\<lambda>p. (po_id p, po_version p)) (cfg_policies c)) \<and>
      (\<forall>p \<in> set (cfg_policies c). po_id p \<noteq> [] \<and> po_version p \<noteq> [] \<and>
         0 < unat (po_run_timeout_seconds p) \<and> 0 < unat (po_idle_timeout_seconds p)) \<and>
      unique_ids (map so_id (cfg_sources c)) \<and> unique_ids (map ro_id (cfg_routes c)) \<and>
      unique_ids (map wr_id (cfg_workspace_roots c)) \<and>
      unique_ids (map ab_adapter (lr_agent_binaries lr)) \<and>
      unique_ids (map sb_source_id (lr_source_bindings lr)) \<and>
      (\<forall>s \<in> set (cfg_sources c). source_ok s) \<and>
      (lr_opencode_binary lr = None \<longleftrightarrow> lr_opencode_sha256 lr = None) \<and>
      (\<forall>b \<in> set (lr_agent_binaries lr). agent_binary_ok b) \<and>
      (\<forall>r \<in> set (cfg_routes c). route_ok c r) \<and>
      0 < unat (dc_max_inline_output_bytes (cfg_daemon c)) \<and>
      (\<forall>m \<in> set (lr_credential_files lr). safe_relative (cf_sandbox_path m) \<and>
         (\<exists>s. config_source c (cf_source_id m) = Some s)) \<and>
      (\<forall>b \<in> set (lr_source_bindings lr). (\<exists>s. config_source c (sb_source_id b) = Some s) \<and>
         distinct (sb_inherit_proxy_environment b) \<and>
         (\<forall>name \<in> set (sb_inherit_proxy_environment b). is_allowed_proxy_environment name)))"

section \<open>Validation decides \<open>config_ok\<close>\<close>

lemma ensure_unique_from_iff:
  "(ensure_unique_from label vals items = Inr u) \<longleftrightarrow>
     distinct items \<and> [] \<notin> set items \<and> set items \<inter> set vals = {}"
  by (induction items arbitrary: vals) auto

lemma ensure_unique_iff [result_simps]: "(ensure_unique items label = Inr u) \<longleftrightarrow> unique_ids items"
  by (simp add: ensure_unique_def ensure_unique_from_iff unique_ids_def)

lemma ensure_unique_versions_from_iff:
  "(ensure_unique_versions_from label vals items = Inr u) \<longleftrightarrow>
     distinct items \<and> (\<forall>(i, v) \<in> set items. i \<noteq> [] \<and> v \<noteq> []) \<and> set items \<inter> set vals = {}"
  by (induction label vals items rule: ensure_unique_versions_from.induct) auto

lemma ensure_unique_resource_versions_iff [result_simps]:
  "(ensure_unique_resource_versions items label = Inr u) \<longleftrightarrow>
     distinct items \<and> (\<forall>(i, v) \<in> set items. i \<noteq> [] \<and> v \<noteq> [])"
  by (simp add: ensure_unique_resource_versions_def ensure_unique_versions_from_iff)

lemma find_Some_ex: "(\<exists>x. find P xs = Some x) \<longleftrightarrow> (\<exists>x \<in> set xs. P x)"
  by (induction xs) auto

definition max_by_step :: "('a \<Rightarrow> 'k::linorder) \<Rightarrow> 'a option \<Rightarrow> 'a \<Rightarrow> 'a option" where
  "max_by_step key acc x = (case acc of None \<Rightarrow> Some x
     | Some a \<Rightarrow> if key x < key a then Some a else Some x)"

lemma max_by_last_foldl: "max_by_last key xs = foldl (max_by_step key) None xs"
  by (simp add: max_by_last_def max_by_step_def [abs_def])

lemma max_by_foldl_Some:
  "\<exists>y. foldl (max_by_step key) (Some a) xs = Some y \<and> y \<in> insert a (set xs) \<and>
     (\<forall>x \<in> insert a (set xs). key x \<le> key y)"
proof (induction xs arbitrary: a)
  case Nil
  then show ?case by simp
next
  case (Cons x xs)
  define b where "b = (if key x < key a then a else x)"
  have step: "max_by_step key (Some a) x = Some b"
    by (simp add: max_by_step_def b_def)
  from Cons.IH [of b] obtain y where
    "foldl (max_by_step key) (Some b) xs = Some y" "y \<in> insert b (set xs)"
    "\<forall>x \<in> insert b (set xs). key x \<le> key y" by blast
  moreover have "key a \<le> key b" "key x \<le> key b" "b \<in> {a, x}"
    by (auto simp: b_def)
  ultimately show ?case using step by (auto intro: order_trans)
qed

lemma max_by_last_None_iff: "(max_by_last key xs = None) \<longleftrightarrow> xs = []"
proof (cases xs)
  case Nil
  then show ?thesis by (simp add: max_by_last_foldl)
next
  case (Cons x ys)
  then show ?thesis
    using max_by_foldl_Some [of key x ys] by (auto simp: max_by_last_foldl max_by_step_def)
qed

lemma max_by_last_SomeD:
  assumes "max_by_last key xs = Some y"
  shows "y \<in> set xs \<and> (\<forall>x \<in> set xs. key x \<le> key y)"
proof (cases xs)
  case Nil
  with assms show ?thesis by (simp add: max_by_last_foldl)
next
  case (Cons x ys)
  with assms show ?thesis
    using max_by_foldl_Some [of key x ys] by (auto simp: max_by_last_foldl max_by_step_def)
qed

lemma max_by_last_ex: "(\<exists>y. max_by_last key xs = Some y) \<longleftrightarrow> xs \<noteq> []"
  using max_by_last_None_iff [of key xs] by (cases "max_by_last key xs") auto

lemma config_profile_SomeD:
  "config_profile c i v = Some p \<Longrightarrow>
     p \<in> set (cfg_profiles c) \<and> pr_id p = i \<and> version_matches v (pr_version p) \<and>
     (\<forall>q \<in> set (cfg_profiles c). pr_id q = i \<and> version_matches v (pr_version q) \<longrightarrow>
        pr_version q \<le> pr_version p)"
  by (auto simp: config_profile_def dest!: max_by_last_SomeD)

lemma config_profile_ex:
  "(\<exists>p. config_profile c i v = Some p) \<longleftrightarrow>
     (\<exists>p \<in> set (cfg_profiles c). pr_id p = i \<and> version_matches v (pr_version p))"
  unfolding config_profile_def max_by_last_ex by (auto simp: filter_empty_conv)

lemma config_policy_SomeD:
  "config_policy c i v = Some p \<Longrightarrow>
     p \<in> set (cfg_policies c) \<and> po_id p = i \<and> version_matches v (po_version p) \<and>
     (\<forall>q \<in> set (cfg_policies c). po_id q = i \<and> version_matches v (po_version q) \<longrightarrow>
        po_version q \<le> po_version p)"
  by (auto simp: config_policy_def dest!: max_by_last_SomeD)

lemma config_policy_ex:
  "(\<exists>p. config_policy c i v = Some p) \<longleftrightarrow>
     (\<exists>p \<in> set (cfg_policies c). po_id p = i \<and> version_matches v (po_version p))"
  unfolding config_policy_def max_by_last_ex by (auto simp: filter_empty_conv)

lemma version_matches_None [simp]: "version_matches None v"
  by (simp add: version_matches_def)

lemma config_source_ex: "(\<exists>s. config_source c i = Some s) \<longleftrightarrow> i \<in> set (map so_id (cfg_sources c))"
  by (auto simp: config_source_def find_Some_ex)

lemma config_route_ex:
  "(\<exists>r. config_route c i = Some r) \<longleftrightarrow> (\<exists>r \<in> set (cfg_routes c). ro_id r = i)"
  by (auto simp: config_route_def find_Some_ex)

lemma word_zero_iff: "(w = 0) \<longleftrightarrow> \<not> 0 < unat w"
  by (simp add: unat_eq_zero)

lemma validate_source_iff: "(validate_source s = Inr u) \<longleftrightarrow> source_ok s"
  by (cases "so_monitor s")
    (auto simp: validate_source_def source_ok_def result_simps unat_gt_0 word_le_nat_alt not_less)

lemma validate_agent_binary_iff: "(validate_agent_binary b = Inr u) \<longleftrightarrow> agent_binary_ok b"
  by (cases "ab_agent_process_binary b"; cases "ab_agent_process_sha256 b")
    (auto simp: validate_agent_binary_def agent_binary_ok_def result_simps supported_adapter_def)

lemma validate_route_iff:
  "(validate_route c (map so_id (cfg_sources c)) r = Inr u) \<longleftrightarrow> route_ok c r"
  by (auto simp: validate_route_def route_ok_def result_simps supported_adapter_def list_ex_iff
      config_source_ex)

lemma validate_credential_iff:
  "(validate_credential (map so_id (cfg_sources c)) m = Inr u) \<longleftrightarrow>
     safe_relative (cf_sandbox_path m) \<and> (\<exists>s. config_source c (cf_source_id m) = Some s)"
  by (auto simp: validate_credential_def validate_relative_sandbox_path_def safe_relative_def
      result_simps config_source_ex)

lemma allowed_names_nonempty: "is_allowed_proxy_environment name \<Longrightarrow> name \<noteq> []"
proof
  assume "is_allowed_proxy_environment name" and "name = []"
  then show False by (simp add: is_allowed_proxy_environment_def)
qed

lemma validate_binding_iff:
  "(validate_binding (map so_id (cfg_sources c)) b = Inr u) \<longleftrightarrow>
     (\<exists>s. config_source c (sb_source_id b) = Some s) \<and>
     distinct (sb_inherit_proxy_environment b) \<and>
     (\<forall>name \<in> set (sb_inherit_proxy_environment b). is_allowed_proxy_environment name)"
  by (auto simp: validate_binding_def result_simps config_source_ex unique_ids_def
      dest: allowed_names_nonempty)

lemma ball_set_pairs:
  "(\<forall>(i, v) \<in> set (map (\<lambda>p. (f p, g p)) xs). P i v) \<longleftrightarrow> (\<forall>p \<in> set xs. P (f p) (g p))"
  by auto

lemma validate_config_ok_iff: "(validate_config c = Inr ()) \<longleftrightarrow> config_ok c"
  unfolding validate_config_def config_ok_def Let_def
  by (simp only: result_simps validate_source_iff validate_agent_binary_iff validate_route_iff
      validate_credential_iff validate_binding_iff config_profile_ex config_policy_ex
      config_route_ex version_matches_None list_ex_iff unat_gt_0 simp_thms ex_simps
      ball_set_pairs ball_conj_distrib bex_disj_distrib de_Morgan_disj ball_simps bex_simps)
    (rule iffI; elim conjE; intro conjI; assumption)

end
