(* ===== verification/Store.thy ===== *)
theory Store
  imports Protocol Config
begin

text \<open>
  \<open>crates/service/src/store.rs\<close> over the schema of \<open>crates/service/migrations\<close>: one
  record per table row, one definition per method of \<open>Store\<close>, every SQL statement written
  out on the list of rows.

  \<^item> Columns that hold JSON text hold the decoded value here; \<open>TEXT\<close> state columns hold
    the string the code writes, so \<open>state_name\<close> and the parsers are part of the model;
    timestamps are instants; \<open>INTEGER\<close> columns are integers, read back through \<open>try_from\<close>.
  \<^item> What the environment supplies is an argument: \<open>Utc::now()\<close>, fresh ULIDs, and a
    \<open>stamp\<close> (event ULID and time) for each event an operation appends.
  \<^item> A \<open>_tx\<close> definition is the body of a transaction in the error monad; \<open>transact\<close>
    runs it and keeps the old state on an error (a dropped transaction rolls back).
  \<^item> \<open>bus\<close> is what was sent on the broadcast channel. Commit and send are one step here; in the code
    the send follows the commit, so that the events of two concurrent tasks may be sent in the other
    order (a reader of the stream recovers from the log, \<open>Sse\<close>).
  \<^item> Constraint violations of the schema are errors; failures of the database itself
    (I/O, a full disk) are not modelled.
\<close>

section \<open>Rows and records\<close>

datatype store_error =
    NotFound | IdempotencyConflict | RevisionConflict | NotQueued
  | WorkspaceBusy | InvalidScheduling | Internal string

record submission_row =
  s_submission_id :: string
  s_client_id :: string
  s_idempotency_key :: string
  s_request_digest :: string
  s_request :: submission_create
  s_resolved_profile :: resource_ref
  s_resolved_policy :: resource_ref
  s_state :: string
  s_revision :: int
  s_mode :: string
  s_priority :: int
  s_not_before :: "time option"
  s_start_deadline :: "time option"
  s_blocker_code :: "string option"
  s_blocker_detail :: "string option"
  s_cancel_requested :: bool
  s_workspace_key :: "string option"
  s_workspace_access :: "string option"
  s_result_text :: "string option"
  s_result_truncated :: bool
  s_error :: "error_detail option"
  s_latest_event_sequence :: int
  s_created_at :: time
  s_updated_at :: time
  s_finished_at :: "time option"
  s_profile_config :: "profile_config option"
  s_policy_config :: "policy_config option"
  s_routes :: "route_config list option"

record attempt_row =
  a_attempt_id :: string
  a_submission_id :: string
  a_number :: int
  a_state :: string
  a_route_id :: string
  a_adapter :: string
  a_model :: string
  a_target_id :: string
  a_source_id :: string
  a_source_label :: string
  a_sandbox_profile :: string
  a_runtime :: runtime_ref
  a_agent_version :: "string option"
  a_started_at :: "time option"
  a_finished_at :: "time option"
  a_usage :: "usage_summary option"
  a_error :: "error_detail option"
  a_capacity_held :: bool

record event_row =
  e_event_id :: string
  e_submission_id :: string
  e_attempt_id :: "string option"
  e_sequence :: int
  e_occurred_at :: time
  e_event_type :: string
  e_data :: json

record capacity_row =
  c_source_id :: string
  c_health :: string
  c_usage_kind :: "string option"
  c_in_use :: "int option"
  c_observed_at :: "time option"
  c_received_at :: time

record store =
  submissions :: "submission_row list"
  attempts :: "attempt_row list"
  events :: "event_row list"
  capacity_observations :: "capacity_row list"
  bus :: "event_envelope list"

definition empty_store :: store where
  "empty_store = \<lparr>submissions = [], attempts = [], events = [],
     capacity_observations = [], bus = []\<rparr>"

record accepted_record =
  ar_response :: submission_accepted
  ar_replay :: bool

record queued_submission =
  q_submission_id :: string
  q_request :: submission_create
  q_priority :: u8
  q_created_at :: time
  q_not_before :: "time option"
  q_start_deadline :: "time option"
  q_workspace_key :: "string option"
  q_workspace_access :: "string option"
  q_profile :: profile_config
  q_policy :: policy_config
  q_routes :: "route_config list"

record claim_spec =
  cl_submission_id :: string
  cl_attempt_id :: string
  cl_route_id :: string
  cl_adapter :: string
  cl_model :: string
  cl_target_id :: string
  cl_source_id :: string
  cl_source_label :: string
  cl_sandbox_profile :: string
  cl_runtime :: runtime_ref

record accept_spec =
  acc_client_id :: string
  acc_idempotency_key :: string
  acc_request :: submission_create
  acc_request_digest :: string
  acc_profile :: resource_ref
  acc_policy :: resource_ref
  acc_workspace_key :: "string option"
  acc_workspace_access :: "string option"
  acc_profile_config :: profile_config
  acc_policy_config :: policy_config
  acc_routes :: "route_config list"

record finish_spec =
  fin_submission_id :: string
  fin_attempt_id :: string
  fin_state :: submission_state
  fin_output :: "string option"
  fin_truncated :: bool
  fin_error :: "error_detail option"
  fin_agent_version :: "string option"

type_synonym stamp = "string \<times> time"

section \<open>State names and conversions\<close>

definition state_name :: "submission_state \<Rightarrow> string" where
  "state_name state = (case state of
       Queued \<Rightarrow> ''queued'' | Running \<Rightarrow> ''running'' | Completed \<Rightarrow> ''completed''
     | Failed \<Rightarrow> ''failed'' | Cancelled \<Rightarrow> ''cancelled'' | Expired \<Rightarrow> ''expired''
     | Uncertain \<Rightarrow> ''uncertain'')"

definition parse_submission_state :: "string \<Rightarrow> store_error + submission_state" where
  "parse_submission_state value =
     (if value = ''queued'' then Inr Queued
      else if value = ''running'' then Inr Running
      else if value = ''completed'' then Inr Completed
      else if value = ''failed'' then Inr Failed
      else if value = ''cancelled'' then Inr Cancelled
      else if value = ''expired'' then Inr Expired
      else if value = ''uncertain'' then Inr Uncertain
      else Inl (Internal (''invalid persisted submission state '' @ value)))"

definition parse_attempt_state :: "string \<Rightarrow> store_error + attempt_state" where
  "parse_attempt_state value =
     (if value = ''starting'' then Inr AttemptStarting
      else if value = ''running'' then Inr AttemptRunning
      else if value = ''completed'' then Inr AttemptCompleted
      else if value = ''failed'' then Inr AttemptFailed
      else if value = ''cancelled'' then Inr AttemptCancelled
      else if value = ''uncertain'' then Inr AttemptUncertain
      else Inl (Internal (''invalid persisted attempt state '' @ value)))"

definition to_u64 :: "int \<Rightarrow> store_error + u64" where
  "to_u64 value = ok_or (Internal ''integer out of range'') (try_from_int value)"

definition parse_time_required :: "time option \<Rightarrow> store_error + time" where
  "parse_time_required value = ok_or (Internal ''missing persisted timestamp'') value"

definition transact :: "(store \<Rightarrow> store_error + (store \<times> 'a)) \<Rightarrow> store \<Rightarrow> store \<times> (store_error + 'a)" where
  "transact body s = (case body s of Inl e \<Rightarrow> (s, Inl e) | Inr (s', x) \<Rightarrow> (s', Inr x))"

definition send_events :: "event_envelope list \<Rightarrow> store \<Rightarrow> store" where
  "send_events evs s = s\<lparr>bus := bus s @ evs\<rparr>"

definition accepted_response ::
  "string \<Rightarrow> u64 \<Rightarrow> string \<Rightarrow> resource_ref \<Rightarrow> resource_ref \<Rightarrow> bool \<Rightarrow> submission_accepted" where
  "accepted_response submission_id revision request_digest profile policy replay =
     \<lparr>sa_submission_id = submission_id, sa_state = Queued, sa_terminal = False,
      sa_revision = revision, sa_request_digest = request_digest,
      sa_resolved_profile = profile, sa_resolved_policy = policy,
      sa_status_url = ''/v1/submissions/'' @ submission_id,
      sa_events_url = ''/v1/submissions/'' @ submission_id @ ''/events'',
      sa_result_url = ''/v1/submissions/'' @ submission_id @ ''/result'',
      sa_idempotent_replay = replay\<rparr>"

section \<open>Events\<close>

definition bump_sequence :: "submission_row \<Rightarrow> submission_row" where
  "bump_sequence r = r\<lparr>s_latest_event_sequence := s_latest_event_sequence r + 1\<rparr>"

definition event_row_of :: "event_envelope \<Rightarrow> event_row" where
  "event_row_of ev = \<lparr>e_event_id = ev_event_id ev, e_submission_id = ev_submission_id ev,
     e_attempt_id = ev_attempt_id ev, e_sequence = uint (ev_sequence ev),
     e_occurred_at = ev_occurred_at ev, e_event_type = ev_event_type ev, e_data = ev_data ev\<rparr>"

definition append_event_tx ::
  "stamp \<Rightarrow> string \<Rightarrow> string option \<Rightarrow> string \<Rightarrow> json \<Rightarrow> store \<Rightarrow>
     store_error + (store \<times> event_envelope)" where
  "append_event_tx st submission_id attempt_id event_type data s =
     (let subs = update_where (\<lambda>r. s_submission_id r = submission_id) bump_sequence (submissions s) in
      try_bind (ok_or (Internal ''no row returned'')
        (fetch_optional (\<lambda>r. s_submission_id r = submission_id) subs)) (\<lambda>r.
      try_bind (to_u64 (s_latest_event_sequence r)) (\<lambda>sequence.
      let ev = \<lparr>ev_event_id = ''evt_'' @ fst st, ev_submission_id = submission_id,
            ev_session_id = None, ev_attempt_id = attempt_id, ev_sequence = sequence,
            ev_occurred_at = snd st, ev_event_type = event_type, ev_data = data\<rparr>
      in if \<not> uint sequence < 2 ^ 63 then Inl (Internal ''integer out of range'')
         else if list_ex (\<lambda>e. e_event_id e = ev_event_id ev \<or>
             (e_submission_id e = submission_id \<and> e_sequence e = uint sequence)) (events s)
         then Inl (Internal ''UNIQUE constraint failed'')
         else Inr (s\<lparr>submissions := subs, events := events s @ [event_row_of ev]\<rparr>, ev))))"

definition decode_event :: "event_row \<Rightarrow> store_error + event_envelope" where
  "decode_event row =
     try_bind (to_u64 (e_sequence row)) (\<lambda>sequence.
     Inr \<lparr>ev_event_id = e_event_id row, ev_submission_id = e_submission_id row,
       ev_session_id = None, ev_attempt_id = e_attempt_id row, ev_sequence = sequence,
       ev_occurred_at = e_occurred_at row, ev_event_type = e_event_type row,
       ev_data = e_data row\<rparr>)"

definition events_after :: "string \<Rightarrow> u64 \<Rightarrow> store \<Rightarrow> store_error + event_envelope list" where
  "events_after submission_id after s =
     (if count_where (\<lambda>r. s_submission_id r = submission_id) (submissions s) = 0
      then Inl NotFound
      else if \<not> uint after < 2 ^ 63 then Inl (Internal ''integer out of range'')
      else traverse decode_event
        (sort_key e_sequence
          (filter (\<lambda>e. e_submission_id e = submission_id \<and> uint after < e_sequence e) (events s))))"

section \<open>Reading\<close>

definition decode_attempt :: "attempt_row \<Rightarrow> store_error + attempt" where
  "decode_attempt row =
     try_bind (ok_or (Internal ''integer out of range'') (try_from_int (a_number row))) (\<lambda>number.
     try_bind (parse_attempt_state (a_state row)) (\<lambda>state.
     Inr \<lparr>at_attempt_id = a_attempt_id row, at_number = number, at_state = state,
       at_route_id = a_route_id row, at_adapter = a_adapter row, at_model = a_model row,
       at_target_id = a_target_id row, at_source_label = a_source_label row,
       at_sandbox_profile = a_sandbox_profile row, at_runtime = a_runtime row,
       at_agent_version = a_agent_version row, at_session_id = None,
       at_started_at = a_started_at row, at_finished_at = a_finished_at row,
       at_usage = a_usage row, at_error = a_error row\<rparr>))"

definition attempts_of :: "string \<Rightarrow> store \<Rightarrow> store_error + attempt list" where
  "attempts_of submission_id s =
     traverse decode_attempt
       (sort_key a_number (filter (\<lambda>a. a_submission_id a = submission_id) (attempts s)))"

definition attempt_of :: "string \<Rightarrow> store \<Rightarrow> store_error + attempt" where
  "attempt_of attempt_id s =
     try_bind (ok_or NotFound (fetch_optional (\<lambda>a. a_attempt_id a = attempt_id) (attempts s)))
       decode_attempt"

definition decode_status :: "submission_row \<Rightarrow> attempt list \<Rightarrow> store_error + submission_status" where
  "decode_status row atts =
     try_bind (parse_submission_state (s_state row)) (\<lambda>state.
     try_bind (to_u64 (s_revision row)) (\<lambda>revision.
     try_bind (to_u64 (s_latest_event_sequence row)) (\<lambda>latest.
     Inr \<lparr>st_submission_id = s_submission_id row,
       st_client_reference = sc_client_reference (s_request row),
       st_request_digest = s_request_digest row,
       st_resolved_profile = s_resolved_profile row, st_resolved_policy = s_resolved_policy row,
       st_state = state, st_terminal = terminal state, st_revision = revision,
       st_mode = s_mode row, st_created_at = s_created_at row, st_updated_at = s_updated_at row,
       st_blocker = map_option (\<lambda>code. \<lparr>bl_code = code, bl_retry_after = None,
         bl_detail = s_blocker_detail row\<rparr>) (s_blocker_code row),
       st_session_id = None, st_attempts = atts, st_latest_event_sequence = latest,
       st_error = s_error row\<rparr>)))"

definition fetch_submission :: "string \<Rightarrow> store \<Rightarrow> submission_row option" where
  "fetch_submission submission_id s =
     fetch_optional (\<lambda>r. s_submission_id r = submission_id) (submissions s)"

definition status :: "string \<Rightarrow> store \<Rightarrow> store_error + submission_status" where
  "status submission_id s =
     try_bind (ok_or NotFound (fetch_submission submission_id s)) (\<lambda>row.
     try_bind (attempts_of submission_id s) (\<lambda>atts. decode_status row atts))"

definition list_statuses :: "u32 \<Rightarrow> store \<Rightarrow> store_error + submission_status list" where
  "list_statuses limit s =
     traverse (\<lambda>r. status (s_submission_id r) s)
       (take (unat limit) (sort_key (\<lambda>r. - s_created_at r) (submissions s)))"

definition request_of :: "string \<Rightarrow> store \<Rightarrow> store_error + submission_create" where
  "request_of submission_id s =
     try_bind (ok_or NotFound (fetch_submission submission_id s)) (\<lambda>row. Inr (s_request row))"

definition decode_queued :: "submission_row \<Rightarrow> store_error + queued_submission" where
  "decode_queued row =
     try_bind (ok_or (Internal ''integer out of range'') (try_from_int (s_priority row))) (\<lambda>priority.
     try_bind (ok_or (Internal ''unexpected null'') (s_profile_config row)) (\<lambda>profile.
     try_bind (ok_or (Internal ''unexpected null'') (s_policy_config row)) (\<lambda>policy.
     try_bind (ok_or (Internal ''unexpected null'') (s_routes row)) (\<lambda>routes.
     Inr \<lparr>q_submission_id = s_submission_id row, q_request = s_request row,
       q_priority = priority, q_created_at = s_created_at row,
       q_not_before = s_not_before row, q_start_deadline = s_start_deadline row,
       q_workspace_key = s_workspace_key row, q_workspace_access = s_workspace_access row,
       q_profile = profile, q_policy = policy, q_routes = routes\<rparr>))))"

definition queued :: "store \<Rightarrow> store_error + queued_submission list" where
  "queued s =
     traverse decode_queued
       (sort_key (\<lambda>r. (- s_priority r, s_created_at r))
         (filter (\<lambda>r. s_state r = ''queued'') (submissions s)))"

definition active_for_source :: "string \<Rightarrow> store \<Rightarrow> store_error + u32" where
  "active_for_source source_id s =
     ok_or (Internal ''integer out of range'')
       (try_from_int (int (count_where (\<lambda>a. a_source_id a = source_id \<and> a_capacity_held a)
          (attempts s))))"

definition cancellation_requested :: "string \<Rightarrow> store \<Rightarrow> store_error + bool" where
  "cancellation_requested submission_id s =
     try_bind (ok_or NotFound (fetch_submission submission_id s)) (\<lambda>row.
     Inr (s_cancel_requested row))"

definition result_of :: "string \<Rightarrow> store \<Rightarrow> store_error + submission_result" where
  "result_of submission_id s =
     try_bind (status submission_id s) (\<lambda>st.
     if \<not> st_terminal st then Inl NotQueued
     else try_bind (ok_or (Internal ''no row returned'') (fetch_submission submission_id s)) (\<lambda>row.
     try_bind (parse_time_required (s_finished_at row)) (\<lambda>finished_at.
     Inr \<lparr>sr_submission_id = submission_id, sr_state = st_state st, sr_terminal = True,
       sr_output = map_option (\<lambda>text. OutputText text (s_result_truncated row)) (s_result_text row),
       sr_artifacts = [], sr_attempts = st_attempts st, sr_usage = None,
       sr_error = st_error st, sr_finished_at = finished_at\<rparr>)))"

end
