(* ===== verification/StoreOps.thy ===== *)
theory StoreOps
  imports Store
begin

text \<open>
  The methods of \<open>Store\<close> (\<open>crates/service/src/store.rs\<close>) that write. Each is the
  transaction body in the error monad and the method itself, which runs the body with
  \<open>transact\<close> and sends the committed events on the bus. The status that \<open>patch_scheduling\<close> returns
  is read after its commit; here it belongs to the same step.
\<close>

text \<open>\<open>state IN ('starting', 'running')\<close> and \<open>state IN ('running', 'uncertain')\<close>.\<close>

definition active_attempt :: "attempt_row \<Rightarrow> bool" where
  "active_attempt a \<longleftrightarrow> a_state a = ''starting'' \<or> a_state a = ''running''"

definition occupying :: "submission_row \<Rightarrow> bool" where
  "occupying r \<longleftrightarrow> s_state r = ''running'' \<or> s_state r = ''uncertain''"

section \<open>Accepting a Submission\<close>

definition idempotent_replay ::
  "string \<Rightarrow> string \<Rightarrow> string \<Rightarrow> store \<Rightarrow> store_error + submission_accepted option" where
  "idempotent_replay client_id idempotency_key request_digest s =
     (case fetch_optional (\<lambda>r. s_client_id r = client_id \<and> s_idempotency_key r = idempotency_key)
        (submissions s) of
        None \<Rightarrow> Inr None
      | Some row \<Rightarrow>
          if s_request_digest row \<noteq> request_digest then Inl IdempotencyConflict
          else Inr (Some (accepted_response (s_submission_id row) 1 request_digest
            (s_resolved_profile row) (s_resolved_policy row) True)))"

definition new_submission :: "string \<Rightarrow> time \<Rightarrow> accept_spec \<Rightarrow> submission_row" where
  "new_submission submission_id now spec =
     (let sched = sc_scheduling (acc_request spec);
          priority = (case Option.bind sched sch_priority of None \<Rightarrow> 50 | Some p \<Rightarrow> p) in
      \<lparr>s_submission_id = submission_id, s_client_id = acc_client_id spec,
       s_idempotency_key = acc_idempotency_key spec,
       s_request_digest = acc_request_digest spec, s_request = acc_request spec,
       s_resolved_profile = acc_profile spec, s_resolved_policy = acc_policy spec,
       s_state = ''queued'', s_revision = 1, s_mode = mode_name (sc_mode (acc_request spec)),
       s_priority = uint priority,
       s_not_before = Option.bind sched sch_not_before,
       s_start_deadline = Option.bind sched sch_start_deadline,
       s_blocker_code = None, s_blocker_detail = None, s_cancel_requested = False,
       s_workspace_key = acc_workspace_key spec, s_workspace_access = acc_workspace_access spec,
       s_result_text = None, s_result_truncated = False, s_error = None,
       s_latest_event_sequence = 0, s_created_at = now, s_updated_at = now,
       s_finished_at = None, s_profile_config = Some (acc_profile_config spec),
       s_policy_config = Some (acc_policy_config spec), s_routes = Some (acc_routes spec)\<rparr>)"

definition accept_tx ::
  "string \<Rightarrow> time \<Rightarrow> stamp \<Rightarrow> accept_spec \<Rightarrow> store \<Rightarrow> store_error + (store \<times> accepted_record)" where
  "accept_tx ulid now st spec s =
     (case fetch_optional (\<lambda>r. s_client_id r = acc_client_id spec \<and>
           s_idempotency_key r = acc_idempotency_key spec) (submissions s) of
        Some row \<Rightarrow>
          if s_request_digest row \<noteq> acc_request_digest spec then Inl IdempotencyConflict
          else Inr (s, \<lparr>ar_response = accepted_response (s_submission_id row) 1
              (acc_request_digest spec) (s_resolved_profile row) (s_resolved_policy row) True,
            ar_replay = True\<rparr>)
      | None \<Rightarrow>
          let submission_id = ''sub_'' @ ulid in
          if list_ex (\<lambda>r. s_submission_id r = submission_id) (submissions s)
          then Inl (Internal ''UNIQUE constraint failed'')
          else try_bind (append_event_tx st submission_id None ''submission.created''
              (JObject [(''state'', JString ''queued'')])
              (s\<lparr>submissions := submissions s @ [new_submission submission_id now spec]\<rparr>))
            (\<lambda>(s1, ev). Inr (send_events [ev] s1,
              \<lparr>ar_response = accepted_response submission_id 1 (acc_request_digest spec)
                 (acc_profile spec) (acc_policy spec) False,
               ar_replay = False\<rparr>)))"

definition accept ::
  "string \<Rightarrow> time \<Rightarrow> stamp \<Rightarrow> accept_spec \<Rightarrow> store \<Rightarrow> store \<times> (store_error + accepted_record)" where
  "accept ulid now st spec = transact (accept_tx ulid now st spec)"

section \<open>Claiming an attempt\<close>

text \<open>
  The busy query: another Submission on the same canonical workspace that runs or is
  uncertain, where one of the two writes. Comparing \<open>NULL\<close> is never true.
\<close>

definition workspace_conflict :: "string \<Rightarrow> string \<Rightarrow> string option \<Rightarrow> submission_row \<Rightarrow> bool" where
  "workspace_conflict key submission_id access r \<longleftrightarrow>
     s_workspace_key r = Some key \<and> occupying r \<and>
     s_submission_id r \<noteq> submission_id \<and>
     (s_workspace_access r = Some ''writable'' \<or> access = Some ''writable'')"

definition workspace_busy :: "string \<Rightarrow> submission_row \<Rightarrow> store \<Rightarrow> bool" where
  "workspace_busy submission_id row s \<longleftrightarrow>
     (case s_workspace_key row of
        None \<Rightarrow> False
      | Some key \<Rightarrow> 0 < count_where
          (workspace_conflict key submission_id (s_workspace_access row)) (submissions s))"

text \<open>\<open>SELECT COALESCE(MAX(number), 0) + 1\<close>\<close>

definition next_number :: "string \<Rightarrow> store \<Rightarrow> int" where
  "next_number submission_id s =
     (case map a_number (filter (\<lambda>a. a_submission_id a = submission_id) (attempts s)) of
        [] \<Rightarrow> 0 | n # ns \<Rightarrow> foldl max n ns) + 1"

definition new_attempt :: "time \<Rightarrow> int \<Rightarrow> claim_spec \<Rightarrow> attempt_row" where
  "new_attempt now number spec =
     \<lparr>a_attempt_id = cl_attempt_id spec, a_submission_id = cl_submission_id spec,
      a_number = number, a_state = ''starting'', a_route_id = cl_route_id spec,
      a_adapter = cl_adapter spec, a_model = cl_model spec, a_target_id = cl_target_id spec,
      a_source_id = cl_source_id spec, a_source_label = cl_source_label spec,
      a_sandbox_profile = cl_sandbox_profile spec, a_runtime = cl_runtime spec,
      a_agent_version = None, a_started_at = Some now, a_finished_at = None,
      a_usage = None, a_error = None, a_capacity_held = True\<rparr>"

definition start_running :: "time \<Rightarrow> submission_row \<Rightarrow> submission_row" where
  "start_running now r = r\<lparr>s_state := ''running'', s_blocker_code := None,
     s_blocker_detail := None, s_revision := s_revision r + 1, s_updated_at := now\<rparr>"

definition claim_tx ::
  "time \<Rightarrow> stamp \<Rightarrow> stamp \<Rightarrow> claim_spec \<Rightarrow> store \<Rightarrow> store_error + (store \<times> unit)" where
  "claim_tx now st1 st2 spec s =
     try_bind (ok_or NotFound (fetch_submission (cl_submission_id spec) s)) (\<lambda>row.
     if s_state row \<noteq> ''queued'' then Inl NotQueued
     else if workspace_busy (cl_submission_id spec) row s then Inl WorkspaceBusy
     else
       let number = next_number (cl_submission_id spec) s in
       if list_ex (\<lambda>a. a_attempt_id a = cl_attempt_id spec \<or>
           (a_submission_id a = cl_submission_id spec \<and> a_number a = number)) (attempts s)
       then Inl (Internal ''UNIQUE constraint failed'')
       else if count_where (\<lambda>r. s_submission_id r = cl_submission_id spec \<and> s_state r = ''queued'')
           (submissions s) \<noteq> 1 then Inl NotQueued
       else try_bind (append_event_tx st1 (cl_submission_id spec) (Some (cl_attempt_id spec))
           ''attempt.created''
           (JObject [(''attempt_id'', JString (cl_attempt_id spec)), (''state'', JString ''starting'')])
           (s\<lparr>attempts := attempts s @ [new_attempt now number spec],
              submissions := update_where
                (\<lambda>r. s_submission_id r = cl_submission_id spec \<and> s_state r = ''queued'')
                (start_running now) (submissions s)\<rparr>))
         (\<lambda>(s1, event).
       try_bind (append_event_tx st2 (cl_submission_id spec) (Some (cl_attempt_id spec))
           ''submission.state_changed''
           (JObject [(''from'', JString ''queued''), (''to'', JString ''running'')]) s1)
         (\<lambda>(s2, state_event). Inr (send_events [event, state_event] s2, ()))))"

definition claim ::
  "time \<Rightarrow> stamp \<Rightarrow> stamp \<Rightarrow> claim_spec \<Rightarrow> store \<Rightarrow> store \<times> (store_error + attempt)" where
  "claim now st1 st2 spec s =
     (case transact (claim_tx now st1 st2 spec) s of
        (s', Inl e) \<Rightarrow> (s', Inl e)
      | (s', Inr _) \<Rightarrow> (s', attempt_of (cl_attempt_id spec) s'))"

section \<open>Running attempts\<close>

definition mark_attempt_running_tx ::
  "stamp \<Rightarrow> string \<Rightarrow> string \<Rightarrow> string option \<Rightarrow> store \<Rightarrow> store_error + (store \<times> unit)" where
  "mark_attempt_running_tx st submission_id attempt_id agent_version s =
     (let p = (\<lambda>a. a_attempt_id a = attempt_id \<and> a_submission_id a = submission_id \<and>
            a_state a = ''starting'') in
      if count_where p (attempts s) = 0 then Inr (s, ())
      else try_bind (append_event_tx st submission_id (Some attempt_id) ''attempt.state_changed''
          (JObject [(''from'', JString ''starting''), (''to'', JString ''running'')])
          (s\<lparr>attempts := update_where p
             (\<lambda>a. a\<lparr>a_state := ''running'', a_agent_version := agent_version\<rparr>) (attempts s)\<rparr>))
        (\<lambda>(s1, event). Inr (send_events [event] s1, ())))"

definition mark_attempt_running ::
  "stamp \<Rightarrow> string \<Rightarrow> string \<Rightarrow> string option \<Rightarrow> store \<Rightarrow> store \<times> (store_error + unit)" where
  "mark_attempt_running st submission_id attempt_id agent_version =
     transact (mark_attempt_running_tx st submission_id attempt_id agent_version)"

definition append_agent_event ::
  "stamp \<Rightarrow> string \<Rightarrow> string \<Rightarrow> string \<Rightarrow> json \<Rightarrow> store \<Rightarrow> store \<times> (store_error + unit)" where
  "append_agent_event st submission_id attempt_id event_type data =
     transact (\<lambda>s. try_bind (append_event_tx st submission_id (Some attempt_id) event_type data s)
       (\<lambda>(s1, event). Inr (send_events [event] s1, ())))"

text \<open>The attempt state a finishing outcome maps to; any other outcome is an error.\<close>

fun finish_attempt_state :: "submission_state \<Rightarrow> string option" where
  "finish_attempt_state Completed = Some ''completed''"
| "finish_attempt_state Cancelled = Some ''cancelled''"
| "finish_attempt_state Uncertain = Some ''uncertain''"
| "finish_attempt_state Failed = Some ''failed''"
| "finish_attempt_state _ = None"

definition finish_submission :: "time \<Rightarrow> finish_spec \<Rightarrow> submission_row \<Rightarrow> submission_row" where
  "finish_submission now spec r = r\<lparr>s_state := state_name (fin_state spec),
     s_revision := s_revision r + 1, s_result_text := fin_output spec,
     s_result_truncated := fin_truncated spec, s_error := fin_error spec,
     s_updated_at := now, s_finished_at := Some now\<rparr>"

definition finish_attempt :: "time \<Rightarrow> string \<Rightarrow> finish_spec \<Rightarrow> attempt_row \<Rightarrow> attempt_row" where
  "finish_attempt now attempt_state spec a = a\<lparr>a_state := attempt_state,
     a_finished_at := Some now, a_error := fin_error spec,
     a_agent_version := (case fin_agent_version spec of None \<Rightarrow> a_agent_version a | Some v \<Rightarrow> Some v),
     a_capacity_held := (fin_state spec = Uncertain)\<rparr>"

definition finish_tx ::
  "time \<Rightarrow> stamp \<Rightarrow> stamp \<Rightarrow> finish_spec \<Rightarrow> store \<Rightarrow> store_error + (store \<times> unit)" where
  "finish_tx now st1 st2 spec s =
     (let submission_id = fin_submission_id spec; attempt_id = fin_attempt_id spec in
      try_bind (ok_or (Internal ''finish requires a terminal running-state outcome'')
        (finish_attempt_state (fin_state spec))) (\<lambda>attempt_state.
      let p = (\<lambda>r. s_submission_id r = submission_id \<and> s_state r = ''running'');
          q = (\<lambda>a. a_attempt_id a = attempt_id \<and> a_submission_id a = submission_id \<and>
            active_attempt a) in
      if count_where p (submissions s) \<noteq> 1 then Inl NotQueued
      else if count_where q (attempts s) \<noteq> 1
      then Inl (Internal ''active submission does not own the expected active attempt'')
      else try_bind (append_event_tx st1 submission_id (Some attempt_id) ''attempt.state_changed''
          (JObject [(''to'', JString attempt_state)])
          (s\<lparr>submissions := update_where p (finish_submission now spec) (submissions s),
             attempts := update_where q (finish_attempt now attempt_state spec) (attempts s)\<rparr>))
        (\<lambda>(s1, attempt_event).
      try_bind (append_event_tx st2 submission_id (Some attempt_id) ''submission.state_changed''
          (JObject [(''from'', JString ''running''), (''to'', JString (state_name (fin_state spec)))]) s1)
        (\<lambda>(s2, state_event). Inr (send_events [attempt_event, state_event] s2, ())))))"

definition finish ::
  "time \<Rightarrow> stamp \<Rightarrow> stamp \<Rightarrow> finish_spec \<Rightarrow> store \<Rightarrow> store \<times> (store_error + unit)" where
  "finish now st1 st2 spec = transact (finish_tx now st1 st2 spec)"

section \<open>The queue\<close>

definition set_blocker_tx ::
  "time \<Rightarrow> stamp \<Rightarrow> string \<Rightarrow> string \<Rightarrow> string option \<Rightarrow> store \<Rightarrow> store_error + (store \<times> unit)" where
  "set_blocker_tx now st submission_id code detail s =
     (let p = (\<lambda>r. s_submission_id r = submission_id \<and> s_state r = ''queued'') in
      case fetch_optional p (submissions s) of
        None \<Rightarrow> Inr (s, ())
      | Some row \<Rightarrow>
          if s_blocker_code row = Some code \<and> s_blocker_detail row = detail then Inr (s, ())
          else if count_where p (submissions s) \<noteq> 1 then Inr (s, ())
          else try_bind (append_event_tx st submission_id None ''queue.blocked''
              (JObject [(''code'', JString code), (''detail'', json_opt JString detail)])
              (s\<lparr>submissions := update_where p
                 (\<lambda>r. r\<lparr>s_blocker_code := Some code, s_blocker_detail := detail,
                    s_revision := s_revision r + 1, s_updated_at := now\<rparr>) (submissions s)\<rparr>))
            (\<lambda>(s1, event). Inr (send_events [event] s1, ())))"

definition set_blocker ::
  "time \<Rightarrow> stamp \<Rightarrow> string \<Rightarrow> string \<Rightarrow> string option \<Rightarrow> store \<Rightarrow> store \<times> (store_error + unit)" where
  "set_blocker now st submission_id code detail =
     transact (set_blocker_tx now st submission_id code detail)"

definition leave_queue :: "time \<Rightarrow> string \<Rightarrow> submission_row \<Rightarrow> submission_row" where
  "leave_queue now name r = r\<lparr>s_state := name, s_revision := s_revision r + 1,
     s_updated_at := now, s_finished_at := Some now\<rparr>"

definition finish_queued_tx ::
  "time \<Rightarrow> stamp \<Rightarrow> string \<Rightarrow> submission_state \<Rightarrow> string \<Rightarrow> store \<Rightarrow> store_error + (store \<times> unit)" where
  "finish_queued_tx now st submission_id state reason s =
     (let p = (\<lambda>r. s_submission_id r = submission_id \<and> s_state r = ''queued'') in
      if count_where p (submissions s) = 0 then Inl NotQueued
      else try_bind (append_event_tx st submission_id None ''submission.state_changed''
          (JObject [(''from'', JString ''queued''), (''reason'', JString reason),
             (''to'', JString (state_name state))])
          (s\<lparr>submissions := update_where p (leave_queue now (state_name state)) (submissions s)\<rparr>))
        (\<lambda>(s1, event). Inr (send_events [event] s1, ())))"

definition expire :: "time \<Rightarrow> stamp \<Rightarrow> string \<Rightarrow> store \<Rightarrow> store \<times> (store_error + unit)" where
  "expire now st submission_id =
     transact (finish_queued_tx now st submission_id Expired ''start_deadline_expired'')"

section \<open>Cancelling\<close>

text \<open>The newest active attempt of the Submission, for the event only.\<close>

definition active_attempt_id :: "string \<Rightarrow> store \<Rightarrow> string option" where
  "active_attempt_id submission_id s =
     (case sort_key (\<lambda>a. - a_number a)
        (filter (\<lambda>a. a_submission_id a = submission_id \<and> active_attempt a) (attempts s)) of
        [] \<Rightarrow> None | a # _ \<Rightarrow> Some (a_attempt_id a))"

definition cancel_tx ::
  "time \<Rightarrow> stamp \<Rightarrow> string \<Rightarrow> store \<Rightarrow> store_error + (store \<times> (string \<times> u64))" where
  "cancel_tx now st submission_id s =
     try_bind (ok_or NotFound (fetch_submission submission_id s)) (\<lambda>row.
     try_bind (parse_submission_state (s_state row)) (\<lambda>state.
     try_bind (to_u64 (s_revision row)) (\<lambda>revision.
     if terminal state then Inr (s, (''already_terminal'', revision))
     else if state = Queued then
       let p = (\<lambda>r. s_submission_id r = submission_id \<and> s_state r = ''queued'') in
       if count_where p (submissions s) \<noteq> 1 then Inl NotQueued
       else try_bind (append_event_tx st submission_id None ''submission.state_changed''
           (JObject [(''from'', JString ''queued''), (''reason'', JString ''cancelled_by_client''),
              (''to'', JString ''cancelled'')])
           (s\<lparr>submissions := update_where p (leave_queue now ''cancelled'') (submissions s)\<rparr>))
         (\<lambda>(s1, event). Inr (send_events [event] s1, (''cancelled'', saturating_add revision 1)))
     else if s_cancel_requested row then Inr (s, (''cancellation_requested'', revision))
     else
       let attempt_id = active_attempt_id submission_id s;
           p = (\<lambda>r. s_submission_id r = submission_id \<and> s_state r = ''running'' \<and>
             \<not> s_cancel_requested r) in
       if count_where p (submissions s) \<noteq> 1 then Inl NotQueued
       else try_bind (append_event_tx st submission_id attempt_id ''cancellation.requested''
           (JObject [])
           (s\<lparr>submissions := update_where p
              (\<lambda>r. r\<lparr>s_cancel_requested := True, s_revision := s_revision r + 1,
                 s_updated_at := now\<rparr>) (submissions s)\<rparr>))
         (\<lambda>(s1, event). Inr (send_events [event] s1,
            (''cancellation_requested'', saturating_add revision 1))))))"

definition cancel ::
  "time \<Rightarrow> stamp \<Rightarrow> string \<Rightarrow> store \<Rightarrow> store \<times> (store_error + (string \<times> u64))" where
  "cancel now st submission_id = transact (cancel_tx now st submission_id)"

section \<open>Scheduling patches\<close>

text \<open>
  \<open>serde_json::to_value(patch)\<close>: the fields that are present, \<open>fmt\<close> the time format of
  the date library.
\<close>

definition patch_json :: "(time \<Rightarrow> string) \<Rightarrow> submission_patch \<Rightarrow> json" where
  "patch_json fmt patch =
     JObject
       ((case pt_not_before patch of None \<Rightarrow> []
         | Some v \<Rightarrow> [(''not_before'', json_opt (\<lambda>x. JString (fmt x)) v)]) @
        (case pt_priority patch of None \<Rightarrow> [] | Some p \<Rightarrow> [(''priority'', JInt (uint p))]) @
        (case pt_start_deadline patch of None \<Rightarrow> []
         | Some v \<Rightarrow> [(''start_deadline'', json_opt (\<lambda>x. JString (fmt x)) v)]))"

definition deadline_conflict :: "time option \<Rightarrow> time option \<Rightarrow> bool" where
  "deadline_conflict not_before start_deadline \<longleftrightarrow>
     (case (not_before, start_deadline) of
        (Some b, Some d) \<Rightarrow> d \<le> b
      | _ \<Rightarrow> False)"

definition patch_scheduling_tx ::
  "(time \<Rightarrow> string) \<Rightarrow> time \<Rightarrow> stamp \<Rightarrow> string \<Rightarrow> u64 \<Rightarrow> submission_patch \<Rightarrow> store \<Rightarrow>
     store_error + (store \<times> unit)" where
  "patch_scheduling_tx fmt now st submission_id expected_revision patch s =
     (if pt_priority patch = None \<and> pt_not_before patch = None \<and> pt_start_deadline patch = None
      then Inl NotQueued
      else
        try_bind (ok_or NotFound (fetch_submission submission_id s)) (\<lambda>row.
        try_bind (to_u64 (s_revision row)) (\<lambda>revision.
        if revision \<noteq> expected_revision then Inl RevisionConflict
        else if s_state row \<noteq> ''queued'' then Inl NotQueued
        else
          try_bind (case pt_priority patch of
              Some p \<Rightarrow> Inr p
            | None \<Rightarrow> ok_or (Internal ''integer out of range'') (try_from_int (s_priority row)))
            (\<lambda>priority.
          let not_before = (case pt_not_before patch of None \<Rightarrow> s_not_before row | Some v \<Rightarrow> v);
              start_deadline = (case pt_start_deadline patch of
                None \<Rightarrow> s_start_deadline row | Some v \<Rightarrow> v);
              p = (\<lambda>r. s_submission_id r = submission_id \<and> s_state r = ''queued'' \<and>
                s_revision r = uint expected_revision) in
          if deadline_conflict not_before start_deadline then Inl InvalidScheduling
          else if \<not> uint expected_revision < 2 ^ 63 then Inl (Internal ''integer out of range'')
          else if count_where p (submissions s) \<noteq> 1 then Inl RevisionConflict
          else try_bind (append_event_tx st submission_id None ''submission.scheduling_changed''
              (patch_json fmt patch)
              (s\<lparr>submissions := update_where p
                 (\<lambda>r. r\<lparr>s_priority := uint (priority :: u8), s_not_before := not_before,
                    s_start_deadline := start_deadline, s_revision := s_revision r + 1,
                    s_updated_at := now\<rparr>) (submissions s)\<rparr>))
            (\<lambda>(s1, event). Inr (send_events [event] s1, ()))))))"

definition patch_scheduling ::
  "(time \<Rightarrow> string) \<Rightarrow> time \<Rightarrow> stamp \<Rightarrow> string \<Rightarrow> u64 \<Rightarrow> submission_patch \<Rightarrow> store \<Rightarrow>
     store \<times> (store_error + submission_status)" where
  "patch_scheduling fmt now st submission_id expected_revision patch s =
     (case transact (patch_scheduling_tx fmt now st submission_id expected_revision patch) s of
        (s', Inl e) \<Rightarrow> (s', Inl e)
      | (s', Inr _) \<Rightarrow> (s', status submission_id s'))"

section \<open>Capacity observations\<close>

definition record_capacity ::
  "time \<Rightarrow> string \<Rightarrow> string \<Rightarrow> string option \<Rightarrow> u32 option \<Rightarrow> time option \<Rightarrow> store \<Rightarrow> store" where
  "record_capacity now source_id health usage_kind in_use observed_at s =
     (let row = \<lparr>c_source_id = source_id, c_health = health, c_usage_kind = usage_kind,
          c_in_use = map_option uint in_use, c_observed_at = observed_at, c_received_at = now\<rparr> in
      if list_ex (\<lambda>r. c_source_id r = source_id) (capacity_observations s)
      then s\<lparr>capacity_observations := update_where (\<lambda>r. c_source_id r = source_id) (\<lambda>_. row)
          (capacity_observations s)\<rparr>
      else s\<lparr>capacity_observations := capacity_observations s @ [row]\<rparr>)"

section \<open>Recovery at start-up\<close>

definition runner_lost_error :: error_detail where
  "runner_lost_error =
     \<lparr>ed_code = ''runner_lost'',
      ed_message = ''daemon restarted before local runner recovery was confirmed'',
      ed_retryable = False, ed_scope = ScopeAttempt, ed_retry_after_seconds = None,
      ed_field = None\<rparr>"

definition recover_spec :: "attempt_row \<Rightarrow> finish_spec" where
  "recover_spec a = \<lparr>fin_submission_id = a_submission_id a, fin_attempt_id = a_attempt_id a,
     fin_state = Uncertain, fin_output = None, fin_truncated = False,
     fin_error = Some runner_lost_error, fin_agent_version = None\<rparr>"

text \<open>
  The loop over the rows selected before it; \<open>env\<close> supplies time and stamps per attempt. An
  error ends it, with the transactions before it committed.
\<close>

fun recover_loop ::
  "(string \<Rightarrow> time \<times> stamp \<times> stamp) \<Rightarrow> attempt_row list \<Rightarrow> u64 \<Rightarrow> store \<Rightarrow> store \<times> (store_error + u64)" where
  "recover_loop env [] recovered s = (s, Inr recovered)"
| "recover_loop env (a # as) recovered s =
     (case env (a_attempt_id a) of (now, st1, st2) \<Rightarrow>
      case finish now st1 st2 (recover_spec a) s of
        (s', Inl e) \<Rightarrow> (s', Inl e)
      | (s', Inr _) \<Rightarrow> recover_loop env as (recovered + 1) s')"

definition recover_running_as_uncertain ::
  "(string \<Rightarrow> time \<times> stamp \<times> stamp) \<Rightarrow> store \<Rightarrow> store \<times> (store_error + u64)" where
  "recover_running_as_uncertain env s =
     recover_loop env (filter active_attempt (attempts s)) 0 s"

definition snapshot_missing_error :: error_detail where
  "snapshot_missing_error =
     \<lparr>ed_code = ''runtime_unavailable'',
      ed_message = ''submission predates durable execution snapshots; resubmit it'',
      ed_retryable = False, ed_scope = ScopeSubmission, ed_retry_after_seconds = None,
      ed_field = None\<rparr>"

definition unfrozen :: "submission_row \<Rightarrow> bool" where
  "unfrozen r \<longleftrightarrow> s_state r = ''queued'' \<and>
     (s_profile_config r = None \<or> s_policy_config r = None \<or> s_routes r = None)"

definition reject_one_tx :: "time \<Rightarrow> stamp \<Rightarrow> string \<Rightarrow> store \<Rightarrow> store_error + (store \<times> bool)" where
  "reject_one_tx now st submission_id s =
     (let p = (\<lambda>r. s_submission_id r = submission_id \<and> s_state r = ''queued'') in
      if count_where p (submissions s) = 0 then Inr (s, False)
      else try_bind (append_event_tx st submission_id None ''submission.state_changed''
          (JObject [(''from'', JString ''queued''),
             (''reason'', JString ''configuration_snapshot_missing''), (''to'', JString ''failed'')])
          (s\<lparr>submissions := update_where p
             (\<lambda>r. (leave_queue now ''failed'' r)\<lparr>s_error := Some snapshot_missing_error\<rparr>)
             (submissions s)\<rparr>))
        (\<lambda>(s1, event). Inr (send_events [event] s1, True)))"

fun reject_loop ::
  "(string \<Rightarrow> time \<times> stamp) \<Rightarrow> string list \<Rightarrow> u64 \<Rightarrow> store \<Rightarrow> store \<times> (store_error + u64)" where
  "reject_loop env [] rejected s = (s, Inr rejected)"
| "reject_loop env (i # is) rejected s =
     (case env i of (now, st) \<Rightarrow>
      case transact (reject_one_tx now st i) s of
        (s', Inl e) \<Rightarrow> (s', Inl e)
      | (s', Inr done) \<Rightarrow>
          reject_loop env is (if done then saturating_add rejected 1 else rejected) s')"

definition reject_unfrozen_queued ::
  "(string \<Rightarrow> time \<times> stamp) \<Rightarrow> store \<Rightarrow> store \<times> (store_error + u64)" where
  "reject_unfrozen_queued env s =
     reject_loop env (map s_submission_id (filter unfrozen (submissions s))) 0 s"

end
