(* ===== verification/StoreInv.thy ===== *)
theory StoreInv
  imports StoreOps
begin

text \<open>
  The well-formedness of the store and its preservation by every writing method.

  \<^item> \<open>keys_ok\<close>: primary keys and the unique constraint of the schema, foreign keys.
  \<^item> \<open>rows_ok\<close>: what holds of each Submission row on its own.
  \<^item> \<open>lease_ok\<close>: how attempts and Submissions agree: at most one attempt, an active one
    exactly while the Submission runs, capacity held exactly while it runs or is uncertain.
  \<^item> \<open>workspace_ok\<close>: no writer shares a canonical workspace with another occupant.
  \<^item> \<open>log_ok\<close>: each Submission's events are numbered 1, 2, ... up to its counter.
  \<^item> \<open>revision_ok\<close>: every change of a row's revision appended an event, so revisions stay
    in the range the API can return.
\<close>

section \<open>The invariant\<close>

definition valid_state :: "string \<Rightarrow> bool" where
  "valid_state x \<longleftrightarrow> x \<in> range state_name"

definition holding_state :: "string \<Rightarrow> bool" where
  "holding_state x \<longleftrightarrow> x = ''starting'' \<or> x = ''running'' \<or> x = ''uncertain''"

definition keys_ok :: "store \<Rightarrow> bool" where
  "keys_ok s \<longleftrightarrow>
     distinct (map s_submission_id (submissions s)) \<and>
     distinct (map (\<lambda>r. (s_client_id r, s_idempotency_key r)) (submissions s)) \<and>
     distinct (map a_attempt_id (attempts s)) \<and>
     (\<forall>a \<in> set (attempts s). a_submission_id a \<in> set (map s_submission_id (submissions s)))"

definition row_ok :: "submission_row \<Rightarrow> bool" where
  "row_ok r \<longleftrightarrow> valid_state (s_state r) \<and> 1 \<le> s_revision r \<and>
     0 \<le> s_priority r \<and> s_priority r < 256 \<and>
     (s_finished_at r = None \<longleftrightarrow> s_state r = ''queued'' \<or> s_state r = ''running'') \<and>
     (s_state r = ''queued'' \<longrightarrow> \<not> s_cancel_requested r \<and> s_result_text r = None) \<and>
     (s_state r = ''running'' \<longrightarrow> s_blocker_code r = None)"

definition rows_ok :: "store \<Rightarrow> bool" where
  "rows_ok s \<longleftrightarrow> (\<forall>r \<in> set (submissions s). row_ok r)"

definition attempt_ok :: "attempt_row \<Rightarrow> bool" where
  "attempt_ok a \<longleftrightarrow> a_number a = 1 \<and>
     a_state a \<in> {''starting'', ''running'', ''completed'', ''failed'', ''cancelled'', ''uncertain''} \<and>
     (a_capacity_held a \<longleftrightarrow> holding_state (a_state a))"

definition owned :: "string \<Rightarrow> attempt_row \<Rightarrow> bool" where
  "owned submission_id a \<longleftrightarrow> a_submission_id a = submission_id"

definition lease_row_ok :: "attempt_row list \<Rightarrow> submission_row \<Rightarrow> bool" where
  "lease_row_ok as r \<longleftrightarrow>
     count_where (owned (s_submission_id r)) as \<le> 1 \<and>
     (s_state r = ''queued'' \<longrightarrow> count_where (owned (s_submission_id r)) as = 0) \<and>
     count_where (\<lambda>a. owned (s_submission_id r) a \<and> active_attempt a) as = (if s_state r = ''running'' then 1 else 0) \<and>
     count_where (\<lambda>a. owned (s_submission_id r) a \<and> a_capacity_held a) as = (if occupying r then 1 else 0)"

definition lease_ok :: "store \<Rightarrow> bool" where
  "lease_ok s \<longleftrightarrow> (\<forall>a \<in> set (attempts s). attempt_ok a) \<and>
     (\<forall>r \<in> set (submissions s). lease_row_ok (attempts s) r)"

definition share_ok :: "submission_row \<Rightarrow> submission_row \<Rightarrow> bool" where
  "share_ok r1 r2 \<longleftrightarrow>
     (s_submission_id r1 \<noteq> s_submission_id r2 \<and> occupying r1 \<and> occupying r2 \<and>
      s_workspace_key r1 \<noteq> None \<and> s_workspace_key r1 = s_workspace_key r2 \<longrightarrow>
      s_workspace_access r1 \<noteq> Some ''writable'')"

definition workspace_ok :: "store \<Rightarrow> bool" where
  "workspace_ok s \<longleftrightarrow>
     (\<forall>r1 \<in> set (submissions s). \<forall>r2 \<in> set (submissions s). share_ok r1 r2)"

definition sequences :: "string \<Rightarrow> event_row list \<Rightarrow> int list" where
  "sequences submission_id es = map e_sequence (filter (\<lambda>e. e_submission_id e = submission_id) es)"

definition log_ok :: "store \<Rightarrow> bool" where
  "log_ok s \<longleftrightarrow> distinct (map e_event_id (events s)) \<and>
     (\<forall>e \<in> set (events s). e_submission_id e \<in> set (map s_submission_id (submissions s))) \<and>
     (\<forall>r \<in> set (submissions s). 0 \<le> s_latest_event_sequence r \<and> s_latest_event_sequence r < 2 ^ 63 \<and>
        sequences (s_submission_id r) (events s) = [1..s_latest_event_sequence r])"

definition core_ok :: "store \<Rightarrow> bool" where
  "core_ok s \<longleftrightarrow> keys_ok s \<and> rows_ok s \<and> lease_ok s \<and> workspace_ok s"

definition revision_ok :: "store \<Rightarrow> bool" where
  "revision_ok s \<longleftrightarrow>
     (\<forall>r \<in> set (submissions s). s_revision r \<le> s_latest_event_sequence r)"

definition wf_store :: "store \<Rightarrow> bool" where
  "wf_store s \<longleftrightarrow> core_ok s \<and> log_ok s \<and> revision_ok s"

lemma wf_empty_store: "wf_store empty_store"
  by (simp add: wf_store_def core_ok_def keys_ok_def rows_ok_def lease_ok_def workspace_ok_def
      log_ok_def revision_ok_def empty_store_def)

lemma valid_state_names [simp]:
  "valid_state ''queued''" "valid_state ''running''" "valid_state ''completed''"
  "valid_state ''failed''" "valid_state ''cancelled''" "valid_state ''expired''"
  "valid_state ''uncertain''"
  unfolding valid_state_def
  by (rule range_eqI [of _ _ Queued], simp add: state_name_def)
    (rule range_eqI [of _ _ Running], simp add: state_name_def,
     rule range_eqI [of _ _ Completed], simp add: state_name_def,
     rule range_eqI [of _ _ Failed], simp add: state_name_def,
     rule range_eqI [of _ _ Cancelled], simp add: state_name_def,
     rule range_eqI [of _ _ Expired], simp add: state_name_def,
     rule range_eqI [of _ _ Uncertain], simp add: state_name_def)

lemma parse_state_name [simp]: "parse_submission_state (state_name st) = Inr st"
  by (cases st) (simp_all add: parse_submission_state_def state_name_def)

lemma parse_submission_state_Inr_iff: "(parse_submission_state x = Inr st) \<longleftrightarrow> x = state_name st"
  by (auto simp: parse_submission_state_def state_name_def split: if_splits submission_state.splits)

lemma valid_state_parse: "valid_state x \<longleftrightarrow> (\<exists>st. parse_submission_state x = Inr st)"
  by (auto simp: valid_state_def parse_submission_state_Inr_iff)

section \<open>Events touch only the log\<close>

lemma bump_sequence_fields [simp]:
  "s_submission_id (bump_sequence r) = s_submission_id r"
  "s_client_id (bump_sequence r) = s_client_id r"
  "s_idempotency_key (bump_sequence r) = s_idempotency_key r"
  "s_request_digest (bump_sequence r) = s_request_digest r"
  "s_resolved_profile (bump_sequence r) = s_resolved_profile r"
  "s_resolved_policy (bump_sequence r) = s_resolved_policy r"
  "s_state (bump_sequence r) = s_state r"
  "s_revision (bump_sequence r) = s_revision r"
  "s_priority (bump_sequence r) = s_priority r"
  "s_not_before (bump_sequence r) = s_not_before r"
  "s_start_deadline (bump_sequence r) = s_start_deadline r"
  "s_blocker_code (bump_sequence r) = s_blocker_code r"
  "s_blocker_detail (bump_sequence r) = s_blocker_detail r"
  "s_cancel_requested (bump_sequence r) = s_cancel_requested r"
  "s_workspace_key (bump_sequence r) = s_workspace_key r"
  "s_workspace_access (bump_sequence r) = s_workspace_access r"
  "s_result_text (bump_sequence r) = s_result_text r"
  "s_result_truncated (bump_sequence r) = s_result_truncated r"
  "s_error (bump_sequence r) = s_error r"
  "s_finished_at (bump_sequence r) = s_finished_at r"
  "s_latest_event_sequence (bump_sequence r) = s_latest_event_sequence r + 1"
  "s_profile_config (bump_sequence r) = s_profile_config r"
  "s_policy_config (bump_sequence r) = s_policy_config r"
  "s_routes (bump_sequence r) = s_routes r"
  by (simp_all add: bump_sequence_def)

lemma row_predicates_bump [simp]:
  "row_ok (bump_sequence r) = row_ok r"
  "occupying (bump_sequence r) = occupying r"
  "lease_row_ok as (bump_sequence r) = lease_row_ok as r"
  "share_ok (bump_sequence r) r2 = share_ok r r2"
  "share_ok r1 (bump_sequence r) = share_ok r1 r"
  by (auto simp: row_ok_def occupying_def lease_row_ok_def share_ok_def)

lemma to_u64_InrD: "to_u64 n = Inr w \<Longrightarrow> 0 \<le> n \<and> n < 2 ^ 64 \<and> w = word_of_int n \<and> uint w = n"
  using uint_word_of_int_in_range [of n, where 'a = 64]
  by (auto simp: to_u64_def result_simps try_from_int_Some)

lemma append_event_tx_Inr:
  assumes "append_event_tx st submission_id attempt_id event_type data s = Inr (s', ev)"
  obtains r where "fetch_submission submission_id s = Some r"
    and "0 \<le> s_latest_event_sequence r + 1" and "s_latest_event_sequence r + 1 < 2 ^ 63"
    and "ev = \<lparr>ev_event_id = ''evt_'' @ fst st, ev_submission_id = submission_id,
      ev_session_id = None, ev_attempt_id = attempt_id,
      ev_sequence = word_of_int (s_latest_event_sequence r + 1),
      ev_occurred_at = snd st, ev_event_type = event_type, ev_data = data\<rparr>"
    and "uint (ev_sequence ev) = s_latest_event_sequence r + 1"
    and "s' = s\<lparr>submissions := update_where (\<lambda>r. s_submission_id r = submission_id)
      bump_sequence (submissions s), events := events s @ [event_row_of ev]\<rparr>"
    and "\<forall>e \<in> set (events s). e_event_id e \<noteq> ''evt_'' @ fst st \<and>
      \<not> (e_submission_id e = submission_id \<and> e_sequence e = s_latest_event_sequence r + 1)"
proof -
  let ?p = "\<lambda>r. s_submission_id r = submission_id"
  let ?subs = "update_where ?p bump_sequence (submissions s)"
  have fetch: "fetch_optional ?p ?subs = map_option bump_sequence (fetch_submission submission_id s)"
    unfolding fetch_submission_def
    by (subst fetch_update_where)
      (auto simp: map_option_case split: option.splits dest: fetch_optional_SomeD)
  from assms fetch obtain r w where r: "fetch_submission submission_id s = Some r"
    and w: "to_u64 (s_latest_event_sequence r + 1) = Inr w"
    by (auto simp: append_event_tx_def Let_def result_simps)
  note w_facts = to_u64_InrD [OF w]
  then have range: "0 \<le> s_latest_event_sequence r + 1"
    and w_eq: "w = word_of_int (s_latest_event_sequence r + 1)"
    and uint_w: "uint w = s_latest_event_sequence r + 1"
    by blast+
  have unfolded: "0 \<le> s_latest_event_sequence r + 1 \<and> s_latest_event_sequence r + 1 < 2 ^ 63 \<and>
    ev = \<lparr>ev_event_id = ''evt_'' @ fst st, ev_submission_id = submission_id,
      ev_session_id = None, ev_attempt_id = attempt_id, ev_sequence = w,
      ev_occurred_at = snd st, ev_event_type = event_type, ev_data = data\<rparr> \<and>
    s' = s\<lparr>submissions := ?subs, events := events s @ [event_row_of ev]\<rparr> \<and>
    (\<forall>e \<in> set (events s). e_event_id e \<noteq> ''evt_'' @ fst st \<and>
      \<not> (e_submission_id e = submission_id \<and> e_sequence e = s_latest_event_sequence r + 1))"
    using assms fetch r w range uint_w
    by (auto simp: append_event_tx_def Let_def result_simps list_ex_iff split: if_splits)
  show thesis
  proof (rule that [OF r range])
    show "uint (ev_sequence ev) = s_latest_event_sequence r + 1"
      using unfolded uint_w by simp
  qed (use unfolded w_eq in \<open>blast+\<close>)
qed

lemma append_event_tx_parts:
  assumes "append_event_tx st submission_id attempt_id event_type data s = Inr (s', ev)"
  shows "submissions s' = update_where (\<lambda>r. s_submission_id r = submission_id) bump_sequence (submissions s)"
    and "attempts s' = attempts s"
    and "events s' = events s @ [event_row_of ev]"
    and "capacity_observations s' = capacity_observations s"
    and "bus s' = bus s"
  by (rule append_event_tx_Inr [OF assms]; simp)+

lemma send_events_parts [simp]:
  "submissions (send_events evs s) = submissions s"
  "attempts (send_events evs s) = attempts s"
  "events (send_events evs s) = events s"
  "capacity_observations (send_events evs s) = capacity_observations s"
  "bus (send_events evs s) = bus s @ evs"
  by (simp_all add: send_events_def)

lemma core_ok_send [simp]: "core_ok (send_events evs s) = core_ok s"
  by (simp add: core_ok_def keys_ok_def rows_ok_def lease_ok_def workspace_ok_def)

lemma log_ok_send [simp]: "log_ok (send_events evs s) = log_ok s"
  by (simp add: log_ok_def)

lemma core_ok_append:
  assumes "append_event_tx st submission_id attempt_id event_type data s = Inr (s', ev)"
  shows "core_ok s' = core_ok s"
proof -
  let ?p = "\<lambda>r. s_submission_id r = submission_id"
  have maps: "map s_submission_id (submissions s') = map s_submission_id (submissions s)"
    "map (\<lambda>r. (s_client_id r, s_idempotency_key r)) (submissions s') =
     map (\<lambda>r. (s_client_id r, s_idempotency_key r)) (submissions s)"
    by (simp_all add: append_event_tx_parts [OF assms] map_update_where)
  have balls: "(\<forall>r \<in> set (submissions s'). P r) \<longleftrightarrow> (\<forall>r \<in> set (submissions s). P r)"
    if "\<And>r. P (bump_sequence r) = P r" for P
    by (simp add: append_event_tx_parts [OF assms] ball_update_where that)
  show ?thesis
    unfolding core_ok_def keys_ok_def rows_ok_def lease_ok_def workspace_ok_def maps
    by (simp add: append_event_tx_parts(2) [OF assms] balls)
qed

lemma log_ok_append:
  assumes app: "append_event_tx st submission_id attempt_id event_type data s = Inr (s', ev)"
    and dist: "distinct (map s_submission_id (submissions s))" and log: "log_ok s"
  shows "log_ok s'"
proof (rule append_event_tx_Inr [OF app])
  let ?p = "\<lambda>r. s_submission_id r = submission_id"
  fix r
  assume r: "fetch_submission submission_id s = Some r"
    and range: "0 \<le> s_latest_event_sequence r + 1" "s_latest_event_sequence r + 1 < 2 ^ 63"
    and ev: "ev = \<lparr>ev_event_id = ''evt_'' @ fst st, ev_submission_id = submission_id,
      ev_session_id = None, ev_attempt_id = attempt_id,
      ev_sequence = word_of_int (s_latest_event_sequence r + 1),
      ev_occurred_at = snd st, ev_event_type = event_type, ev_data = data\<rparr>"
    and seq: "uint (ev_sequence ev) = s_latest_event_sequence r + 1"
    and s': "s' = s\<lparr>submissions := update_where ?p bump_sequence (submissions s),
      events := events s @ [event_row_of ev]\<rparr>"
    and fresh: "\<forall>e \<in> set (events s). e_event_id e \<noteq> ''evt_'' @ fst st \<and>
      \<not> (e_submission_id e = submission_id \<and> e_sequence e = s_latest_event_sequence r + 1)"
  have mem: "r \<in> set (submissions s)" and rid: "s_submission_id r = submission_id"
    using r by (auto simp: fetch_submission_def dest: fetch_optional_SomeD)
  have keys: "map s_submission_id (submissions s') = map s_submission_id (submissions s)"
    by (simp add: s' map_update_where)
  have row: "0 \<le> s_latest_event_sequence q \<and> s_latest_event_sequence q < 2 ^ 63 \<and>
      sequences (s_submission_id q) (events s') = [1..s_latest_event_sequence q]"
    if "q \<in> set (submissions s')" for q
  proof -
    from that obtain q0 where q0: "q0 \<in> set (submissions s)"
      and q: "q = (if s_submission_id q0 = submission_id then bump_sequence q0 else q0)"
      by (auto simp: s' set_update_where)
    have old: "0 \<le> s_latest_event_sequence q0" "s_latest_event_sequence q0 < 2 ^ 63"
      "sequences (s_submission_id q0) (events s) = [1..s_latest_event_sequence q0]"
      using log q0 by (auto simp: log_ok_def)
    show ?thesis
    proof (cases "s_submission_id q0 = submission_id")
      case True
      then have "q0 = r"
        using q0 mem rid dist by (metis distinct_map inj_onD)
      then show ?thesis
        using True old range q ev seq by (simp add: s' sequences_def event_row_of_def upto_rec2 rid)
    next
      case False
      then show ?thesis
        using old q ev by (simp add: s' sequences_def event_row_of_def)
    qed
  qed
  show "log_ok s'"
    unfolding log_ok_def keys
    using row log fresh mem rid
    by (auto simp: log_ok_def s' event_row_of_def ev)
qed

lemma revision_ok_send [simp]: "revision_ok (send_events evs s) = revision_ok s"
  by (simp add: revision_ok_def)

lemma wf_send [simp]: "wf_store (send_events evs s) = wf_store s"
  by (simp add: wf_store_def)

lemma keys_distinct: "core_ok s \<Longrightarrow> distinct (map s_submission_id (submissions s))"
  by (simp add: core_ok_def keys_ok_def)

lemma wf_append:
  assumes app: "append_event_tx st submission_id attempt_id event_type data s = Inr (s', ev)"
    and wf: "wf_store s"
  shows "wf_store s'"
proof -
  have "revision_ok s'"
    using wf by (fastforce simp: wf_store_def revision_ok_def append_event_tx_parts [OF app] ball_update_where)
  then show ?thesis
    using wf log_ok_append [OF app] keys_distinct [of s] core_ok_append [OF app]
    by (simp add: wf_store_def)
qed

text \<open>A statement that keeps the core and the log, then the one or two events it appends.\<close>

definition revision_slack :: "string \<Rightarrow> int \<Rightarrow> store \<Rightarrow> bool" where
  "revision_slack sid k s \<longleftrightarrow> (\<forall>r \<in> set (submissions s).
     s_revision r \<le> s_latest_event_sequence r + (if s_submission_id r = sid then k else 0))"

lemma revision_slack_append:
  assumes app: "append_event_tx st sid attempt_id event_type data s = Inr (s', ev)"
    and slack: "revision_slack sid (k + 1) s"
  shows "revision_slack sid k s'"
  using slack
  by (fastforce simp: revision_slack_def append_event_tx_parts [OF app] ball_update_where)

lemma wf_store_slack: "wf_store s \<longleftrightarrow> core_ok s \<and> log_ok s \<and> revision_slack sid 0 s"
  by (simp add: wf_store_def revision_ok_def revision_slack_def)

lemma wf_one_event:
  assumes "append_event_tx st sid attempt_id event_type data s = Inr (s', ev)"
    and "core_ok s" "log_ok s" "revision_slack sid 1 s"
  shows "wf_store s'"
  using assms revision_slack_append [OF assms(1), of 0]
  by (simp add: wf_store_slack [of _ sid] core_ok_append [OF assms(1)] log_ok_append [OF assms(1)]
      keys_distinct)

lemma wf_two_events:
  assumes "append_event_tx st1 sid attempt1 type1 data1 s = Inr (s1, ev1)"
    and "append_event_tx st2 sid attempt2 type2 data2 s1 = Inr (s2, ev2)"
    and "core_ok s" "log_ok s" "revision_slack sid 2 s"
  shows "wf_store s2"
proof (rule wf_one_event [OF assms(2)])
  show "core_ok s1"
    by (simp add: core_ok_append [OF assms(1)] assms)
  show "log_ok s1"
    by (rule log_ok_append [OF assms(1)]) (simp_all add: assms keys_distinct)
  show "revision_slack sid 1 s1"
    using revision_slack_append [OF assms(1), of 1] assms by simp
qed

section \<open>A statement on one Submission\<close>

text \<open>
  What the assignments of \<open>set_blocker\<close>, \<open>patch_scheduling\<close>, \<open>expire\<close>, \<open>cancel\<close> and
  \<open>reject_unfrozen_queued\<close> have in common: they select rows by primary key, keep the
  identity and the workspace, neither start nor stop an attempt, and raise the revision by
  at most one. Such a statement, followed by the event every method appends, keeps the store
  well-formed.
\<close>

locale row_change =
  fixes sid :: string
    and p :: "submission_row \<Rightarrow> bool"
    and f :: "submission_row \<Rightarrow> submission_row"
  assumes selects: "p r \<Longrightarrow> s_submission_id r = sid"
    and keeps: "s_submission_id (f r) = s_submission_id r" "s_client_id (f r) = s_client_id r"
      "s_idempotency_key (f r) = s_idempotency_key r" "s_workspace_key (f r) = s_workspace_key r"
      "s_workspace_access (f r) = s_workspace_access r"
      "s_latest_event_sequence (f r) = s_latest_event_sequence r"
    and row: "p r \<Longrightarrow> row_ok r \<Longrightarrow> row_ok (f r)"
    and same_occupancy: "p r \<Longrightarrow> occupying (f r) = occupying r"
    and same_running: "p r \<Longrightarrow> (s_state (f r) = ''running'') = (s_state r = ''running'')"
    and still_queued: "p r \<Longrightarrow> s_state (f r) = ''queued'' \<Longrightarrow> s_state r = ''queued''"
    and revision_step: "s_revision (f r) \<le> s_revision r + 1"
begin

lemma core_change:
  assumes "core_ok s"
  shows "core_ok (s\<lparr>submissions := update_where p f (submissions s)\<rparr>)"
proof -
  let ?g = "\<lambda>r. if p r then f r else r"
  have maps: "map s_submission_id (update_where p f t) = map s_submission_id t"
    "map (\<lambda>r. (s_client_id r, s_idempotency_key r)) (update_where p f t) =
     map (\<lambda>r. (s_client_id r, s_idempotency_key r)) t" for t
    by (simp_all add: map_update_where keeps)
  have row: "row_ok r \<Longrightarrow> row_ok (?g r)" for r
    by (simp add: row)
  have lease: "lease_row_ok as r \<Longrightarrow> lease_row_ok as (?g r)" for as r
    using same_occupancy [of r] same_running [of r] still_queued [of r]
    by (auto simp: lease_row_ok_def keeps)
  have share: "share_ok r1 r2 \<Longrightarrow> share_ok (?g r1) (?g r2)" for r1 r2
    using same_occupancy [of r1] same_occupancy [of r2] by (auto simp: share_ok_def keeps)
  show ?thesis
    using assms unfolding core_ok_def keys_ok_def rows_ok_def lease_ok_def workspace_ok_def
    by (simp add: maps ball_update_where row lease share)
qed

lemma log_change:
  "log_ok s \<Longrightarrow> log_ok (s\<lparr>submissions := update_where p f (submissions s)\<rparr>)"
  by (simp add: log_ok_def ball_update_where map_update_where keeps)

lemma wf_change:
  assumes wf: "wf_store s"
    and app: "append_event_tx st sid attempt_id event_type data
      (s\<lparr>submissions := update_where p f (submissions s)\<rparr>) = Inr (s', ev)"
  shows "wf_store s'"
proof (rule wf_one_event [OF app])
  have "s_revision r \<le> l \<Longrightarrow> s_revision (f r) \<le> l + 1" for r l
    using revision_step [of r] by simp
  then show "revision_slack sid 1 (s\<lparr>submissions := update_where p f (submissions s)\<rparr>)"
    using wf selects
    by (auto simp: wf_store_def revision_ok_def revision_slack_def ball_update_where keeps
        intro: order_trans)
qed (use wf core_change log_change in \<open>auto simp: wf_store_def\<close>)

end

end
