(* ===== verification/StoreKeep.thy ===== *)
theory StoreKeep
  imports StoreInv
begin

text \<open>
  Every writing method of the store keeps it well-formed. Each method gets its
  characterisation on success (what it requires of the state and what the new state is),
  from which preservation follows by the lemmas of \<open>StoreInv\<close>.
\<close>

section \<open>Statements on one Submission\<close>

abbreviation queued_row :: "string \<Rightarrow> submission_row \<Rightarrow> bool" where
  "queued_row sid \<equiv> \<lambda>r. s_submission_id r = sid \<and> s_state r = ''queued''"

definition block_row :: "time \<Rightarrow> string \<Rightarrow> string option \<Rightarrow> submission_row \<Rightarrow> submission_row" where
  "block_row now code detail r = r\<lparr>s_blocker_code := Some code, s_blocker_detail := detail,
     s_revision := s_revision r + 1, s_updated_at := now\<rparr>"

definition request_cancel :: "time \<Rightarrow> submission_row \<Rightarrow> submission_row" where
  "request_cancel now r = r\<lparr>s_cancel_requested := True, s_revision := s_revision r + 1,
     s_updated_at := now\<rparr>"

definition reschedule ::
  "time \<Rightarrow> u8 \<Rightarrow> time option \<Rightarrow> time option \<Rightarrow> submission_row \<Rightarrow> submission_row" where
  "reschedule now priority not_before start_deadline r =
     r\<lparr>s_priority := uint priority, s_not_before := not_before,
       s_start_deadline := start_deadline, s_revision := s_revision r + 1, s_updated_at := now\<rparr>"

definition reject_row :: "time \<Rightarrow> submission_row \<Rightarrow> submission_row" where
  "reject_row now r = (leave_queue now ''failed'' r)\<lparr>s_error := Some snapshot_missing_error\<rparr>"

lemma uint_u8_range: "0 \<le> uint (x :: u8) \<and> uint x < 256"
  using uint_lt2p [of x] by simp

lemmas row_defs = row_ok_def occupying_def leave_queue_def block_row_def request_cancel_def
  reschedule_def reject_row_def start_running_def finish_submission_def

interpretation blocker: row_change sid "queued_row sid" "block_row now code detail"
  by unfold_locales (auto simp: row_defs)

interpretation expiry: row_change sid "queued_row sid" "leave_queue now ''expired''"
  by unfold_locales (auto simp: row_defs)

interpretation withdrawal: row_change sid "queued_row sid" "leave_queue now ''cancelled''"
  by unfold_locales (auto simp: row_defs)

interpretation rejection: row_change sid "queued_row sid" "reject_row now"
  by unfold_locales (auto simp: row_defs)

interpretation cancel_request: row_change sid
  "\<lambda>r. s_submission_id r = sid \<and> s_state r = ''running'' \<and> \<not> s_cancel_requested r"
  "request_cancel now"
  by unfold_locales (auto simp: row_defs)

interpretation rescheduling: row_change sid
  "\<lambda>r. s_submission_id r = sid \<and> s_state r = ''queued'' \<and> s_revision r = revision"
  "reschedule now priority not_before start_deadline"
  using uint_u8_range by unfold_locales (auto simp: row_defs)

interpretation starting: keyed_rows s_submission_id "start_running now"
  by unfold_locales (simp add: start_running_def)

interpretation finishing: keyed_rows s_submission_id "finish_submission now spec"
  by unfold_locales (simp add: finish_submission_def)

interpretation finishing_attempt: keyed_rows a_attempt_id "finish_attempt now name spec"
  by unfold_locales (simp add: finish_attempt_def)

interpretation bumping: keyed_rows s_submission_id bump_sequence
  by unfold_locales simp

section \<open>What a successful method did\<close>

lemma set_blocker_tx_Inr:
  assumes "set_blocker_tx now st sid code detail s = Inr (s', u)"
  obtains "s' = s"
  | s1 ev where "append_event_tx st sid None ''queue.blocked''
        (JObject [(''code'', JString code), (''detail'', json_opt JString detail)])
        (s\<lparr>submissions := update_where (queued_row sid) (block_row now code detail) (submissions s)\<rparr>)
        = Inr (s1, ev)"
      and "s' = send_events [ev] s1"
  using assms
  by (auto simp: set_blocker_tx_def Let_def result_simps block_row_def [abs_def]
      split: option.splits if_splits)

lemma finish_queued_tx_Inr:
  assumes "finish_queued_tx now st sid state reason s = Inr (s', u)"
  obtains s1 ev where "append_event_tx st sid None ''submission.state_changed''
        (JObject [(''from'', JString ''queued''), (''reason'', JString reason),
           (''to'', JString (state_name state))])
        (s\<lparr>submissions := update_where (queued_row sid) (leave_queue now (state_name state))
           (submissions s)\<rparr>) = Inr (s1, ev)"
      and "s' = send_events [ev] s1" and "count_where (queued_row sid) (submissions s) \<noteq> 0"
  using assms by (auto simp: finish_queued_tx_def Let_def result_simps split: if_splits)

lemma cancel_tx_Inr:
  assumes "cancel_tx now st sid s = Inr (s', disposition, revision)"
  obtains (terminal) row state where "s' = s" "fetch_submission sid s = Some row"
      "s_state row = state_name state" "terminal state" "disposition = ''already_terminal''"
      "to_u64 (s_revision row) = Inr revision"
  | (queued) row s1 ev rev0 where "fetch_submission sid s = Some row" "s_state row = ''queued''"
      "to_u64 (s_revision row) = Inr rev0" "revision = saturating_add rev0 1"
      "disposition = ''cancelled''"
      "append_event_tx st sid None ''submission.state_changed''
         (JObject [(''from'', JString ''queued''), (''reason'', JString ''cancelled_by_client''),
            (''to'', JString ''cancelled'')])
         (s\<lparr>submissions := update_where (queued_row sid) (leave_queue now ''cancelled'')
            (submissions s)\<rparr>) = Inr (s1, ev)"
      "s' = send_events [ev] s1"
  | (again) row where "s' = s" "fetch_submission sid s = Some row" "s_state row = ''running''"
      "s_cancel_requested row" "disposition = ''cancellation_requested''"
      "to_u64 (s_revision row) = Inr revision"
  | (running) row s1 ev rev0 where "fetch_submission sid s = Some row" "s_state row = ''running''"
      "\<not> s_cancel_requested row" "disposition = ''cancellation_requested''"
      "to_u64 (s_revision row) = Inr rev0" "revision = saturating_add rev0 1"
      "append_event_tx st sid (active_attempt_id sid s) ''cancellation.requested'' (JObject [])
         (s\<lparr>submissions := update_where (\<lambda>r. s_submission_id r = sid \<and> s_state r = ''running'' \<and>
            \<not> s_cancel_requested r) (request_cancel now) (submissions s)\<rparr>) = Inr (s1, ev)"
      "s' = send_events [ev] s1"
proof -
  from assms obtain row state rev0 where row: "fetch_submission sid s = Some row"
    and state: "parse_submission_state (s_state row) = Inr state"
    and rev0: "to_u64 (s_revision row) = Inr rev0"
    by (auto simp: cancel_tx_def result_simps)
  then have name: "s_state row = state_name state"
    by (simp add: parse_submission_state_Inr_iff)
  note rest = assms [unfolded cancel_tx_def row, simplified, unfolded state rev0, simplified]
  consider "terminal state" | "state = Queued" | "state = Running"
    by (cases state) simp_all
  then show thesis
  proof cases
    case 1
    with rest row name rev0 show thesis by (intro that(1)) auto
  next
    case 2
    with rest row name rev0 show thesis
      by (auto simp: Let_def result_simps state_name_def split: if_splits intro: that(2))
  next
    case 3
    with rest row name rev0 show thesis
      by (auto simp: Let_def result_simps state_name_def request_cancel_def [abs_def]
          split: if_splits intro: that(3,4))
  qed
qed

lemma patch_scheduling_tx_Inr:
  assumes "patch_scheduling_tx fmt now st sid expected patch s = Inr (s', u)"
  obtains row priority s1 ev where "fetch_submission sid s = Some row"
      "to_u64 (s_revision row) = Inr expected" "s_state row = ''queued''"
      "case pt_priority patch of Some p \<Rightarrow> priority = p | None \<Rightarrow> uint priority = s_priority row"
      "\<not> deadline_conflict (case pt_not_before patch of None \<Rightarrow> s_not_before row | Some v \<Rightarrow> v)
         (case pt_start_deadline patch of None \<Rightarrow> s_start_deadline row | Some v \<Rightarrow> v)"
      "append_event_tx st sid None ''submission.scheduling_changed'' (patch_json fmt patch)
         (s\<lparr>submissions := update_where
            (\<lambda>r. s_submission_id r = sid \<and> s_state r = ''queued'' \<and> s_revision r = uint expected)
            (reschedule now priority
              (case pt_not_before patch of None \<Rightarrow> s_not_before row | Some v \<Rightarrow> v)
              (case pt_start_deadline patch of None \<Rightarrow> s_start_deadline row | Some v \<Rightarrow> v))
            (submissions s)\<rparr>) = Inr (s1, ev)"
      "s' = send_events [ev] s1"
proof -
  from assms obtain row where row: "fetch_submission sid s = Some row"
    and rev: "to_u64 (s_revision row) = Inr expected" and state: "s_state row = ''queued''"
    by (auto simp: patch_scheduling_tx_def result_simps Let_def split: if_splits)
  from assms row rev state obtain priority where
    prio: "(case pt_priority patch of Some p \<Rightarrow> Inr p
      | None \<Rightarrow> ok_or (Internal ''integer out of range'') (try_from_int (s_priority row))) = Inr priority"
    by (auto simp: patch_scheduling_tx_def result_simps Let_def split: if_splits)
  then have prio': "case pt_priority patch of Some p \<Rightarrow> priority = p
      | None \<Rightarrow> uint priority = s_priority row"
    by (auto simp: result_simps try_from_int_Some uint_word_of_int_in_range split: option.splits)
  from assms row rev state prio show thesis
    by (auto simp: patch_scheduling_tx_def result_simps Let_def reschedule_def [abs_def]
        split: if_splits intro!: that [OF row rev state prio'])
qed

lemma reject_one_tx_Inr:
  assumes "reject_one_tx now st sid s = Inr (s', done)"
  obtains "s' = s" "\<not> done" "count_where (queued_row sid) (submissions s) = 0"
  | s1 ev where "append_event_tx st sid None ''submission.state_changed''
        (JObject [(''from'', JString ''queued''),
           (''reason'', JString ''configuration_snapshot_missing''), (''to'', JString ''failed'')])
        (s\<lparr>submissions := update_where (queued_row sid) (reject_row now) (submissions s)\<rparr>)
        = Inr (s1, ev)"
      "s' = send_events [ev] s1" "done"
  using assms
  by (auto simp: reject_one_tx_def Let_def result_simps reject_row_def [abs_def] split: if_splits)

definition claimed :: "time \<Rightarrow> claim_spec \<Rightarrow> store \<Rightarrow> store" where
  "claimed now spec s =
     s\<lparr>attempts := attempts s @ [new_attempt now (next_number (cl_submission_id spec) s) spec],
       submissions := update_where (queued_row (cl_submission_id spec)) (start_running now)
         (submissions s)\<rparr>"

lemma claim_tx_Inr:
  assumes "claim_tx now st1 st2 spec s = Inr (s', u)"
  obtains row s1 s2 ev1 ev2 where "fetch_submission (cl_submission_id spec) s = Some row"
      "s_state row = ''queued''" "\<not> workspace_busy (cl_submission_id spec) row s"
      "\<forall>a \<in> set (attempts s). a_attempt_id a \<noteq> cl_attempt_id spec"
      "append_event_tx st1 (cl_submission_id spec) (Some (cl_attempt_id spec)) ''attempt.created''
         (JObject [(''attempt_id'', JString (cl_attempt_id spec)), (''state'', JString ''starting'')])
         (claimed now spec s) = Inr (s1, ev1)"
      "append_event_tx st2 (cl_submission_id spec) (Some (cl_attempt_id spec))
         ''submission.state_changed''
         (JObject [(''from'', JString ''queued''), (''to'', JString ''running'')]) s1 = Inr (s2, ev2)"
      "s' = send_events [ev1, ev2] s2"
  using assms
  by (auto simp: claim_tx_def Let_def result_simps claimed_def list_ex_iff split: if_splits)

abbreviation finishing_row :: "finish_spec \<Rightarrow> submission_row \<Rightarrow> bool" where
  "finishing_row spec \<equiv> \<lambda>r. s_submission_id r = fin_submission_id spec \<and> s_state r = ''running''"

abbreviation finishing_attempt_row :: "finish_spec \<Rightarrow> attempt_row \<Rightarrow> bool" where
  "finishing_attempt_row spec \<equiv> \<lambda>a. a_attempt_id a = fin_attempt_id spec \<and>
     a_submission_id a = fin_submission_id spec \<and> active_attempt a"

definition finished :: "time \<Rightarrow> string \<Rightarrow> finish_spec \<Rightarrow> store \<Rightarrow> store" where
  "finished now name spec s =
     s\<lparr>submissions := update_where (finishing_row spec) (finish_submission now spec) (submissions s),
       attempts := update_where (finishing_attempt_row spec) (finish_attempt now name spec)
         (attempts s)\<rparr>"

lemma finish_tx_Inr:
  assumes "finish_tx now st1 st2 spec s = Inr (s', u)"
  obtains name s1 s2 ev1 ev2 where "finish_attempt_state (fin_state spec) = Some name"
      "count_where (finishing_row spec) (submissions s) = 1"
      "count_where (finishing_attempt_row spec) (attempts s) = 1"
      "append_event_tx st1 (fin_submission_id spec) (Some (fin_attempt_id spec))
         ''attempt.state_changed'' (JObject [(''to'', JString name)]) (finished now name spec s)
         = Inr (s1, ev1)"
      "append_event_tx st2 (fin_submission_id spec) (Some (fin_attempt_id spec))
         ''submission.state_changed''
         (JObject [(''from'', JString ''running''), (''to'', JString (state_name (fin_state spec)))]) s1
         = Inr (s2, ev2)"
      "s' = send_events [ev1, ev2] s2"
  using assms
  by (auto simp: finish_tx_def Let_def result_simps finished_def split: if_splits)

abbreviation starting_row :: "string \<Rightarrow> string \<Rightarrow> attempt_row \<Rightarrow> bool" where
  "starting_row sid aid \<equiv>
     \<lambda>a. a_attempt_id a = aid \<and> a_submission_id a = sid \<and> a_state a = ''starting''"

definition mark_row :: "string option \<Rightarrow> attempt_row \<Rightarrow> attempt_row" where
  "mark_row agent_version a = a\<lparr>a_state := ''running'', a_agent_version := agent_version\<rparr>"

lemma mark_attempt_running_tx_Inr:
  assumes "mark_attempt_running_tx st sid aid version s = Inr (s', u)"
  obtains "s' = s"
  | s1 ev where "append_event_tx st sid (Some aid) ''attempt.state_changed''
        (JObject [(''from'', JString ''starting''), (''to'', JString ''running'')])
        (s\<lparr>attempts := update_where (starting_row sid aid) (mark_row version) (attempts s)\<rparr>)
        = Inr (s1, ev)"
      "s' = send_events [ev] s1"
  using assms
  by (auto simp: mark_attempt_running_tx_def Let_def result_simps mark_row_def [abs_def] split: if_splits)

lemma accept_tx_Inr:
  assumes "accept_tx ulid now st spec s = Inr (s', rec)"
  obtains (replay) row where "s' = s" "ar_replay rec"
      "fetch_optional (\<lambda>r. s_client_id r = acc_client_id spec \<and>
         s_idempotency_key r = acc_idempotency_key spec) (submissions s) = Some row"
      "s_request_digest row = acc_request_digest spec"
      "ar_response rec = accepted_response (s_submission_id row) 1 (acc_request_digest spec)
         (s_resolved_profile row) (s_resolved_policy row) True"
  | (fresh) s1 ev where
      "fetch_optional (\<lambda>r. s_client_id r = acc_client_id spec \<and>
         s_idempotency_key r = acc_idempotency_key spec) (submissions s) = None"
      "\<forall>r \<in> set (submissions s). s_submission_id r \<noteq> ''sub_'' @ ulid"
      "append_event_tx st (''sub_'' @ ulid) None ''submission.created''
         (JObject [(''state'', JString ''queued'')])
         (s\<lparr>submissions := submissions s @ [new_submission (''sub_'' @ ulid) now spec]\<rparr>) = Inr (s1, ev)"
      "s' = send_events [ev] s1" "\<not> ar_replay rec"
      "ar_response rec = accepted_response (''sub_'' @ ulid) 1 (acc_request_digest spec)
         (acc_profile spec) (acc_policy spec) False"
  using assms
  by (auto simp: accept_tx_def Let_def result_simps list_ex_iff split: if_splits option.splits)

section \<open>Preservation\<close>

lemma revision_slackI:
  "wf_store s \<Longrightarrow> (\<And>r. r \<in> set (submissions s) \<Longrightarrow> s_revision r \<le> s_latest_event_sequence r \<Longrightarrow>
     s_revision (g r) \<le> s_latest_event_sequence (g r) + (if s_submission_id (g r) = sid then k else 0)) \<Longrightarrow>
   submissions s' = map g (submissions s) \<Longrightarrow> revision_slack sid k s'"
  by (auto simp: revision_slack_def wf_store_def revision_ok_def)

lemma wf_set_blocker_tx:
  "wf_store s \<Longrightarrow> set_blocker_tx now st sid code detail s = Inr (s', u) \<Longrightarrow> wf_store s'"
  by (erule set_blocker_tx_Inr) (auto dest: blocker.wf_change)

lemma wf_expire_tx:
  "wf_store s \<Longrightarrow> finish_queued_tx now st sid Expired reason s = Inr (s', u) \<Longrightarrow> wf_store s'"
  by (erule finish_queued_tx_Inr) (auto simp: state_name_def dest: expiry.wf_change)

lemma wf_cancel_tx: "wf_store s \<Longrightarrow> cancel_tx now st sid s = Inr (s', d) \<Longrightarrow> wf_store s'"
  by (cases d) (auto elim!: cancel_tx_Inr dest: withdrawal.wf_change cancel_request.wf_change)

lemma wf_patch_scheduling_tx:
  "wf_store s \<Longrightarrow> patch_scheduling_tx fmt now st sid expected patch s = Inr (s', u) \<Longrightarrow> wf_store s'"
  by (erule patch_scheduling_tx_Inr) (auto dest: rescheduling.wf_change)

lemma wf_reject_one_tx: "wf_store s \<Longrightarrow> reject_one_tx now st sid s = Inr (s', done) \<Longrightarrow> wf_store s'"
  by (erule reject_one_tx_Inr) (auto dest: rejection.wf_change)

lemma wf_append_agent_event:
  "wf_store s \<Longrightarrow> wf_store (fst (append_agent_event st sid aid event_type data s))"
  by (auto simp: append_agent_event_def transact_def result_simps
      split: sum.splits dest: wf_append)

lemma wf_mark_attempt_running_tx:
  assumes wf: "wf_store s" and mark: "mark_attempt_running_tx st sid aid version s = Inr (s', u)"
  shows "wf_store s'"
  using mark
proof (rule mark_attempt_running_tx_Inr)
  assume "s' = s"
  then show ?thesis using wf by simp
next
  let ?as = "update_where (starting_row sid aid) (mark_row version) (attempts s)"
  fix s1 ev
  assume app: "append_event_tx st sid (Some aid) ''attempt.state_changed''
      (JObject [(''from'', JString ''starting''), (''to'', JString ''running'')])
      (s\<lparr>attempts := ?as\<rparr>) = Inr (s1, ev)"
    and s': "s' = send_events [ev] s1"
  let ?g = "\<lambda>a. if starting_row sid aid a then mark_row version a else a"
  have keep: "a_attempt_id (?g a) = a_attempt_id a" "a_submission_id (?g a) = a_submission_id a"
    "active_attempt (?g a) = active_attempt a" "a_capacity_held (?g a) = a_capacity_held a"
    "owned sid (?g a) = owned sid a" for a sid
    by (auto simp: mark_row_def active_attempt_def owned_def)
  have one: "attempt_ok a \<Longrightarrow> attempt_ok (?g a)" for a
    by (auto simp: attempt_ok_def mark_row_def holding_state_def)
  have ids: "map a_attempt_id ?as = map a_attempt_id (attempts s)"
    by (simp add: map_update_where mark_row_def)
  have lease: "lease_row_ok ?as r = lease_row_ok (attempts s) r" for r
    by (simp add: lease_row_ok_def count_where_update keep)
  have "core_ok (s\<lparr>attempts := ?as\<rparr>)"
    using wf unfolding wf_store_def core_ok_def keys_ok_def rows_ok_def lease_ok_def workspace_ok_def
    by (simp add: ids lease one ball_update_where keep)
  moreover have "log_ok (s\<lparr>attempts := ?as\<rparr>)" "revision_slack sid 1 (s\<lparr>attempts := ?as\<rparr>)"
    using wf by (fastforce simp: wf_store_def log_ok_def revision_ok_def revision_slack_def)+
  ultimately have "wf_store s1"
    by (rule wf_one_event [OF app])
  then show ?thesis by (simp add: s')
qed

lemma log_ok_cong:
  assumes rows: "map (\<lambda>r. (s_submission_id r, s_latest_event_sequence r)) (submissions s') =
      map (\<lambda>r. (s_submission_id r, s_latest_event_sequence r)) (submissions s)"
    and log: "events s' = events s"
  shows "log_ok s' = log_ok s"
proof -
  have ids: "map s_submission_id (submissions s') = map s_submission_id (submissions s)"
    using arg_cong [OF rows, of "map fst"] by (simp add: comp_def)
  have "(\<forall>r \<in> set (submissions t). P (s_submission_id r) (s_latest_event_sequence r)) \<longleftrightarrow>
      (\<forall>(i, l) \<in> set (map (\<lambda>r. (s_submission_id r, s_latest_event_sequence r)) (submissions t)). P i l)"
    for P and t :: store
    by auto
  from this [of s' "\<lambda>i l. 0 \<le> l \<and> l < 2 ^ 63 \<and> sequences i (events s) = [1..l]"]
    this [of s "\<lambda>i l. 0 \<le> l \<and> l < 2 ^ 63 \<and> sequences i (events s) = [1..l]"]
  show ?thesis
    unfolding log_ok_def ids log rows by simp
qed

lemma next_number_1: "count_where (\<lambda>a. a_submission_id a = sid) (attempts s) = 0 \<Longrightarrow> next_number sid s = 1"
  by (simp add: next_number_def count_where_def)

lemma fetch_unique:
  "core_ok s \<Longrightarrow> fetch_submission sid s = Some row \<Longrightarrow> r \<in> set (submissions s) \<Longrightarrow>
     s_submission_id r = sid \<Longrightarrow> r = row"
  using fetch_key_distinct [of s_submission_id "submissions s" r]
  by (simp add: fetch_submission_def keys_distinct)

lemma fetch_member:
  "fetch_submission sid s = Some row \<Longrightarrow> row \<in> set (submissions s) \<and> s_submission_id row = sid"
  by (auto simp: fetch_submission_def dest: fetch_optional_SomeD)

lemma workspace_free_share:
  assumes free: "\<not> workspace_busy sid row s" and row: "s_submission_id row = sid"
    and r: "r \<in> set (submissions s)"
  shows "share_ok r (start_running now row)" "share_ok (start_running now row) r"
  using assms
  by (auto simp: workspace_busy_def workspace_conflict_def share_ok_def start_running_def
      count_where_0_iff split: option.splits)

text \<open>A queued Submission has no attempt, so the one that \<open>claim\<close> adds is its first.\<close>

abbreviation claimed_row :: "time \<Rightarrow> string \<Rightarrow> submission_row \<Rightarrow> submission_row" where
  "claimed_row now sid r \<equiv> (if queued_row sid r then start_running now r else r)"

lemma queued_no_attempt:
  assumes "core_ok s" and "fetch_submission sid s = Some row" "s_state row = ''queued''"
  shows "count_where (owned sid) (attempts s) = 0"
  using assms fetch_member [OF assms(2)] by (auto simp: core_ok_def lease_ok_def lease_row_ok_def)

lemma first_attempt:
  fixes now :: time and spec :: claim_spec and s :: store
  assumes "count_where (owned (cl_submission_id spec)) (attempts s) = 0"
  defines "a \<equiv> new_attempt now (next_number (cl_submission_id spec) s) spec"
  shows "a_submission_id a = cl_submission_id spec" "active_attempt a" "a_capacity_held a" "attempt_ok a"
proof -
  have "next_number (cl_submission_id spec) s = 1"
    using assms(1) by (intro next_number_1) (simp add: count_where_0_iff owned_def)
  then show "a_submission_id a = cl_submission_id spec" "active_attempt a" "a_capacity_held a" "attempt_ok a"
    by (simp_all add: a_def new_attempt_def active_attempt_def attempt_ok_def holding_state_def)
qed

lemma claimed_lease:
  assumes core: "core_ok s" and row: "fetch_submission (cl_submission_id spec) s = Some row" "s_state row = ''queued''"
    and r: "r \<in> set (submissions s)"
  shows "lease_row_ok (attempts s @ [new_attempt now (next_number (cl_submission_id spec) s) spec])
    (claimed_row now (cl_submission_id spec) r)"
proof (cases "s_submission_id r = cl_submission_id spec")
  case True
  note none = queued_no_attempt [OF core row]
  note attempt = first_attempt [OF none, of now]
  have "r = row" using fetch_unique [OF core row(1) r True] .
  moreover have "count_where (\<lambda>a. owned (cl_submission_id spec) a \<and> Q a) (attempts s) = 0" for Q
    using none by (simp add: count_where_0_iff)
  ultimately show ?thesis
    using row(2) fetch_member [OF row(1)] none
    by (simp add: lease_row_ok_def table_simps attempt start_running_def occupying_def)
      (simp add: owned_def attempt)
next
  case False
  note attempt = first_attempt [OF queued_no_attempt [OF core row], of now]
  show ?thesis
    using core r False
    by (simp add: core_ok_def lease_ok_def lease_row_ok_def table_simps owned_def attempt)
qed

lemma claimed_share:
  assumes core: "core_ok s" and row: "fetch_submission sid s = Some row" "s_state row = ''queued''"
    and free: "\<not> workspace_busy sid row s"
    and r: "r1 \<in> set (submissions s)" "r2 \<in> set (submissions s)"
  shows "share_ok (claimed_row now sid r1) (claimed_row now sid r2)"
proof -
  have shape: "claimed_row now sid r = (if r = row then start_running now row else r)"
    if "r \<in> set (submissions s)" for r
  proof (cases "r = row")
    case True
    then show ?thesis using row(2) fetch_member [OF row(1)] by simp
  next
    case False
    then have "s_submission_id r \<noteq> sid" using fetch_unique [OF core row(1) that] by blast
    with False show ?thesis by simp
  qed
  have sides: "share_ok r (start_running now row)" "share_ok (start_running now row) r"
    if "r \<in> set (submissions s)" for r
    using workspace_free_share [OF free _ that] fetch_member [OF row(1)] by blast+
  have "share_ok r1 r2"
    using core r by (simp add: core_ok_def workspace_ok_def)
  moreover have "share_ok (start_running now row) (start_running now row)"
    by (simp add: share_ok_def)
  ultimately show ?thesis
    using sides r by (simp add: shape)
qed

lemma claimed_ok:
  assumes wf: "wf_store s"
    and row: "fetch_submission (cl_submission_id spec) s = Some row" "s_state row = ''queued''"
    and free: "\<not> workspace_busy (cl_submission_id spec) row s"
    and fresh: "\<forall>a \<in> set (attempts s). a_attempt_id a \<noteq> cl_attempt_id spec"
  shows "core_ok (claimed now spec s)" "log_ok (claimed now spec s)"
    "revision_slack (cl_submission_id spec) 2 (claimed now spec s)"
proof -
  let ?s0 = "claimed now spec s"
  have core: "core_ok s" and log: "log_ok s" and rev: "revision_ok s"
    using wf by (simp_all add: wf_store_def)
  have known: "cl_submission_id spec \<in> s_submission_id ` set (submissions s)"
    using fetch_member [OF row(1)] by (metis image_eqI)
  note attempt = first_attempt [OF queued_no_attempt [OF core row], of now]
  show "core_ok ?s0"
    unfolding core_ok_def keys_ok_def rows_ok_def lease_ok_def workspace_ok_def
  proof (intro conjI)
    show "\<forall>r \<in> set (submissions ?s0). row_ok r"
      using core
      by (auto simp: claimed_def ball_update_where core_ok_def rows_ok_def row_defs)
    show "\<forall>r \<in> set (submissions ?s0). lease_row_ok (attempts ?s0) r"
      using claimed_lease [OF core row] by (simp add: claimed_def ball_update_where)
    show "\<forall>r1 \<in> set (submissions ?s0). \<forall>r2 \<in> set (submissions ?s0). share_ok r1 r2"
      using claimed_share [OF core row free] by (simp add: claimed_def ball_update_where)
    show "\<forall>a \<in> set (attempts ?s0). attempt_ok a"
      using core attempt by (simp add: claimed_def core_ok_def lease_ok_def)
    show "distinct (map a_attempt_id (attempts ?s0))"
      using core fresh by (auto simp: claimed_def core_ok_def keys_ok_def new_attempt_def)
    show "\<forall>a \<in> set (attempts ?s0). a_submission_id a \<in> set (map s_submission_id (submissions ?s0))"
      using core known
      by (auto simp: claimed_def core_ok_def keys_ok_def starting.keys_update attempt)
    show "distinct (map s_submission_id (submissions ?s0))"
      using core by (simp add: claimed_def starting.keys_update keys_distinct)
    show "distinct (map (\<lambda>r. (s_client_id r, s_idempotency_key r)) (submissions ?s0))"
      using core by (simp add: claimed_def map_update_where start_running_def core_ok_def keys_ok_def)
  qed
  show "log_ok ?s0"
    using log by (subst log_ok_cong [of _ s]) (simp_all add: claimed_def map_update_where start_running_def)
  show "revision_slack (cl_submission_id spec) 2 ?s0"
    using rev by (fastforce simp: revision_slack_def revision_ok_def claimed_def ball_update_where
        start_running_def)
qed

lemma wf_claim_tx:
  assumes wf: "wf_store s" and claim: "claim_tx now st1 st2 spec s = Inr (s', u)"
  shows "wf_store s'"
  using claim
  by (rule claim_tx_Inr) (auto intro: wf_two_events claimed_ok [OF wf])

lemma count_where_one_out:
  assumes "count_where m t = 1" and "\<And>r. r \<in> set t \<Longrightarrow> m r \<Longrightarrow> q r" and "count_where q t = 1"
  shows "count_where (\<lambda>r. q r \<and> \<not> m r) t = 0"
proof -
  have "count_where (\<lambda>r. q r \<and> m r) t = count_where m t"
    by (rule count_where_cong) (use assms(2) in blast)
  then show ?thesis
    using count_where_split [of q t m] assms by simp
qed

lemma finish_attempt_state_ok:
  assumes "finish_attempt_state state = Some name"
  shows "name \<in> {''completed'', ''failed'', ''cancelled'', ''uncertain''}"
    and "holding_state name \<longleftrightarrow> state = Uncertain"
    and "state_name state = name" and "terminal state"
  using assms by (cases state; auto simp: holding_state_def state_name_def)+

lemma lease_finished:
  assumes row: "lease_row_ok as r" and ok: "\<forall>a \<in> set as. attempt_ok a"
    and name: "finish_attempt_state (fin_state spec) = Some name"
    and one: "count_where (finishing_attempt_row spec) as = 1"
    and running: "finishing_row spec r"
  shows "lease_row_ok (update_where (finishing_attempt_row spec) (finish_attempt now name spec) as)
    (finish_submission now spec r)"
proof -
  let ?q = "finishing_attempt_row spec"
  let ?g = "\<lambda>a. if ?q a then finish_attempt now name spec a else a"
  note facts = finish_attempt_state_ok [OF name]
  have idle: "\<not> active_attempt (finish_attempt now name spec a)" for a
    using facts(1) by (auto simp: active_attempt_def finish_attempt_def)
  have held: "a_capacity_held (finish_attempt now name spec a) \<longleftrightarrow> fin_state spec = Uncertain" for a
    by (simp add: finish_attempt_def)
  let ?sid = "s_submission_id r"
  have own: "owned x (finish_attempt now name spec a) = owned x a" for x a
    by (simp add: owned_def finish_attempt_def)
  have new_state: "s_state (finish_submission now spec r) = name"
    "s_submission_id (finish_submission now spec r) = ?sid"
    by (simp_all add: finish_submission_def facts)
  have q_owned: "?q a \<Longrightarrow> owned ?sid a" for a
    using running by (simp add: owned_def)
  have q_held: "a_capacity_held a" if "a \<in> set as" "?q a" for a
    using ok that by (auto simp: attempt_ok_def holding_state_def active_attempt_def)
  have before: "count_where (owned ?sid) as \<le> 1"
    "count_where (\<lambda>a. owned ?sid a \<and> active_attempt a) as = 1"
    "count_where (\<lambda>a. owned ?sid a \<and> a_capacity_held a) as = 1"
    using row running by (simp_all add: lease_row_ok_def occupying_def)
  have no_active: "count_where (\<lambda>a. (owned ?sid a \<and> active_attempt a) \<and> \<not> ?q a) as = 0"
    by (rule count_where_one_out [OF one _ before(2)]) (simp add: q_owned)
  have no_held: "count_where (\<lambda>a. (owned ?sid a \<and> a_capacity_held a) \<and> \<not> ?q a) as = 0"
    by (rule count_where_one_out [OF one _ before(3)]) (simp add: q_owned q_held)
  have "count_where (\<lambda>a. owned ?sid (?g a) \<and> active_attempt (?g a)) as = 0"
    using no_active by (auto simp: count_where_0_iff own idle)
  moreover have "count_where (\<lambda>a. owned ?sid (?g a)) as \<le> 1"
    using before(1) by (simp add: own if_distrib cong: if_cong)
  moreover have "count_where (\<lambda>a. owned ?sid (?g a) \<and> a_capacity_held (?g a)) as =
    (if fin_state spec = Uncertain then 1 else 0)"
  proof (cases "fin_state spec = Uncertain")
    case True
    have "count_where (\<lambda>a. owned ?sid (?g a) \<and> a_capacity_held (?g a)) as =
        count_where (\<lambda>a. owned ?sid a \<and> a_capacity_held a) as"
      by (rule count_where_cong) (use True q_held in \<open>auto simp: own held\<close>)
    then show ?thesis using True before(3) by simp
  next
    case False
    then show ?thesis using no_held by (auto simp: count_where_0_iff own held)
  qed
  moreover have "(name = ''uncertain'') = (fin_state spec = Uncertain)" "name \<noteq> ''running''"
    "name \<noteq> ''queued''"
    using name by (cases "fin_state spec"; auto)+
  ultimately show ?thesis
    by (simp add: lease_row_ok_def count_where_update occupying_def new_state)
qed

text \<open>The other Submissions do not own the attempt.\<close>

lemma lease_unfinished:
  assumes old: "lease_row_ok as r" and other: "s_submission_id r \<noteq> fin_submission_id spec"
  shows "lease_row_ok (update_where (finishing_attempt_row spec) (finish_attempt now name spec) as) r"
proof -
  let ?g = "\<lambda>a. if finishing_attempt_row spec a then finish_attempt now name spec a else a"
  have "count_where (\<lambda>a. owned (s_submission_id r) (?g a) \<and> P (?g a)) as =
      count_where (\<lambda>a. owned (s_submission_id r) a \<and> P a) as" for P
    by (rule count_where_cong) (use other in \<open>auto simp: owned_def finish_attempt_def split: if_splits\<close>)
  note counts = this [of "\<lambda>_. True", simplified] this
  show ?thesis
    using old by (auto simp: lease_row_ok_def count_where_update counts)
qed

lemma finished_lease:
  assumes core: "core_ok s" and name: "finish_attempt_state (fin_state spec) = Some name"
    and row: "count_where (finishing_row spec) (submissions s) = 1"
    and one: "count_where (finishing_attempt_row spec) (attempts s) = 1"
    and r: "r \<in> set (submissions s)"
  shows "lease_row_ok (update_where (finishing_attempt_row spec) (finish_attempt now name spec) (attempts s))
    (if finishing_row spec r then finish_submission now spec r else r)"
proof -
  have old: "lease_row_ok (attempts s) r" and attempts_ok: "\<forall>a \<in> set (attempts s). attempt_ok a"
    using core r by (simp_all add: core_ok_def lease_ok_def)
  show ?thesis
  proof (cases "finishing_row spec r")
    case True
    then show ?thesis
      using lease_finished [OF old attempts_ok name one True] by simp
  next
    case False
    obtain r1 where r1: "r1 \<in> set (submissions s)" "finishing_row spec r1"
      using row count_where_positive [of "finishing_row spec" "submissions s"] by auto
    have "s_submission_id r \<noteq> fin_submission_id spec"
      using keys_distinct [OF core] r r1 False by (metis distinct_map inj_onD)
    from lease_unfinished [OF old this] show ?thesis unfolding if_not_P [OF False] .
  qed
qed

lemma finished_ok:
  assumes wf: "wf_store s" and name: "finish_attempt_state (fin_state spec) = Some name"
    and row: "count_where (finishing_row spec) (submissions s) = 1"
    and one: "count_where (finishing_attempt_row spec) (attempts s) = 1"
  shows "core_ok (finished now name spec s)" "log_ok (finished now name spec s)"
    "revision_slack (fin_submission_id spec) 2 (finished now name spec s)"
proof -
  let ?sid = "fin_submission_id spec"
  let ?s0 = "finished now name spec s"
  let ?q = "finishing_attempt_row spec"
  let ?g = "\<lambda>r. if finishing_row spec r then finish_submission now spec r else r"
  have core: "core_ok s" and log: "log_ok s" and rev: "revision_ok s"
    using wf by (simp_all add: wf_store_def)
  note facts = finish_attempt_state_ok [OF name]
  have attempts_ok: "\<forall>a \<in> set (attempts s). attempt_ok a"
    using core by (simp add: core_ok_def lease_ok_def)
  have new_row: "row_ok (?g r)" if "row_ok r" for r
    using that facts by (auto simp: row_defs)
  have new_attempt: "attempt_ok (if ?q a then finish_attempt now name spec a else a)"
    if "attempt_ok a" for a
    using that facts by (auto simp: attempt_ok_def finish_attempt_def)
  have kept: "a_submission_id (if ?q a then finish_attempt now name spec a else a) = a_submission_id a" for a
    by (simp add: finish_attempt_def)
  have share: "share_ok (?g r1) (?g r2)" if "share_ok r1 r2" for r1 r2
    using that by (auto simp: share_ok_def finish_submission_def occupying_def)
  have "core_ok ?s0"
    unfolding core_ok_def keys_ok_def rows_ok_def lease_ok_def workspace_ok_def
  proof (intro conjI)
    show "\<forall>r \<in> set (submissions ?s0). row_ok r"
      using core new_row by (simp add: finished_def ball_update_where core_ok_def rows_ok_def)
    show "\<forall>r \<in> set (submissions ?s0). lease_row_ok (attempts ?s0) r"
      using finished_lease [OF core name row one] by (simp add: finished_def ball_update_where)
    show "\<forall>r1 \<in> set (submissions ?s0). \<forall>r2 \<in> set (submissions ?s0). share_ok r1 r2"
      using core share by (simp add: finished_def ball_update_where core_ok_def workspace_ok_def)
    show "\<forall>a \<in> set (attempts ?s0). attempt_ok a"
      using attempts_ok new_attempt by (simp add: finished_def ball_update_where)
    show "distinct (map a_attempt_id (attempts ?s0))"
      using core by (simp add: finished_def finishing_attempt.keys_update core_ok_def keys_ok_def)
    show "\<forall>a \<in> set (attempts ?s0). a_submission_id a \<in> set (map s_submission_id (submissions ?s0))"
      using core kept
      by (simp add: finished_def finishing.keys_update ball_update_where core_ok_def keys_ok_def
          del: if_split)
    show "distinct (map s_submission_id (submissions ?s0))"
      using core by (simp add: finished_def finishing.keys_update keys_distinct)
    show "distinct (map (\<lambda>r. (s_client_id r, s_idempotency_key r)) (submissions ?s0))"
      using core by (simp add: finished_def map_update_where finish_submission_def core_ok_def keys_ok_def)
  qed
  then show "core_ok ?s0" .
  show "log_ok ?s0"
    using log by (subst log_ok_cong [of _ s]) (simp_all add: finished_def map_update_where finish_submission_def)
  show "revision_slack ?sid 2 ?s0"
    using rev by (fastforce simp: revision_slack_def revision_ok_def finished_def ball_update_where
        finish_submission_def)
qed

lemma wf_finish_tx:
  assumes wf: "wf_store s" and finish: "finish_tx now st1 st2 spec s = Inr (s', u)"
  shows "wf_store s'"
  by (rule finish_tx_Inr [OF finish], hypsubst, simp only: wf_send, rule wf_two_events)
    (assumption+, (rule finished_ok [OF wf], assumption+)+)

lemma wf_accept_tx:
  assumes wf: "wf_store s" and accept: "accept_tx ulid now st spec s = Inr (s', rec)"
  shows "wf_store s'"
  using accept
proof (rule accept_tx_Inr)
  assume "s' = s"
  with wf show ?thesis by simp
next
  let ?sid = "''sub_'' @ ulid" and ?r = "new_submission (''sub_'' @ ulid) now spec"
  let ?s0 = "s\<lparr>submissions := submissions s @ [?r]\<rparr>"
  fix s1 ev
  assume key: "fetch_optional (\<lambda>r. s_client_id r = acc_client_id spec \<and>
      s_idempotency_key r = acc_idempotency_key spec) (submissions s) = None"
    and fresh: "\<forall>r \<in> set (submissions s). s_submission_id r \<noteq> ?sid"
    and app: "append_event_tx st ?sid None ''submission.created''
      (JObject [(''state'', JString ''queued'')]) ?s0 = Inr (s1, ev)"
    and s': "s' = send_events [ev] s1"
  have core: "core_ok s" and log: "log_ok s" and rev: "revision_ok s"
    using wf by (simp_all add: wf_store_def)
  have r: "s_submission_id ?r = ?sid" "s_state ?r = ''queued''" "\<not> occupying ?r"
    "s_latest_event_sequence ?r = 0" "s_revision ?r = 1" "s_client_id ?r = acc_client_id spec"
    "s_idempotency_key ?r = acc_idempotency_key spec"
    by (simp_all add: new_submission_def Let_def occupying_def)
  have row: "row_ok ?r"
    using uint_u8_range by (simp add: row_ok_def new_submission_def Let_def)
  have unowned: "\<forall>a \<in> set (attempts s). \<not> owned ?sid a"
    using core fresh by (fastforce simp: core_ok_def keys_ok_def owned_def)
  have lease: "lease_row_ok (attempts s) ?r"
    using unowned r by (simp add: lease_row_ok_def count_where_0_iff
        Suc_leI [THEN order_trans] le_Suc_eq)
  have unlogged: "sequences ?sid (events s) = []"
    using log fresh by (fastforce simp: log_ok_def sequences_def filter_empty_conv)
  have share: "share_ok q ?r" "share_ok ?r q" for q
    using r by (simp_all add: share_ok_def)
  have "core_ok ?s0"
    unfolding core_ok_def keys_ok_def rows_ok_def lease_ok_def workspace_ok_def
    using core key fresh r row lease share
    by (auto simp: core_ok_def keys_ok_def rows_ok_def lease_ok_def workspace_ok_def
        fetch_optional_None_iff)
  moreover have "log_ok ?s0"
    using log unlogged r by (auto simp: log_ok_def)
  moreover have "revision_slack ?sid 1 ?s0"
    using rev r by (fastforce simp: revision_slack_def revision_ok_def)
  ultimately have "wf_store s1"
    by (rule wf_one_event [OF app])
  then show ?thesis by (simp add: s')
qed

end
