(* ===== verification/Lifecycle.thy ===== *)
theory Lifecycle
  imports StoreKeep
begin

text \<open>
  What the store promises to its callers, and that its transactions implement it.

  \<^item> \<open>lifecycle\<close> is the abstract state machine of one Submission (the table of
    \<open>docs/submission-api.md\<close>, with the edge \<open>queued \<rightarrow> failed\<close> the code adds).
  \<^item> \<open>row_step\<close> is what one transaction may do to one row: its identity and frozen
    execution plan stay, its state makes at most one lifecycle transition, its revision and
    event counter never go back, and a terminal row changes in nothing but its event counter.
  \<^item> \<open>store_step\<close> is one committed (or rolled back) transaction of any method, with any
    arguments; \<open>reachable\<close> are the stores that start empty. Every interleaving of the API
    handlers, the scheduler and the recovery is a path of these steps.
\<close>

section \<open>The abstract machine\<close>

inductive lifecycle :: "submission_state \<Rightarrow> submission_state \<Rightarrow> bool" where
  dispatch: "lifecycle Queued Running"
| withdraw: "lifecycle Queued Cancelled"
| miss_deadline: "lifecycle Queued Expired"
| reject: "lifecycle Queued Failed"
| complete: "lifecycle Running Completed"
| fail: "lifecycle Running Failed"
| cancel_running: "lifecycle Running Cancelled"
| lose: "lifecycle Running Uncertain"

code_pred lifecycle .

inductive_cases lifecycle_QueuedE: "lifecycle Queued y"
inductive_cases lifecycle_RunningE: "lifecycle Running y"

inductive_simps lifecycle_simps [simp]:
  "lifecycle Queued y" "lifecycle Running y" "lifecycle Completed y" "lifecycle Failed y"
  "lifecycle Cancelled y" "lifecycle Expired y" "lifecycle Uncertain y"

lemma lifecycle_terminal: "lifecycle x y \<Longrightarrow> \<not> terminal x"
  by (cases x) simp_all

lemma lifecycle_progress: "lifecycle x y \<Longrightarrow> x < y"
  by (induction rule: lifecycle.induct) (simp_all add: less_submission_state_def progress_def)

section \<open>One row, one transaction\<close>

definition state_step :: "string \<Rightarrow> string \<Rightarrow> bool" where
  "state_step x y \<longleftrightarrow> y = x \<or> (\<exists>a b. x = state_name a \<and> y = state_name b \<and> lifecycle a b)"

definition plan_of :: "submission_row \<Rightarrow> _" where
  "plan_of r = (s_submission_id r, s_client_id r, s_idempotency_key r, s_request_digest r,
     s_request r, s_resolved_profile r, s_resolved_policy r, s_mode r, s_workspace_key r,
     s_workspace_access r, s_created_at r, s_profile_config r, s_policy_config r, s_routes r)"

definition live :: "submission_row \<Rightarrow> bool" where
  "live r \<longleftrightarrow> s_state r = ''queued'' \<or> s_state r = ''running''"

definition only_events :: "submission_row \<Rightarrow> submission_row \<Rightarrow> bool" where
  "only_events r r' \<longleftrightarrow> (\<exists>n. r' = r\<lparr>s_latest_event_sequence := n\<rparr>)"

definition row_step :: "submission_row \<Rightarrow> submission_row \<Rightarrow> bool" where
  "row_step r r' \<longleftrightarrow> plan_of r' = plan_of r \<and> state_step (s_state r) (s_state r') \<and>
     s_latest_event_sequence r \<le> s_latest_event_sequence r' \<and>
     (s_cancel_requested r \<longrightarrow> s_cancel_requested r') \<and>
     (only_events r r' \<or> live r \<and> s_revision r' = s_revision r + 1)"

lemma state_step_refl [simp]: "state_step x x"
  by (simp add: state_step_def)

lemma state_step_names [simp]: "lifecycle a b \<Longrightarrow> state_step (state_name a) (state_name b)"
  unfolding state_step_def by blast

lemma state_step_literals [simp]:
  "state_step ''queued'' ''running''" "state_step ''queued'' ''cancelled''"
  "state_step ''queued'' ''expired''" "state_step ''queued'' ''failed''"
  using state_step_names [of Queued Running] state_step_names [of Queued Cancelled]
    state_step_names [of Queued Expired] state_step_names [of Queued Failed]
  by (simp_all add: state_name_def)

lemma state_step_finish: "finish_attempt_state st = Some name \<Longrightarrow> state_step ''running'' (state_name st)"
  using state_step_names [of Running st]
  by (cases st) (simp_all add: state_name_def)

lemma only_events_refl [simp]: "only_events r r"
  unfolding only_events_def by (rule exI [of _ "s_latest_event_sequence r"]) simp

lemma only_events_bump: "only_events r r' \<Longrightarrow> only_events r (bump_sequence r')"
  by (auto simp: only_events_def bump_sequence_def)

lemma row_step_refl [simp]: "row_step r r"
  by (simp add: row_step_def)

lemma plan_bump [simp]: "plan_of (bump_sequence r) = plan_of r"
  by (simp add: plan_of_def bump_sequence_def)

lemma row_step_bump: "row_step r r' \<Longrightarrow> row_step r (bump_sequence r')"
  by (auto simp: row_step_def only_events_bump)

lemma row_step_id: "row_step r r' \<Longrightarrow> s_submission_id r' = s_submission_id r"
  by (simp add: row_step_def plan_of_def)

lemmas row_step_defs = row_step_def plan_of_def live_def row_defs

section \<open>One table, one transaction\<close>

definition fresh_row :: "submission_row \<Rightarrow> bool" where
  "fresh_row r \<longleftrightarrow> s_state r = ''queued'' \<and> s_revision r = 1 \<and> \<not> s_cancel_requested r"

definition table_step :: "store \<Rightarrow> store \<Rightarrow> bool" where
  "table_step s s' \<longleftrightarrow> (\<exists>g new. submissions s' = map g (submissions s) @ new \<and>
     (\<forall>r \<in> set (submissions s). row_step r (g r)) \<and> (\<forall>r \<in> set new. fresh_row r))"

lemma table_step_refl [simp]: "table_step s s"
  unfolding table_step_def by (intro exI [of _ "\<lambda>r. r"] exI [of _ "[]"]) simp

lemma table_step_send [simp]: "table_step s (send_events evs s') = table_step s s'"
  by (simp add: table_step_def)

lemma table_step_append:
  assumes app: "append_event_tx st sid att ty data s1 = Inr (s2, ev)" and step: "table_step s s1"
  shows "table_step s s2"
proof -
  from step obtain g new where g: "submissions s1 = map g (submissions s) @ new"
    "\<forall>r \<in> set (submissions s). row_step r (g r)" "\<forall>r \<in> set new. fresh_row r"
    by (auto simp: table_step_def)
  let ?b = "\<lambda>r. if s_submission_id r = sid then bump_sequence r else r"
  have "submissions s2 = map (?b \<circ> g) (submissions s) @ map ?b new"
    by (simp add: append_event_tx_parts [OF app] update_where_def g)
  moreover have "\<forall>r \<in> set (submissions s). row_step r ((?b \<circ> g) r)"
    using g by (simp add: row_step_bump)
  moreover have "\<forall>r \<in> set (map ?b new). fresh_row r"
    using g(3) by (auto simp: fresh_row_def)
  ultimately show ?thesis
    unfolding table_step_def by blast
qed

lemma table_step_update:
  "(\<And>r. r \<in> set (submissions s) \<Longrightarrow> p r \<Longrightarrow> row_step r (f r)) \<Longrightarrow>
     submissions s' = update_where p f (submissions s) \<Longrightarrow> table_step s s'"
  unfolding table_step_def update_where_def
  by (intro exI [of _ "\<lambda>r. if p r then f r else r"] exI [of _ "[]"]) simp

lemma table_step_same: "submissions s' = submissions s \<Longrightarrow> table_step s s'"
  unfolding table_step_def by (intro exI [of _ "\<lambda>r. r"] exI [of _ "[]"]) simp

text \<open>A \<open>row_change\<close> whose assignment is also a step of the row.\<close>

locale row_move = row_change +
  assumes moves: "p r \<Longrightarrow> row_step r (f r)"
begin

lemma table_change:
  assumes "append_event_tx st sid att ty data
      (s\<lparr>submissions := update_where p f (submissions s)\<rparr>) = Inr (s', ev)"
  shows "table_step s s'"
  by (rule table_step_append [OF assms], rule table_step_update [of _ p f]) (simp_all add: moves)

end

interpretation blocker: row_move sid "queued_row sid" "block_row now code detail"
  by unfold_locales (auto simp: row_step_defs)

interpretation expiry: row_move sid "queued_row sid" "leave_queue now ''expired''"
  by unfold_locales (auto simp: row_step_defs)

interpretation withdrawal: row_move sid "queued_row sid" "leave_queue now ''cancelled''"
  by unfold_locales (auto simp: row_step_defs)

interpretation rejection: row_move sid "queued_row sid" "reject_row now"
  by unfold_locales (auto simp: row_step_defs)

interpretation cancel_request: row_move sid
  "\<lambda>r. s_submission_id r = sid \<and> s_state r = ''running'' \<and> \<not> s_cancel_requested r"
  "request_cancel now"
  by unfold_locales (auto simp: row_step_defs)

interpretation rescheduling: row_move sid
  "\<lambda>r. s_submission_id r = sid \<and> s_state r = ''queued'' \<and> s_revision r = revision"
  "reschedule now priority not_before start_deadline"
  by unfold_locales (auto simp: row_step_defs)

lemma table_set_blocker_tx: "set_blocker_tx now st sid code detail s = Inr (s', u) \<Longrightarrow> table_step s s'"
  by (erule set_blocker_tx_Inr) (auto dest: blocker.table_change)

lemma table_expire_tx: "finish_queued_tx now st sid Expired reason s = Inr (s', u) \<Longrightarrow> table_step s s'"
  by (erule finish_queued_tx_Inr) (auto simp: state_name_def dest: expiry.table_change)

lemma table_cancel_tx: "cancel_tx now st sid s = Inr (s', d) \<Longrightarrow> table_step s s'"
  by (cases d) (auto elim!: cancel_tx_Inr dest: withdrawal.table_change cancel_request.table_change)

lemma table_patch_scheduling_tx:
  "patch_scheduling_tx fmt now st sid expected patch s = Inr (s', u) \<Longrightarrow> table_step s s'"
  by (erule patch_scheduling_tx_Inr) (auto dest: rescheduling.table_change)

lemma table_reject_one_tx: "reject_one_tx now st sid s = Inr (s', done) \<Longrightarrow> table_step s s'"
  by (erule reject_one_tx_Inr) (auto dest: rejection.table_change)

lemma table_mark_attempt_running_tx:
  "mark_attempt_running_tx st sid aid version s = Inr (s', u) \<Longrightarrow> table_step s s'"
  by (erule mark_attempt_running_tx_Inr)
    (auto intro: table_step_append [OF _ table_step_same])

lemma table_claim_tx: "claim_tx now st1 st2 spec s = Inr (s', u) \<Longrightarrow> table_step s s'"
proof (erule claim_tx_Inr)
  fix row s1 s2 ev1 ev2
  assume app: "append_event_tx st1 (cl_submission_id spec) (Some (cl_attempt_id spec)) ''attempt.created''
       (JObject [(''attempt_id'', JString (cl_attempt_id spec)), (''state'', JString ''starting'')])
       (claimed now spec s) = Inr (s1, ev1)"
    "append_event_tx st2 (cl_submission_id spec) (Some (cl_attempt_id spec)) ''submission.state_changed''
       (JObject [(''from'', JString ''queued''), (''to'', JString ''running'')]) s1 = Inr (s2, ev2)"
    and s': "s' = send_events [ev1, ev2] s2"
  have "table_step s (claimed now spec s)"
    by (rule table_step_update [of _ "queued_row (cl_submission_id spec)" "start_running now"])
      (auto simp: row_step_defs claimed_def)
  then show "table_step s s'"
    using app by (auto simp: s' intro: table_step_append)
qed

lemma table_finish_tx: "finish_tx now st1 st2 spec s = Inr (s', u) \<Longrightarrow> table_step s s'"
proof (erule finish_tx_Inr)
  fix name s1 s2 ev1 ev2
  assume name: "finish_attempt_state (fin_state spec) = Some name"
    and app: "append_event_tx st1 (fin_submission_id spec) (Some (fin_attempt_id spec))
       ''attempt.state_changed'' (JObject [(''to'', JString name)]) (finished now name spec s)
       = Inr (s1, ev1)"
    "append_event_tx st2 (fin_submission_id spec) (Some (fin_attempt_id spec)) ''submission.state_changed''
       (JObject [(''from'', JString ''running''), (''to'', JString (state_name (fin_state spec)))]) s1
       = Inr (s2, ev2)"
    and s': "s' = send_events [ev1, ev2] s2"
  have "table_step s (finished now name spec s)"
    by (rule table_step_update [of _ "finishing_row spec" "finish_submission now spec"])
      (auto simp: row_step_defs finished_def state_step_finish [OF name])
  then show "table_step s s'"
    using app by (auto simp: s' intro: table_step_append)
qed

lemma table_accept_tx: "accept_tx ulid now st spec s = Inr (s', rec) \<Longrightarrow> table_step s s'"
proof (erule accept_tx_Inr)
  let ?r = "new_submission (''sub_'' @ ulid) now spec"
  fix s1 ev
  assume app: "append_event_tx st (''sub_'' @ ulid) None ''submission.created''
      (JObject [(''state'', JString ''queued'')]) (s\<lparr>submissions := submissions s @ [?r]\<rparr>) = Inr (s1, ev)"
    and s': "s' = send_events [ev] s1"
  have "table_step s (s\<lparr>submissions := submissions s @ [?r]\<rparr>)"
    unfolding table_step_def
    by (intro exI [of _ "\<lambda>r. r"] exI [of _ "[?r]"])
      (simp add: fresh_row_def new_submission_def Let_def)
  then show "table_step s s'"
    using app by (auto simp: s' intro: table_step_append)
qed simp

end
