(* ===== verification/StoreSteps.thy ===== *)
theory StoreSteps
  imports Lifecycle
begin

text \<open>
  The store as a transition system: \<open>store_step\<close> is one call of any writing method with any
  arguments and any outcome, \<open>reachable\<close> is what can be reached from the empty database. The
  invariant of \<open>StoreInv\<close>, the refinement to \<open>lifecycle\<close> and the log hold along every path.
\<close>

inductive store_step :: "store \<Rightarrow> store \<Rightarrow> bool" where
  accepting: "accept ulid now st spec s = (s', res) \<Longrightarrow> store_step s s'"
| claiming: "claim now st1 st2 cspec s = (s', cres) \<Longrightarrow> store_step s s'"
| marking: "mark_attempt_running st sid aid version s = (s', ures) \<Longrightarrow> store_step s s'"
| agent_event: "append_agent_event st sid aid event_type data s = (s', ures) \<Longrightarrow> store_step s s'"
| finishing: "finish now st1 st2 fspec s = (s', ures) \<Longrightarrow> store_step s s'"
| blocking: "set_blocker now st sid code detail s = (s', ures) \<Longrightarrow> store_step s s'"
| expiring: "expire now st sid s = (s', ures) \<Longrightarrow> store_step s s'"
| cancelling: "cancel now st sid s = (s', dres) \<Longrightarrow> store_step s s'"
| patching: "patch_scheduling fmt now st sid expected patch s = (s', pres) \<Longrightarrow> store_step s s'"
| rejecting: "transact (reject_one_tx now st sid) s = (s', bres) \<Longrightarrow> store_step s s'"
| observing: "record_capacity now source_id health usage_kind in_use observed_at s = s' \<Longrightarrow> store_step s s'"

definition reachable :: "store \<Rightarrow> bool" where
  "reachable s \<longleftrightarrow> store_step\<^sup>*\<^sup>* empty_store s"

lemma transact_cases:
  assumes "transact body s = (s', res)"
  obtains (failed) e where "res = Inl e" "s' = s"
  | (committed) x where "res = Inr x" "body s = Inr (s', x)"
  using assms by (auto simp: transact_def split: sum.splits prod.splits)

text \<open>A property of pairs of stores that every committed transaction has, every step has.\<close>

lemma store_step_committed:
  assumes step: "store_step s s'" and refl: "P s s"
    and "\<And>ulid now st spec x. accept_tx ulid now st spec s = Inr (s', x) \<Longrightarrow> P s s'"
    and "\<And>now st1 st2 spec x. claim_tx now st1 st2 spec s = Inr (s', x) \<Longrightarrow> P s s'"
    and "\<And>st sid aid version x. mark_attempt_running_tx st sid aid version s = Inr (s', x) \<Longrightarrow> P s s'"
    and "\<And>st sid aid ty data s1 ev. append_event_tx st sid (Some aid) ty data s = Inr (s1, ev) \<Longrightarrow>
           s' = send_events [ev] s1 \<Longrightarrow> P s s'"
    and "\<And>now st1 st2 spec x. finish_tx now st1 st2 spec s = Inr (s', x) \<Longrightarrow> P s s'"
    and "\<And>now st sid code detail x. set_blocker_tx now st sid code detail s = Inr (s', x) \<Longrightarrow> P s s'"
    and "\<And>now st sid reason x. finish_queued_tx now st sid Expired reason s = Inr (s', x) \<Longrightarrow> P s s'"
    and "\<And>now st sid x. cancel_tx now st sid s = Inr (s', x) \<Longrightarrow> P s s'"
    and "\<And>fmt now st sid expected patch x.
           patch_scheduling_tx fmt now st sid expected patch s = Inr (s', x) \<Longrightarrow> P s s'"
    and "\<And>now st sid x. reject_one_tx now st sid s = Inr (s', x) \<Longrightarrow> P s s'"
    and "\<And>obs. s' = s\<lparr>capacity_observations := obs\<rparr> \<Longrightarrow> P s s'"
  shows "P s s'"
  using step
proof cases
  case (claiming now st1 st2 cspec cres)
  then show ?thesis
    using refl assms(4) by (auto simp: claim_def transact_def split: sum.splits prod.splits)
next
  case (patching fmt now st sid expected patch pres)
  then show ?thesis
    using refl assms(11) by (auto simp: patch_scheduling_def transact_def split: sum.splits prod.splits)
next
  case (agent_event st sid aid event_type data ures)
  then show ?thesis
    using refl assms(6) [of st sid aid event_type data]
    by (auto simp: append_agent_event_def transact_def result_simps split: sum.splits prod.splits)
next
  case (observing now source_id health usage_kind in_use observed_at)
  then show ?thesis
    using assms(13) by (auto simp: record_capacity_def Let_def split: if_splits)
qed (auto simp: accept_def mark_attempt_running_def finish_def set_blocker_def expire_def cancel_def
      intro: refl assms elim!: transact_cases)

lemma wf_observations [simp]: "wf_store (s\<lparr>capacity_observations := obs\<rparr>) = wf_store s"
  by (simp add: wf_store_def core_ok_def keys_ok_def rows_ok_def lease_ok_def workspace_ok_def
      log_ok_def revision_ok_def)

lemma wf_step: "store_step s s' \<Longrightarrow> wf_store s \<Longrightarrow> wf_store s'"
  by (erule store_step_committed [where P = "\<lambda>s s'. wf_store s \<longrightarrow> wf_store s'", THEN mp])
    (auto intro: wf_accept_tx wf_claim_tx wf_mark_attempt_running_tx wf_append wf_finish_tx
      wf_set_blocker_tx wf_expire_tx wf_cancel_tx wf_patch_scheduling_tx wf_reject_one_tx)

lemma wf_steps: "store_step\<^sup>*\<^sup>* s s' \<Longrightarrow> wf_store s \<Longrightarrow> wf_store s'"
  by (induction rule: rtranclp_induct) (auto intro: wf_step)

lemma wf_reachable: "reachable s \<Longrightarrow> wf_store s"
  unfolding reachable_def by (rule wf_steps [OF _ wf_empty_store])

lemma table_step_store_step: "store_step s s' \<Longrightarrow> table_step s s'"
  by (erule store_step_committed)
    (auto intro: table_accept_tx table_claim_tx table_mark_attempt_running_tx table_finish_tx
      table_set_blocker_tx table_expire_tx table_cancel_tx table_patch_scheduling_tx
      table_reject_one_tx table_step_same table_step_append)

section \<open>Rows along a path\<close>

lemma table_step_fetch:
  assumes "table_step s s'" and "fetch_submission i s = Some r"
  obtains r' where "fetch_submission i s' = Some r'" "row_step r r'"
proof -
  from assms(1) obtain g new where g: "submissions s' = map g (submissions s) @ new"
    and step: "\<forall>r \<in> set (submissions s). row_step r (g r)"
    by (auto simp: table_step_def)
  have "fetch_optional (\<lambda>r. s_submission_id r = i) (map g t) = Some (g r)"
    if "fetch_optional (\<lambda>r. s_submission_id r = i) t = Some r" "\<forall>r \<in> set t. row_step r (g r)" for t
    using that by (induction t) (auto simp: table_simps row_step_id split: if_splits)
  then have "fetch_submission i s' = Some (g r)"
    using assms(2) g step by (simp add: fetch_submission_def table_simps)
  moreover have "row_step r (g r)"
    using fetch_member [OF assms(2)] step by simp
  ultimately show thesis by (rule that)
qed

lemma fetch_along:
  assumes steps: "store_step\<^sup>*\<^sup>* s s'" and row: "fetch_submission i s = Some r"
  shows "\<exists>r'. fetch_submission i s' = Some r' \<and> row_step\<^sup>*\<^sup>* r r'"
  using steps
proof (induction rule: rtranclp_induct)
  case base
  then show ?case using row by blast
next
  case (step t u)
  then obtain r1 where r1: "fetch_submission i t = Some r1" "row_step\<^sup>*\<^sup>* r r1" by blast
  obtain r2 where "fetch_submission i u = Some r2" "row_step r1 r2"
    using table_step_fetch [OF table_step_store_step [OF step(2)] r1(1)] by blast
  then show ?case using r1(2) by (meson rtranclp.rtrancl_into_rtrancl)
qed

text \<open>The abstraction: the state of a Submission as the API reports it.\<close>

definition state_of :: "string \<Rightarrow> store \<Rightarrow> submission_state option" where
  "state_of i s = (case fetch_submission i s of None \<Rightarrow> None
     | Some r \<Rightarrow> (case parse_submission_state (s_state r) of Inl _ \<Rightarrow> None | Inr st \<Rightarrow> Some st))"

lemma state_of_Some: "(state_of i s = Some x) \<longleftrightarrow>
    (\<exists>r. fetch_submission i s = Some r \<and> s_state r = state_name x)"
  by (auto simp: state_of_def split: option.splits sum.splits)
    (simp add: parse_submission_state_Inr_iff)

lemma state_name_inj: "state_name x = state_name y \<longleftrightarrow> x = y"
  by (cases x; cases y) (simp_all add: state_name_def)

lemma state_step_state_name:
  "state_step (state_name x) y \<Longrightarrow> \<exists>z. y = state_name z \<and> (z = x \<or> lifecycle x z)"
  by (auto simp: state_step_def state_name_inj)

lemma live_iff: "s_state r = state_name x \<Longrightarrow> live r \<longleftrightarrow> \<not> terminal x"
  by (cases x) (simp_all add: live_def state_name_def)

lemma state_of_step:
  assumes "store_step s s'" and "state_of i s = Some x"
  shows "\<exists>y. state_of i s' = Some y \<and> (y = x \<or> lifecycle x y)"
proof -
  obtain r where r: "fetch_submission i s = Some r" "s_state r = state_name x"
    using assms(2) by (auto simp: state_of_Some)
  obtain r' where r': "fetch_submission i s' = Some r'" "row_step r r'"
    using table_step_fetch [OF table_step_store_step [OF assms(1)] r(1)] by blast
  then obtain z where "s_state r' = state_name z" "z = x \<or> lifecycle x z"
    using state_step_state_name [of x "s_state r'"] r(2) by (auto simp: row_step_def)
  then show ?thesis
    using r'(1) by (auto simp: state_of_Some)
qed

lemma only_events_trans: "only_events r r1 \<Longrightarrow> only_events r1 r2 \<Longrightarrow> only_events r r2"
  by (auto simp: only_events_def)

lemma row_step_frozen: "row_step r r' \<Longrightarrow> \<not> live r \<Longrightarrow> only_events r r' \<and> \<not> live r'"
  by (auto simp: row_step_def only_events_def live_def)

lemma row_steps_frozen: "row_step\<^sup>*\<^sup>* r r' \<Longrightarrow> \<not> live r \<Longrightarrow> only_events r r' \<and> \<not> live r'"
  by (induction rule: rtranclp_induct) (auto dest: row_step_frozen intro: only_events_trans)

lemma row_steps_monotone:
  "row_step\<^sup>*\<^sup>* r r' \<Longrightarrow> plan_of r' = plan_of r \<and> s_revision r \<le> s_revision r' \<and>
     s_latest_event_sequence r \<le> s_latest_event_sequence r' \<and>
     (s_cancel_requested r \<longrightarrow> s_cancel_requested r')"
proof (induction rule: rtranclp_induct)
  case (step r1 r2)
  have "s_revision r1 \<le> s_revision r2"
    using step(2) by (auto simp: row_step_def only_events_def)
  with step show ?case by (auto simp: row_step_def)
qed simp

text \<open>An unchanged revision means an unchanged row, up to its event counter.\<close>

lemma row_steps_revision:
  assumes "row_step\<^sup>*\<^sup>* r r'" and "s_revision r' = s_revision r"
  shows "only_events r r'"
  using assms
proof (induction rule: rtranclp_induct)
  case (step r1 r2)
  have "s_revision r \<le> s_revision r1"
    using row_steps_monotone [OF step(1)] by simp
  with step(2,4) have "only_events r1 r2" "s_revision r1 = s_revision r"
    by (auto simp: row_step_def only_events_def)
  with step(3) show ?case by (auto intro: only_events_trans)
qed simp

end
