(* ===== verification/StoreReads.thy ===== *)
theory StoreReads
  imports StoreSteps
begin

text \<open>
  What the reading methods return on a well-formed store: no decoding error can occur, the
  event log replays what was sent on the broadcast channel, and the queue is in order.
\<close>

section \<open>The log and the broadcast channel\<close>

definition log_step :: "store \<Rightarrow> store \<Rightarrow> bool" where
  "log_step s s' \<longleftrightarrow> (\<exists>evs. bus s' = bus s @ evs \<and> events s' = events s @ map event_row_of evs \<and>
     (\<forall>ev \<in> set evs. ev_session_id ev = None))"

lemma log_step_refl [simp]: "log_step s s"
  by (simp add: log_step_def)

lemma log_step_trans: "log_step s s1 \<Longrightarrow> log_step s1 s2 \<Longrightarrow> log_step s s2"
  by (auto simp: log_step_def)

lemma append_event_session:
  "append_event_tx st sid att ty data s = Inr (s', ev) \<Longrightarrow> ev_session_id ev = None"
  by (erule append_event_tx_Inr) simp

lemma log_one_event:
  assumes "append_event_tx st sid att ty data s1 = Inr (s2, ev)"
    and "events s1 = events s" "bus s1 = bus s"
  shows "log_step s (send_events [ev] s2)"
  using assms append_event_session [OF assms(1)]
  by (auto simp: log_step_def append_event_tx_parts [OF assms(1)])

lemma log_two_events:
  assumes "append_event_tx st sid att ty data s1 = Inr (s2, ev)"
    and "append_event_tx st' sid' att' ty' data' s2 = Inr (s3, ev')"
    and "events s1 = events s" "bus s1 = bus s"
  shows "log_step s (send_events [ev, ev'] s3)"
  using assms append_event_session [OF assms(1)] append_event_session [OF assms(2)]
  by (auto simp: log_step_def append_event_tx_parts [OF assms(1)] append_event_tx_parts [OF assms(2)])

lemma log_step_store_step: "store_step s s' \<Longrightarrow> log_step s s'"
proof (erule store_step_committed)
  show "log_step s s'" if "cancel_tx now st sid s = Inr (s', x)" for now st sid x
    using that by (cases x) (auto elim!: cancel_tx_Inr intro!: log_one_event)
  show "log_step s s'" if "append_event_tx st sid (Some aid) ty data s = Inr (s1, ev)"
    "s' = send_events [ev] s1" for st sid aid ty data s1 ev
    using log_one_event [OF that(1)] that(2) by simp
qed (auto simp: log_step_def [of s "s\<lparr>capacity_observations := _\<rparr>"] claimed_def finished_def
      elim!: accept_tx_Inr claim_tx_Inr mark_attempt_running_tx_Inr
      finish_tx_Inr set_blocker_tx_Inr finish_queued_tx_Inr patch_scheduling_tx_Inr reject_one_tx_Inr
      intro!: log_one_event log_two_events)

definition bus_ok :: "store \<Rightarrow> bool" where
  "bus_ok s \<longleftrightarrow> events s = map event_row_of (bus s) \<and> (\<forall>ev \<in> set (bus s). ev_session_id ev = None)"

lemma bus_reachable: "reachable s \<Longrightarrow> bus_ok s"
  unfolding reachable_def
proof (induction rule: rtranclp_induct)
  case base
  show ?case by (simp add: bus_ok_def empty_store_def)
next
  case (step s s')
  then show ?case
    using log_step_store_step [OF step(2)] by (auto simp: bus_ok_def log_step_def)
qed

section \<open>Events\<close>

lemma to_u64_ok: "0 \<le> n \<Longrightarrow> n < 2 ^ 64 \<Longrightarrow> to_u64 n = Inr (word_of_int n)"
  by (simp add: to_u64_def try_from_int_def)

lemma filter_upto: "0 \<le> k \<Longrightarrow> filter (\<lambda>x. k < x) [1..n] = [k + 1..n]"
proof (induction "nat n" arbitrary: n)
  case 0
  then show ?case by simp
next
  case (Suc m)
  then have "0 < n" "nat (n - 1) = m" by linarith+
  then have "filter (\<lambda>x. k < x) [1..n - 1] = [k + 1..n - 1]"
    using Suc by blast
  moreover have "[1..n] = [1..n - 1] @ [n]"
    using \<open>0 < n\<close> upto_rec2 [of 1 n] by simp
  moreover have "[k + 1..n] = (if k < n then [k + 1..n - 1] @ [n] else [])"
    using upto_rec2 [of "k + 1" n] by simp
  ultimately show ?case by simp
qed

text \<open>The rows \<open>events_after\<close> selects are numbered from the cursor to the counter.\<close>

lemma log_suffix:
  assumes log: "log_ok s" and row: "fetch_submission i s = Some r" and k: "0 \<le> k"
  shows "map e_sequence (filter (\<lambda>e. e_submission_id e = i \<and> k < e_sequence e) (events s)) =
    [k + 1..s_latest_event_sequence r]"
proof -
  have "map e_sequence (filter (\<lambda>e. e_submission_id e = i \<and> k < e_sequence e) (events s)) =
      filter (\<lambda>x. k < x) (sequences i (events s))"
    by (simp add: sequences_def filter_map comp_def conj_commute)
  also have "sequences i (events s) = [1..s_latest_event_sequence r]"
    using log fetch_member [OF row] by (auto simp: log_ok_def)
  finally show ?thesis by (simp add: filter_upto k)
qed

lemma sort_key_sorted: "sorted (map f xs) \<Longrightarrow> sort_key f xs = xs"
  by (simp add: sort_key_id_if_sorted)

lemma decode_event_ok: "0 \<le> e_sequence e \<Longrightarrow> e_sequence e < 2 ^ 63 \<Longrightarrow> decode_event e =
    Inr \<lparr>ev_event_id = e_event_id e, ev_submission_id = e_submission_id e,
      ev_session_id = None, ev_attempt_id = e_attempt_id e,
      ev_sequence = word_of_int (e_sequence e), ev_occurred_at = e_occurred_at e,
      ev_event_type = e_event_type e, ev_data = e_data e\<rparr>"
  by (simp add: decode_event_def to_u64_ok)

lemma decode_event_row: "ev_session_id ev = None \<Longrightarrow> decode_event (event_row_of ev) = Inr ev"
  using uint_lt2p [of "ev_sequence ev"]
  by (cases ev) (simp add: decode_event_def event_row_of_def to_u64_ok)

lemma count_known: "fetch_submission i s = Some r \<Longrightarrow>
    count_where (\<lambda>r. s_submission_id r = i) (submissions s) \<noteq> 0"
  by (auto simp: count_where_0_iff fetch_submission_def dest: fetch_optional_SomeD)

lemma events_after_bus:
  assumes "bus_ok s" and "log_ok s" and row: "fetch_submission i s = Some r"
    and k: "uint k < 2 ^ 63"
  shows "events_after i k s =
    Inr (filter (\<lambda>ev. ev_submission_id ev = i \<and> k < ev_sequence ev) (bus s))"
proof -
  let ?P = "\<lambda>e. e_submission_id e = i \<and> uint k < e_sequence e"
  let ?Q = "\<lambda>ev. ev_submission_id ev = i \<and> k < ev_sequence ev"
  have "sorted (map e_sequence (filter ?P (events s)))"
    by (simp add: log_suffix [OF assms(2) row])
  then have "sort_key e_sequence (filter ?P (events s)) = filter ?P (events s)"
    by (rule sort_key_sorted)
  also have "\<dots> = map event_row_of (filter ?Q (bus s))"
    using assms(1) by (simp add: bus_ok_def filter_map comp_def event_row_of_def word_less_def)
  finally have sel: "sort_key e_sequence (filter ?P (events s)) = map event_row_of (filter ?Q (bus s))" .
  have "traverse decode_event (map event_row_of evs) = Inr evs"
    if "\<forall>ev \<in> set evs. ev_session_id ev = None" for evs
    using that by (induction evs) (simp_all add: decode_event_row)
  then show ?thesis
    using assms(1) k count_known [OF row] sel by (simp add: events_after_def bus_ok_def)
qed

lemma log_suffix_bus:
  assumes "bus_ok s" and "log_ok s" and "fetch_submission i s = Some r"
  shows "map (\<lambda>ev. uint (ev_sequence ev))
      (filter (\<lambda>ev. ev_submission_id ev = i \<and> k < ev_sequence ev) (bus s)) =
    [uint k + 1..s_latest_event_sequence r]"
  using log_suffix [OF assms(2,3), of "uint k"] assms(1)
  by (simp add: bus_ok_def filter_map comp_def event_row_of_def word_less_def)

section \<open>Status and result\<close>

lemma attempt_decodes: "attempt_ok a \<Longrightarrow> \<exists>att. decode_attempt a = Inr att"
  by (auto simp: attempt_ok_def decode_attempt_def try_from_int_def parse_attempt_state_def)

lemma attempts_total:
  assumes "lease_ok s"
  shows "\<exists>atts. attempts_of i s = Inr atts \<and> length atts = count_where (owned i) (attempts s)"
proof -
  have total: "\<exists>atts. traverse decode_attempt as = Inr atts \<and> length atts = length as"
    if "\<forall>a \<in> set as. attempt_ok a" for as
    using that by (induction as) (use attempt_decodes in fastforce)+
  have "\<forall>a \<in> set (sort_key a_number (filter (\<lambda>a. a_submission_id a = i) (attempts s))). attempt_ok a"
    using assms by (simp add: lease_ok_def)
  from total [OF this] show ?thesis
    by (simp add: attempts_of_def count_where_def owned_def [abs_def])
qed

lemma wf_row:
  assumes "wf_store s" and "fetch_submission i s = Some r"
  shows "row_ok r" "lease_row_ok (attempts s) r" "s_submission_id r = i"
    "1 \<le> s_revision r" "s_revision r < 2 ^ 63" "0 \<le> s_latest_event_sequence r"
    "s_latest_event_sequence r < 2 ^ 63" "r \<in> set (submissions s)"
proof -
  note member = fetch_member [OF assms(2)]
  then show "s_submission_id r = i" "r \<in> set (submissions s)" by simp_all
  show "row_ok r" "lease_row_ok (attempts s) r"
    using assms(1) member by (auto simp: wf_store_def core_ok_def rows_ok_def lease_ok_def)
  then show "1 \<le> s_revision r" by (simp add: row_ok_def)
  have "s_revision r \<le> s_latest_event_sequence r"
    using assms(1) member by (auto simp: wf_store_def revision_ok_def)
  moreover show "0 \<le> s_latest_event_sequence r" "s_latest_event_sequence r < 2 ^ 63"
    using assms(1) member by (auto simp: wf_store_def log_ok_def)
  ultimately show "s_revision r < 2 ^ 63" by simp
qed

lemma wf_state: "wf_store s \<Longrightarrow> fetch_submission i s = Some r \<Longrightarrow> \<exists>x. s_state r = state_name x"
  using wf_row(1) by (fastforce simp: row_ok_def valid_state_def)

lemma status_total:
  assumes wf: "wf_store s" and row: "fetch_submission i s = Some r" and state: "s_state r = state_name x"
  shows "\<exists>st. status i s = Inr st \<and> st_submission_id st = i \<and> st_state st = x \<and>
    st_terminal st = terminal x \<and> uint (st_revision st) = s_revision r \<and>
    uint (st_latest_event_sequence st) = s_latest_event_sequence r \<and>
    length (st_attempts st) = count_where (owned i) (attempts s)"
proof -
  note facts = wf_row [OF wf row]
  obtain atts where atts: "attempts_of i s = Inr atts" "length atts = count_where (owned i) (attempts s)"
    using attempts_total [of s i] wf by (auto simp: wf_store_def core_ok_def)
  show ?thesis
    using facts atts row state
    by (simp add: status_def decode_status_def to_u64_ok uint_word_of_int_in_range)
qed

lemma status_unknown: "fetch_submission i s = None \<Longrightarrow> status i s = Inl NotFound"
  by (simp add: status_def)

lemma result_total:
  assumes wf: "wf_store s" and row: "fetch_submission i s = Some r" and state: "s_state r = state_name x"
  shows "if terminal x
    then \<exists>res. result_of i s = Inr res \<and> sr_submission_id res = i \<and> sr_state res = x \<and>
      sr_output res = map_option (\<lambda>t. OutputText t (s_result_truncated r)) (s_result_text r)
    else result_of i s = Inl NotQueued"
proof -
  obtain st where st: "status i s = Inr st" "st_state st = x" "st_terminal st = terminal x"
    using status_total [OF wf row state] by blast
  have "terminal x \<Longrightarrow> s_finished_at r \<noteq> None"
    using wf_row(1) [OF wf row] state by (cases x) (auto simp: row_ok_def state_name_def)
  then show ?thesis
    using st row by (auto simp: result_of_def parse_time_required_def)
qed

section \<open>The queue\<close>

lemma decode_queued_ok:
  assumes "row_ok r" and "s_state r = ''queued''" and "\<not> unfrozen r"
  shows "\<exists>q. decode_queued r = Inr q \<and> q_submission_id q = s_submission_id r \<and>
    uint (q_priority q) = s_priority r \<and> q_created_at q = s_created_at r"
  using assms
  by (auto simp: row_ok_def unfrozen_def decode_queued_def try_from_int_def uint_word_of_int_in_range)

definition before_in_queue :: "queued_submission \<Rightarrow> queued_submission \<Rightarrow> bool" where
  "before_in_queue q1 q2 \<longleftrightarrow> q_priority q2 < q_priority q1 \<or>
     q_priority q2 = q_priority q1 \<and> q_created_at q1 \<le> q_created_at q2"

lemma decoded_sorted:
  assumes "list_all2 (\<lambda>r q. uint (q_priority q) = s_priority r \<and> q_created_at q = s_created_at r) rs qs"
    and "sorted (map (\<lambda>r. (- s_priority r, s_created_at r)) rs)"
  shows "sorted_wrt before_in_queue qs"
  using assms
proof (induction rs qs rule: list_all2_induct)
  case (Cons r rs q qs)
  have "before_in_queue q q'" if q': "q' \<in> set qs" for q'
  proof -
    obtain r' where r': "r' \<in> set rs" "uint (q_priority q') = s_priority r'" "q_created_at q' = s_created_at r'"
      using list_all2_setD [OF Cons(2) q'] by auto
    have "(- s_priority r, s_created_at r) \<le> (- s_priority r', s_created_at r')"
      using Cons.prems r'(1) by auto
    then show ?thesis
      using Cons(1) r' by (auto simp: before_in_queue_def less_eq_prod_def word_less_def word_uint_eq_iff)
  qed
  with Cons show ?case by simp
qed simp

lemma queued_total:
  assumes wf: "wf_store s" and frozen: "\<forall>r \<in> set (submissions s). \<not> unfrozen r"
  shows "\<exists>qs. queued s = Inr qs \<and> sorted_wrt before_in_queue qs \<and>
    q_submission_id ` set qs = {i. state_of i s = Some Queued}"
proof -
  let ?rs = "sort_key (\<lambda>r. (- s_priority r, s_created_at r))
    (filter (\<lambda>r. s_state r = ''queued'') (submissions s))"
  have rows: "\<forall>r \<in> set ?rs. row_ok r \<and> s_state r = ''queued'' \<and> \<not> unfrozen r"
    using wf frozen by (auto simp: wf_store_def core_ok_def rows_ok_def)
  have "\<forall>r \<in> set ?rs. \<exists>q. decode_queued r = Inr q \<and> (q_submission_id q = s_submission_id r \<and>
      uint (q_priority q) = s_priority r \<and> q_created_at q = s_created_at r)"
    using rows decode_queued_ok by blast
  from traverse_total [OF this] obtain qs where qs: "traverse decode_queued ?rs = Inr qs"
    and all: "list_all2 (\<lambda>r q. q_submission_id q = s_submission_id r \<and>
      uint (q_priority q) = s_priority r \<and> q_created_at q = s_created_at r) ?rs qs" by blast
  have "sorted_wrt before_in_queue qs"
    by (rule decoded_sorted [of ?rs]) (use all in \<open>auto elim: list_all2_mono\<close>)
  moreover have "q_submission_id ` set qs = s_submission_id ` set ?rs"
  proof -
    have "map q_submission_id qs = map s_submission_id ?rs"
      by (rule list_all2_map_eq [OF all]) simp
    from arg_cong [OF this, of set] show ?thesis by simp
  qed
  moreover have "s_submission_id ` set ?rs = {i. state_of i s = Some Queued}"
  proof (intro set_eqI iffI)
    fix i
    assume "i \<in> s_submission_id ` set ?rs"
    then obtain r where r: "r \<in> set (submissions s)" "s_state r = ''queued''" "s_submission_id r = i"
      by auto
    then have "fetch_submission i s = Some r"
      using fetch_key_distinct [of s_submission_id "submissions s" r] wf
      by (simp add: fetch_submission_def wf_store_def keys_distinct)
    then show "i \<in> {i. state_of i s = Some Queued}"
      using r by (simp add: state_of_Some state_name_def)
  next
    fix i
    assume "i \<in> {i. state_of i s = Some Queued}"
    then show "i \<in> s_submission_id ` set ?rs"
      by (auto simp: state_of_Some state_name_def dest: fetch_member)
  qed
  ultimately show ?thesis
    using qs by (auto simp: queued_def)
qed

end
