(* ===== verification/Recovery.thy ===== *)
theory Recovery
  imports StoreReads
begin

text \<open>
  When the store's transactions succeed, and what the two start-up loops of
  \<open>crates/service/src/scheduler.rs\<close> leave behind: \<open>recover_running_as_uncertain\<close> and
  \<open>reject_unfrozen_queued\<close>. Event identifiers come from the environment; that they are new
  (\<open>fresh_ids\<close>) is what the code relies on ULIDs for.
\<close>

section \<open>Fresh identifiers and room for events\<close>

definition fresh_ids :: "string list \<Rightarrow> store \<Rightarrow> bool" where
  "fresh_ids ids s \<longleftrightarrow> distinct ids \<and>
     (\<forall>x \<in> set ids. ''evt_'' @ x \<notin> e_event_id ` set (events s))"

definition room :: "int \<Rightarrow> string \<Rightarrow> store \<Rightarrow> bool" where
  "room k i s \<longleftrightarrow> (\<forall>r. fetch_submission i s = Some r \<longrightarrow> s_latest_event_sequence r + k < 2 ^ 63)"

lemma roomI: "\<forall>r \<in> set (submissions s). s_latest_event_sequence r + k < 2 ^ 63 \<Longrightarrow> room k i s"
  by (auto simp: room_def dest: fetch_member)

lemma fetch_after_append:
  "append_event_tx st sid att ty data s = Inr (s', ev) \<Longrightarrow> fetch_submission i s' =
     map_option (\<lambda>r. if s_submission_id r = sid then bump_sequence r else r) (fetch_submission i s)"
  by (simp add: fetch_submission_def append_event_tx_parts bumping.fetch_update)

lemma fetch_after_update:
  assumes "submissions s' = update_where p f (submissions s)"
    and "\<And>r. s_submission_id (f r) = s_submission_id r"
  shows "fetch_submission i s' = map_option (\<lambda>r. if p r then f r else r) (fetch_submission i s)"
  unfolding fetch_submission_def assms(1) by (rule fetch_update_where) (simp add: assms(2))

lemma fetch_send [simp]: "fetch_submission i (send_events evs s) = fetch_submission i s"
  by (simp add: fetch_submission_def)

lemma state_of_after_append:
  assumes "append_event_tx st sid att ty data s = Inr (s', ev)"
  shows "state_of i s' = state_of i s"
  by (simp add: state_of_def fetch_after_append [OF assms] split: option.split)

lemma state_of_send [simp]: "state_of i (send_events evs s) = state_of i s"
  by (simp add: state_of_def)

lemma append_event_ok:
  assumes log: "log_ok s" and row: "fetch_submission sid s = Some r"
    and fresh: "fresh_ids [fst st] s" and room: "room 1 sid s"
  shows "\<exists>s' ev. append_event_tx st sid att ty data s = Inr (s', ev)"
proof -
  have r: "r \<in> set (submissions s)" "s_submission_id r = sid"
    using fetch_member [OF row] by simp_all
  have range: "0 \<le> s_latest_event_sequence r" "s_latest_event_sequence r + 1 < 2 ^ 63"
    using log r(1) room row by (auto simp: log_ok_def room_def)
  have "sequences sid (events s) = [1..s_latest_event_sequence r]"
    using log r by (auto simp: log_ok_def)
  then have "\<forall>x \<in> set (sequences sid (events s)). x \<noteq> s_latest_event_sequence r + 1"
    by simp
  then have "\<forall>e \<in> set (events s). e_submission_id e = sid \<longrightarrow>
      e_sequence e \<noteq> s_latest_event_sequence r + 1"
    by (auto simp: sequences_def)
  moreover have "fetch_optional (\<lambda>r. s_submission_id r = sid)
      (update_where (\<lambda>r. s_submission_id r = sid) bump_sequence (submissions s)) = Some (bump_sequence r)"
    using row r by (simp add: bumping.fetch_update fetch_submission_def)
  moreover have "uint (word_of_int (s_latest_event_sequence r + 1) :: u64) = s_latest_event_sequence r + 1"
    by (rule uint_word_of_int_in_range) (use range in simp_all)
  ultimately show ?thesis
    using range fresh
    by (auto simp: append_event_tx_def Let_def to_u64_ok list_ex_iff fresh_ids_def image_iff
        simp del: of_int_add)
qed

lemma room_after_append:
  assumes app: "append_event_tx st sid att ty data s = Inr (s', ev)" and room: "room (k + 1) i s"
  shows "room k i s'"
  using room by (auto simp: room_def fetch_after_append [OF app] algebra_simps)

lemma fresh_after_append:
  assumes app: "append_event_tx st sid att ty data s = Inr (s', ev)"
    and fresh: "fresh_ids (fst st # ids) s"
  shows "fresh_ids ids s'"
proof -
  have "ev_event_id ev = ''evt_'' @ fst st"
    by (rule append_event_tx_Inr [OF app]) simp
  then show ?thesis
    using fresh by (auto simp: fresh_ids_def append_event_tx_parts(3) [OF app] event_row_of_def)
qed

lemma fresh_ids_tail: "fresh_ids (x # ids) s \<Longrightarrow> fresh_ids ids s"
  by (simp add: fresh_ids_def)

lemma fresh_ids_head: "fresh_ids (x # ids) s \<Longrightarrow> fresh_ids [x] s"
  by (simp add: fresh_ids_def)

lemma two_events_ok:
  assumes core: "core_ok s" and log: "log_ok s" and row: "fetch_submission sid s = Some r"
    and fresh: "fresh_ids (fst st1 # fst st2 # ids) s" and room: "room 2 sid s"
  shows "\<exists>s1 ev1 s2 ev2. append_event_tx st1 sid att1 ty1 data1 s = Inr (s1, ev1) \<and>
    append_event_tx st2 sid att2 ty2 data2 s1 = Inr (s2, ev2) \<and> fresh_ids ids s2"
proof -
  have "room 1 sid s"
    using room by (auto simp: room_def)
  then obtain s1 ev1 where one: "append_event_tx st1 sid att1 ty1 data1 s = Inr (s1, ev1)"
    using append_event_ok [OF log row] fresh_ids_head [OF fresh] by blast
  have fresh1: "fresh_ids (fst st2 # ids) s1"
    by (rule fresh_after_append [OF one fresh])
  have room1: "room 1 sid s1"
    by (rule room_after_append [OF one]) (simp add: room)
  have row1: "\<exists>r. fetch_submission sid s1 = Some r"
    using row by (simp add: fetch_after_append [OF one])
  then obtain s2 ev2 where two: "append_event_tx st2 sid att2 ty2 data2 s1 = Inr (s2, ev2)"
    using append_event_ok [OF log_ok_append [OF one keys_distinct [OF core] log] _ fresh_ids_head [OF fresh1] room1]
    by blast
  show ?thesis
    using one two fresh_after_append [OF two fresh1] by blast
qed

section \<open>Finishing an active attempt\<close>

lemma active_attempt_running:
  assumes wf: "wf_store s" and a: "a \<in> set (attempts s)" "active_attempt a"
  obtains r where "fetch_submission (a_submission_id a) s = Some r" "s_state r = ''running''"
proof -
  have core: "core_ok s" using wf by (simp add: wf_store_def)
  then obtain r where r: "r \<in> set (submissions s)" "s_submission_id r = a_submission_id a"
    using a(1) by (auto simp: core_ok_def keys_ok_def)
  then have "fetch_submission (a_submission_id a) s = Some r"
    using fetch_key_distinct [of s_submission_id "submissions s" r] keys_distinct [OF core]
    by (simp add: fetch_submission_def)
  moreover have "lease_row_ok (attempts s) r"
    using core r by (simp add: core_ok_def lease_ok_def)
  moreover have "0 < count_where (\<lambda>b. owned (s_submission_id r) b \<and> active_attempt b) (attempts s)"
    using a r(2) by (auto simp: count_where_positive owned_def)
  ultimately show thesis
    by (intro that [of r]) (auto simp: lease_row_ok_def split: if_splits)
qed

lemma finish_counts:
  assumes wf: "wf_store s" and a: "a \<in> set (attempts s)" "active_attempt a"
    and spec: "fin_submission_id spec = a_submission_id a" "fin_attempt_id spec = a_attempt_id a"
  shows "count_where (finishing_row spec) (submissions s) = 1"
    and "count_where (finishing_attempt_row spec) (attempts s) = 1"
proof -
  have core: "core_ok s" using wf by (simp add: wf_store_def)
  obtain r where r: "fetch_submission (a_submission_id a) s = Some r" "s_state r = ''running''"
    using active_attempt_running [OF wf a] .
  then show "count_where (finishing_row spec) (submissions s) = 1"
    using count_key_distinct [OF keys_distinct [OF core], of "a_submission_id a" "\<lambda>r. s_state r = ''running''"]
    by (simp add: fetch_submission_def spec)
  have "distinct (map a_attempt_id (attempts s))"
    using core by (simp add: core_ok_def keys_ok_def)
  then show "count_where (finishing_attempt_row spec) (attempts s) = 1"
    using count_key_distinct [of a_attempt_id "attempts s" "a_attempt_id a"
        "\<lambda>b. a_submission_id b = a_submission_id a \<and> active_attempt b"]
      fetch_key_distinct [of a_attempt_id "attempts s" a] a
    by (simp add: spec)
qed

lemma fetch_finished: "fetch_submission i (finished now name spec s) =
    map_option (\<lambda>r. if finishing_row spec r then finish_submission now spec r else r)
      (fetch_submission i s)"
proof (rule fetch_after_update)
  show "submissions (finished now name spec s) =
      update_where (finishing_row spec) (finish_submission now spec) (submissions s)"
    by (simp add: finished_def)
qed (simp add: finish_submission_def)

lemma finish_tx_ok:
  assumes wf: "wf_store s" and a: "a \<in> set (attempts s)" "active_attempt a"
    and spec: "fin_submission_id spec = a_submission_id a" "fin_attempt_id spec = a_attempt_id a"
    and name: "finish_attempt_state (fin_state spec) = Some name"
    and fresh: "fresh_ids (fst st1 # fst st2 # ids) s" and room: "room 2 (a_submission_id a) s"
  shows "\<exists>s'. finish_tx now st1 st2 spec s = Inr (s', ()) \<and> fresh_ids ids s'"
proof -
  let ?s0 = "finished now name spec s"
  note counts = finish_counts [OF wf a spec]
  note ok = finished_ok [OF wf name counts]
  obtain r where r: "fetch_submission (a_submission_id a) s = Some r"
    using active_attempt_running [OF wf a] by blast
  note fetch = fetch_finished [of _ now name spec s]
  have "room 2 (fin_submission_id spec) ?s0"
    using room by (auto simp: room_def fetch spec finish_submission_def)
  moreover have "fresh_ids (fst st1 # fst st2 # ids) ?s0"
    using fresh by (simp add: fresh_ids_def finished_def)
  moreover have "\<exists>r0. fetch_submission (fin_submission_id spec) ?s0 = Some r0"
    using r by (simp add: fetch spec)
  ultimately obtain s1 ev1 s2 ev2 where
    "append_event_tx st1 (fin_submission_id spec) (Some (fin_attempt_id spec)) ''attempt.state_changed''
       (JObject [(''to'', JString name)]) ?s0 = Inr (s1, ev1)"
    "append_event_tx st2 (fin_submission_id spec) (Some (fin_attempt_id spec)) ''submission.state_changed''
       (JObject [(''from'', JString ''running''), (''to'', JString (state_name (fin_state spec)))]) s1
       = Inr (s2, ev2)" "fresh_ids ids s2"
    using two_events_ok [OF ok(1,2)] by blast
  then show ?thesis
    using name counts
    by (auto simp: finish_tx_def Let_def result_simps finished_def [symmetric] fresh_ids_def)
qed

lemma attempts_after_finish:
  assumes "finish_tx now st1 st2 spec s = Inr (s', u)"
  obtains name where "finish_attempt_state (fin_state spec) = Some name"
    and "attempts s' = update_where (finishing_attempt_row spec) (finish_attempt now name spec) (attempts s)"
  by (rule finish_tx_Inr [OF assms]) (simp add: append_event_tx_parts finished_def)

lemma fetch_after_finish:
  assumes "finish_tx now st1 st2 spec s = Inr (s', u)" and "fetch_submission i s = Some r"
  shows "\<exists>r'. fetch_submission i s' = Some r' \<and>
    (if i = fin_submission_id spec
     then s_state r' = (if s_state r = ''running'' then state_name (fin_state spec) else s_state r)
     else r' = r)"
  using assms(1)
proof (rule finish_tx_Inr)
  fix name s1 s2 ev1 ev2
  assume app: "append_event_tx st1 (fin_submission_id spec) (Some (fin_attempt_id spec))
       ''attempt.state_changed'' (JObject [(''to'', JString name)]) (finished now name spec s)
       = Inr (s1, ev1)"
    "append_event_tx st2 (fin_submission_id spec) (Some (fin_attempt_id spec)) ''submission.state_changed''
       (JObject [(''from'', JString ''running''), (''to'', JString (state_name (fin_state spec)))]) s1
       = Inr (s2, ev2)"
    and s': "s' = send_events [ev1, ev2] s2"
  have id: "s_submission_id r = i"
    using fetch_member [OF assms(2)] by simp
  have "s_submission_id (finish_submission now spec r) = s_submission_id r"
    "s_state (finish_submission now spec r) = state_name (fin_state spec)"
    by (simp_all add: finish_submission_def)
  with id show ?thesis
    by (simp add: s' fetch_after_append [OF app(1)] fetch_after_append [OF app(2)] fetch_finished assms(2))
qed

lemma finishing_row_fetch:
  assumes "wf_store s" and "count_where (finishing_row spec) (submissions s) = 1"
  obtains r where "fetch_submission (fin_submission_id spec) s = Some r" "s_state r = ''running''"
proof -
  have "distinct (map s_submission_id (submissions s))"
    using assms(1) by (simp add: wf_store_def keys_distinct)
  then show thesis
    using count_key_distinct [of s_submission_id "submissions s" "fin_submission_id spec" "\<lambda>r. s_state r = ''running''"]
      assms(2) that
    by (simp add: fetch_submission_def split: option.splits if_splits)
qed

lemma fetch_none_after_finish:
  assumes "finish_tx now st1 st2 spec s = Inr (s', u)" and "fetch_submission i s = None"
  shows "fetch_submission i s' = None"
  using assms(1) by (rule finish_tx_Inr) (simp add: fetch_after_append fetch_finished assms(2))

lemma state_of_after_finish:
  assumes wf: "wf_store s" and fin: "finish_tx now st1 st2 spec s = Inr (s', u)"
  shows "state_of i s' = (if i = fin_submission_id spec then Some (fin_state spec) else state_of i s)"
proof (cases "i = fin_submission_id spec")
  case True
  have "count_where (finishing_row spec) (submissions s) = 1"
    using fin by (rule finish_tx_Inr)
  then obtain r where r: "fetch_submission (fin_submission_id spec) s = Some r" "s_state r = ''running''"
    using finishing_row_fetch [OF wf] by blast
  then show ?thesis
    using fetch_after_finish [OF fin r(1)] True by (auto simp: state_of_Some)
next
  case False
  show ?thesis
  proof (cases "fetch_submission i s")
    case None
    then show ?thesis
      using fetch_none_after_finish [OF fin None] False by (simp add: state_of_def)
  next
    case (Some r)
    then show ?thesis
      using fetch_after_finish [OF fin Some] False by (auto simp: state_of_def)
  qed
qed

section \<open>\<open>recover_running_as_uncertain\<close>\<close>

definition recovery_ids :: "(string \<Rightarrow> time \<times> stamp \<times> stamp) \<Rightarrow> attempt_row list \<Rightarrow> string list" where
  "recovery_ids env as =
     concat (map (\<lambda>a. case env (a_attempt_id a) of (now, st1, st2) \<Rightarrow> [fst st1, fst st2]) as)"

lemma recover_loop_ok:
  assumes "wf_store s" and "\<forall>a \<in> set as. a \<in> set (attempts s) \<and> active_attempt a"
    and "distinct (map a_attempt_id as)" and "distinct (map a_submission_id as)"
    and "fresh_ids (recovery_ids env as) s"
    and "\<forall>a \<in> set as. room 2 (a_submission_id a) s"
  shows "\<exists>s'. recover_loop env as n s = (s', Inr (n + of_nat (length as))) \<and> store_step\<^sup>*\<^sup>* s s' \<and>
    (\<forall>i. state_of i s' = (if i \<in> a_submission_id ` set as then Some Uncertain else state_of i s))"
  using assms
proof (induction as arbitrary: n s)
  case Nil
  then show ?case by simp
next
  case (Cons a as)
  obtain now st1 st2 where env: "env (a_attempt_id a) = (now, st1, st2)"
    by (metis prod_cases3)
  let ?spec = "recover_spec a"
  have spec: "fin_submission_id ?spec = a_submission_id a" "fin_attempt_id ?spec = a_attempt_id a"
    "fin_state ?spec = Uncertain" "finish_attempt_state (fin_state ?spec) = Some ''uncertain''"
    by (simp_all add: recover_spec_def)
  have a: "a \<in> set (attempts s)" "active_attempt a" "room 2 (a_submission_id a) s"
    using Cons.prems by simp_all
  have fresh: "fresh_ids (fst st1 # fst st2 # recovery_ids env as) s"
    using Cons.prems(5) by (simp add: recovery_ids_def env)
  obtain s1 where fin: "finish_tx now st1 st2 ?spec s = Inr (s1, ())"
    and fresh1: "fresh_ids (recovery_ids env as) s1"
    using finish_tx_ok [OF Cons.prems(1) a(1,2) spec(1,2,4) fresh a(3)] by blast
  have step: "store_step s s1"
    by (rule store_step.finishing [of now st1 st2 ?spec _ _ "Inr ()"])
      (simp add: finish_def transact_def fin)
  have wf1: "wf_store s1"
    by (rule wf_step [OF step Cons.prems(1)])
  have state: "state_of i s1 = (if i = a_submission_id a then Some Uncertain else state_of i s)" for i
    using state_of_after_finish [OF Cons.prems(1) fin] by (simp add: spec)
  have keep: "b \<in> set (attempts s1)" if "b \<in> set as" for b
  proof -
    have "b \<in> set (attempts s)" "a_attempt_id b \<noteq> a_attempt_id a"
      using that Cons.prems(2,3) by (auto simp: image_iff)
    then show ?thesis
      using fin by (auto elim!: attempts_after_finish simp: set_update_where spec)
  qed
  have room1: "room 2 (a_submission_id b) s1" if "b \<in> set as" for b
  proof -
    have "a_submission_id b \<noteq> a_submission_id a"
      using that Cons.prems(4) by (auto simp: image_iff)
    then have "fetch_submission (a_submission_id b) s1 = fetch_submission (a_submission_id b) s"
      using fetch_after_finish [OF fin] fetch_none_after_finish [OF fin] spec(1)
      by (cases "fetch_submission (a_submission_id b) s") fastforce+
    then show ?thesis
      using that Cons.prems(6) by (simp add: room_def)
  qed
  obtain s' where s': "recover_loop env as (n + 1) s1 = (s', Inr (n + 1 + of_nat (length as)))"
    "store_step\<^sup>*\<^sup>* s1 s'"
    "\<forall>i. state_of i s' = (if i \<in> a_submission_id ` set as then Some Uncertain else state_of i s1)"
    using Cons.IH [OF wf1, of "n + 1"] Cons.prems keep room1 fresh1 by auto
  have "recover_loop env (a # as) n s = (s', Inr (n + of_nat (length (a # as))))"
    using s'(1) by (simp add: env finish_def transact_def fin add.assoc)
  moreover have "store_step\<^sup>*\<^sup>* s s'"
    using step s'(2) by (rule converse_rtranclp_into_rtranclp)
  ultimately show ?case
    using s'(3) state by auto
qed

lemma active_owners_distinct:
  assumes wf: "wf_store s"
  shows "distinct (map a_submission_id (filter active_attempt (attempts s)))"
proof -
  have one: "count_where (\<lambda>a. a_submission_id a = i \<and> active_attempt a) (attempts s) \<le> 1" for i
  proof (cases "\<exists>r \<in> set (submissions s). s_submission_id r = i")
    case True
    then obtain r where "r \<in> set (submissions s)" "s_submission_id r = i" by blast
    then have "lease_row_ok (attempts s) r"
      using wf by (simp add: wf_store_def core_ok_def lease_ok_def)
    then show ?thesis
      using \<open>s_submission_id r = i\<close> by (simp add: lease_row_ok_def owned_def split: if_splits)
  next
    case False
    then have "count_where (\<lambda>a. a_submission_id a = i \<and> active_attempt a) (attempts s) = 0"
      using wf by (fastforce simp: count_where_0_iff wf_store_def core_ok_def keys_ok_def)
    then show ?thesis by simp
  qed
  have "distinct (map a_submission_id (filter active_attempt as))"
    if "\<forall>i. count_where (\<lambda>a. a_submission_id a = i \<and> active_attempt a) as \<le> 1" for as
    using that
  proof (induction as)
    case (Cons a as)
    have rest: "\<forall>i. count_where (\<lambda>a. a_submission_id a = i \<and> active_attempt a) as \<le> 1"
    proof
      fix i
      have "count_where (\<lambda>a. a_submission_id a = i \<and> active_attempt a) as \<le>
          count_where (\<lambda>a. a_submission_id a = i \<and> active_attempt a) (a # as)"
        by (simp add: table_simps)
      then show "count_where (\<lambda>a. a_submission_id a = i \<and> active_attempt a) as \<le> 1"
        using Cons.prems by (blast intro: order_trans)
    qed
    have "active_attempt a \<Longrightarrow>
        count_where (\<lambda>b. a_submission_id b = a_submission_id a \<and> active_attempt b) as = 0"
      using Cons.prems [rule_format, of "a_submission_id a"] by (simp add: table_simps)
    then show ?case
      using Cons.IH [OF rest] by (auto simp: count_where_0_iff)
  qed simp
  then show ?thesis using one by blast
qed

lemma active_owners:
  assumes wf: "wf_store s"
  shows "a_submission_id ` set (filter active_attempt (attempts s)) = {i. state_of i s = Some Running}"
proof (intro set_eqI iffI)
  fix i
  assume "i \<in> a_submission_id ` set (filter active_attempt (attempts s))"
  then obtain a where a: "a \<in> set (attempts s)" "active_attempt a" "i = a_submission_id a"
    by auto
  show "i \<in> {i. state_of i s = Some Running}"
    using active_attempt_running [OF wf a(1,2)] a(3) by (auto simp: state_of_Some state_name_def)
next
  fix i
  assume "i \<in> {i. state_of i s = Some Running}"
  then obtain r where r: "fetch_submission i s = Some r" "s_state r = ''running''"
    by (auto simp: state_of_Some state_name_def)
  then have "0 < count_where (\<lambda>a. owned i a \<and> active_attempt a) (attempts s)"
    using wf_row(2,3) [OF wf r(1)] by (simp add: lease_row_ok_def)
  then show "i \<in> a_submission_id ` set (filter active_attempt (attempts s))"
    by (auto simp: count_where_positive owned_def)
qed

lemma recover_ok:
  assumes wf: "wf_store s"
    and fresh: "fresh_ids (recovery_ids env (filter active_attempt (attempts s))) s"
    and room: "\<And>i. state_of i s = Some Running \<Longrightarrow> room 2 i s"
  shows "\<exists>s' n. recover_running_as_uncertain env s = (s', Inr n) \<and> store_step\<^sup>*\<^sup>* s s' \<and>
    (\<forall>i. state_of i s' = (if state_of i s = Some Running then Some Uncertain else state_of i s))"
proof -
  let ?as = "filter active_attempt (attempts s)"
  note owners = active_owners [OF wf]
  have members: "\<forall>a \<in> set ?as. a \<in> set (attempts s) \<and> active_attempt a"
    by simp
  have ids: "distinct (map a_attempt_id ?as)"
    using wf by (simp add: wf_store_def core_ok_def keys_ok_def distinct_map_filter)
  have rooms: "\<forall>a \<in> set ?as. room 2 (a_submission_id a) s"
    using owners room by blast
  show ?thesis
    using recover_loop_ok [OF wf members ids active_owners_distinct [OF wf] fresh rooms, of 0] owners
    by (auto simp: recover_running_as_uncertain_def)
qed

section \<open>\<open>reject_unfrozen_queued\<close>\<close>

lemma fetch_row_update:
  assumes "append_event_tx st sid att ty data
      (s\<lparr>submissions := update_where p f (submissions s)\<rparr>) = Inr (s', ev)"
    and "\<And>r. s_submission_id (f r) = s_submission_id r"
  shows "fetch_submission i s' = map_option (\<lambda>r. let q = if p r then f r else r
    in if s_submission_id r = sid then bump_sequence q else q) (fetch_submission i s)"
proof -
  have "fetch_submission i (s\<lparr>submissions := update_where p f (submissions s)\<rparr>) =
      map_option (\<lambda>r. if p r then f r else r) (fetch_submission i s)"
    by (rule fetch_after_update) (simp_all add: assms(2))
  then show ?thesis
    by (cases "fetch_submission i s") (simp_all add: fetch_after_append [OF assms(1)] assms(2) Let_def)
qed

lemma reject_row_simps [simp]:
  "s_submission_id (reject_row now r) = s_submission_id r"
  "s_state (reject_row now r) = ''failed''"
  "s_latest_event_sequence (reject_row now r) = s_latest_event_sequence r"
  by (simp_all add: reject_row_def leave_queue_def)

lemma reject_one_ok:
  assumes wf: "wf_store s" and row: "fetch_submission i s = Some r" "s_state r = ''queued''"
    and fresh: "fresh_ids (fst st # ids) s" and room: "room 1 i s"
  shows "\<exists>s'. reject_one_tx now st i s = Inr (s', True) \<and> fresh_ids ids s' \<and>
    fetch_submission i s' = Some (bump_sequence (reject_row now r)) \<and>
    (\<forall>j. j \<noteq> i \<longrightarrow> fetch_submission j s' = fetch_submission j s)"
proof -
  let ?s0 = "s\<lparr>submissions := update_where (queued_row i) (reject_row now) (submissions s)\<rparr>"
  have fetch: "fetch_submission j ?s0 =
      map_option (\<lambda>r. if queued_row i r then reject_row now r else r) (fetch_submission j s)" for j
    by (rule fetch_after_update) simp_all
  have "log_ok ?s0"
    using wf by (simp add: wf_store_def rejection.log_change)
  moreover have "fetch_submission i ?s0 = Some (reject_row now r)"
    using row fetch_member [OF row(1)] by (simp add: fetch)
  moreover have "fresh_ids [fst st] ?s0"
    using fresh by (simp add: fresh_ids_def)
  moreover have "room 1 i ?s0"
    using room row by (simp add: room_def fetch)
  ultimately obtain s1 ev where app: "append_event_tx st i None ''submission.state_changed''
      (JObject [(''from'', JString ''queued''), (''reason'', JString ''configuration_snapshot_missing''),
         (''to'', JString ''failed'')]) ?s0 = Inr (s1, ev)"
    using append_event_ok by blast
  have "count_where (queued_row i) (submissions s) \<noteq> 0"
    using row fetch_member [OF row(1)] by (auto simp: count_where_0_iff)
  then have "reject_one_tx now st i s = Inr (send_events [ev] s1, True)"
    using app by (simp add: reject_one_tx_def reject_row_def [abs_def])
  moreover have "fresh_ids ids (send_events [ev] s1)"
    using fresh_after_append [OF app, of ids] fresh by (simp add: fresh_ids_def)
  moreover have "fetch_submission i s1 = Some (bump_sequence (reject_row now r))"
    using row fetch_member [OF row(1)] by (simp add: fetch_row_update [OF app] Let_def)
  moreover have "fetch_submission j s1 = fetch_submission j s" if "j \<noteq> i" for j
    using that by (cases "fetch_submission j s") (auto simp: fetch_row_update [OF app] Let_def dest: fetch_member)
  ultimately show ?thesis by auto
qed

definition rejection_ids :: "(string \<Rightarrow> time \<times> stamp) \<Rightarrow> string list \<Rightarrow> string list" where
  "rejection_ids env is = map (\<lambda>i. fst (snd (env i))) is"

lemma reject_loop_ok:
  assumes "wf_store s" and "distinct is" and "fresh_ids (rejection_ids env is) s"
    and "\<forall>i \<in> set is. state_of i s = Some Queued \<and> room 1 i s"
  shows "\<exists>s' m. reject_loop env is n s = (s', Inr m) \<and> store_step\<^sup>*\<^sup>* s s' \<and>
    (\<forall>i. if i \<in> set is then state_of i s' = Some Failed
      else fetch_submission i s' = fetch_submission i s)"
  using assms
proof (induction "is" arbitrary: n s)
  case Nil
  then show ?case by simp
next
  case (Cons i "is")
  obtain now st where env: "env i = (now, st)" by (cases "env i")
  obtain r where r: "fetch_submission i s = Some r" "s_state r = ''queued''"
    using Cons.prems(4) by (auto simp: state_of_Some state_name_def)
  have fresh: "fresh_ids (fst st # rejection_ids env is) s"
    using Cons.prems(3) by (simp add: rejection_ids_def env)
  have "room 1 i s" using Cons.prems(4) by simp
  then obtain s1 where tx: "reject_one_tx now st i s = Inr (s1, True)"
    and fresh1: "fresh_ids (rejection_ids env is) s1"
    and here: "fetch_submission i s1 = Some (bump_sequence (reject_row now r))"
    and others: "\<forall>j. j \<noteq> i \<longrightarrow> fetch_submission j s1 = fetch_submission j s"
    using reject_one_ok [OF Cons.prems(1) r fresh] by blast
  have step: "store_step s s1"
    by (rule store_step.rejecting [of now st i _ _ "Inr True"]) (simp add: transact_def tx)
  have same: "state_of j s1 = state_of j s" "room 1 j s1 = room 1 j s" if "j \<noteq> i" for j
    using others that by (simp_all add: state_of_def room_def)
  have "\<forall>j \<in> set is. state_of j s1 = Some Queued \<and> room 1 j s1"
    using Cons.prems(2,4) same by (metis distinct.simps(2) list.set_intros(2))
  then obtain s' m where s': "reject_loop env is (saturating_add n 1) s1 = (s', Inr m)"
    "store_step\<^sup>*\<^sup>* s1 s'"
    "\<forall>j. if j \<in> set is then state_of j s' = Some Failed
      else fetch_submission j s' = fetch_submission j s1"
    using Cons.IH [OF wf_step [OF step Cons.prems(1)]] Cons.prems(2) fresh1
    by (metis distinct.simps(2))
  have "state_of i s' = Some Failed"
    using s'(3) Cons.prems(2) here by (auto simp: state_of_Some state_name_def)
  moreover have "\<forall>j. j \<noteq> i \<and> j \<notin> set is \<longrightarrow> fetch_submission j s' = fetch_submission j s"
    using s'(3) others by metis
  moreover have "reject_loop env (i # is) n s = (s', Inr m)"
    by (simp add: env transact_def tx s'(1))
  moreover have "store_step\<^sup>*\<^sup>* s s'"
    using step s'(2) by (rule converse_rtranclp_into_rtranclp)
  ultimately show ?case
    using s'(3) by (intro exI [of _ s'] exI [of _ m]) auto
qed

lemma reject_ok:
  assumes wf: "wf_store s"
    and fresh: "fresh_ids (rejection_ids env (map s_submission_id (filter unfrozen (submissions s)))) s"
    and room: "\<And>i. state_of i s = Some Queued \<Longrightarrow> room 1 i s"
  shows "\<exists>s' m. reject_unfrozen_queued env s = (s', Inr m) \<and> store_step\<^sup>*\<^sup>* s s' \<and>
    (\<forall>i r. fetch_submission i s = Some r \<longrightarrow>
      (if unfrozen r then state_of i s' = Some Failed else fetch_submission i s' = Some r)) \<and>
    (\<forall>i. fetch_submission i s = None \<longrightarrow> fetch_submission i s' = None)"
proof -
  let ?is = "map s_submission_id (filter unfrozen (submissions s))"
  have dist: "distinct (map s_submission_id (submissions s))"
    using wf by (simp add: wf_store_def keys_distinct)
  have fetch: "fetch_submission (s_submission_id r) s = Some r" if "r \<in> set (submissions s)" for r
    using fetch_key_distinct [OF dist that] by (simp add: fetch_submission_def)
  have "\<forall>i \<in> set ?is. state_of i s = Some Queued \<and> room 1 i s"
    using fetch room by (auto simp: state_of_Some state_name_def unfrozen_def)
  then obtain s' m where s': "reject_loop env ?is 0 s = (s', Inr m)" "store_step\<^sup>*\<^sup>* s s'"
    "\<forall>i. if i \<in> set ?is then state_of i s' = Some Failed
      else fetch_submission i s' = fetch_submission i s"
    using reject_loop_ok [OF wf _ fresh, of 0] dist by (auto simp: distinct_map_filter)
  have listed: "i \<in> set ?is \<longleftrightarrow> (\<exists>r. fetch_submission i s = Some r \<and> unfrozen r)" for i
  proof
    assume "i \<in> set ?is"
    then show "\<exists>r. fetch_submission i s = Some r \<and> unfrozen r"
      using fetch by auto
  next
    assume "\<exists>r. fetch_submission i s = Some r \<and> unfrozen r"
    then obtain r where "r \<in> set (submissions s)" "s_submission_id r = i" "unfrozen r"
      using fetch_member by blast
    then show "i \<in> set ?is" by auto
  qed
  then have select: "i \<in> set ?is \<longleftrightarrow> unfrozen r" if "fetch_submission i s = Some r" for i r
    using that by simp
  have unknown: "i \<notin> set ?is" if "fetch_submission i s = None" for i
    using that listed by simp
  show ?thesis
    using s' select unknown unfolding reject_unfrozen_queued_def
    by (intro exI [of _ s'] exI [of _ m]) metis
qed

end
