(* ===== verification/StoreProps.thy ===== *)
theory StoreProps
  imports Recovery
begin

text \<open>
  The properties of the store, each a few steps over the lemmas of \<open>StoreKeep\<close>,
  \<open>Lifecycle\<close>, \<open>StoreSteps\<close>, \<open>StoreReads\<close> and \<open>Recovery\<close>. The witnesses run the model on the
  store of one accepted, claimed and finished Submission.
\<close>

section \<open>Idempotent acceptance\<close>

lemma accepted_row:
  assumes "wf_store s" and "accept_tx ulid now st spec s = Inr (s', rec)"
  shows "\<exists>r \<in> set (submissions s'). s_client_id r = acc_client_id spec \<and>
    s_idempotency_key r = acc_idempotency_key spec \<and> s_request_digest r = acc_request_digest spec \<and>
    (ar_response rec)\<lparr>sa_idempotent_replay := True\<rparr> =
      accepted_response (s_submission_id r) 1 (acc_request_digest spec)
        (s_resolved_profile r) (s_resolved_policy r) True"
  using assms(2)
proof (rule accept_tx_Inr)
  fix row
  assume "s' = s" "ar_response rec = accepted_response (s_submission_id row) 1 (acc_request_digest spec)
      (s_resolved_profile row) (s_resolved_policy row) True"
    "fetch_optional (\<lambda>r. s_client_id r = acc_client_id spec \<and>
      s_idempotency_key r = acc_idempotency_key spec) (submissions s) = Some row"
    "s_request_digest row = acc_request_digest spec"
  then show ?thesis
    by (intro bexI [of _ row]) (auto simp: accepted_response_def dest: fetch_optional_SomeD)
next
  let ?sid = "''sub_'' @ ulid" and ?r = "new_submission (''sub_'' @ ulid) now spec"
  fix s1 ev
  assume app: "append_event_tx st ?sid None ''submission.created'' (JObject [(''state'', JString ''queued'')])
      (s\<lparr>submissions := submissions s @ [?r]\<rparr>) = Inr (s1, ev)"
    and s': "s' = send_events [ev] s1"
    and resp: "ar_response rec = accepted_response ?sid 1 (acc_request_digest spec)
      (acc_profile spec) (acc_policy spec) False"
  have "bump_sequence ?r \<in> set (submissions s')"
    by (simp add: s' append_event_tx_parts [OF app] update_where_append update_where_def)
      (simp add: new_submission_def Let_def)
  then show ?thesis
    by (intro bexI [of _ "bump_sequence ?r"])
      (auto simp: resp accepted_response_def new_submission_def Let_def)
qed

lemma member_fetch: "wf_store s \<Longrightarrow> r \<in> set (submissions s) \<Longrightarrow> fetch_submission (s_submission_id r) s = Some r"
  unfolding fetch_submission_def
  by (rule fetch_key_distinct) (simp_all add: wf_store_def keys_distinct)

lemma accept_key_found:
  assumes "wf_store s" and "r \<in> set (submissions s)"
    and "s_client_id r = acc_client_id spec" "s_idempotency_key r = acc_idempotency_key spec"
  shows "accept ulid now st spec s = (s,
    if s_request_digest r = acc_request_digest spec
    then Inr \<lparr>ar_response = accepted_response (s_submission_id r) 1 (acc_request_digest spec)
      (s_resolved_profile r) (s_resolved_policy r) True, ar_replay = True\<rparr>
    else Inl IdempotencyConflict)"
proof -
  have "distinct (map (\<lambda>r. (s_client_id r, s_idempotency_key r)) (submissions s))"
    using assms(1) by (simp add: wf_store_def core_ok_def keys_ok_def)
  from fetch_key_distinct [OF this assms(2)]
  have "fetch_optional (\<lambda>r. s_client_id r = acc_client_id spec \<and>
      s_idempotency_key r = acc_idempotency_key spec) (submissions s) = Some r"
    using assms(3,4) by simp
  then show ?thesis
    by (simp add: accept_def transact_def accept_tx_def)
qed

lemma accept_again:
  assumes wf: "wf_store s" and acc: "accept ulid now st spec s = (s1, Inr rec)"
    and later: "store_step\<^sup>*\<^sup>* s1 s2"
    and same: "acc_client_id spec' = acc_client_id spec"
      "acc_idempotency_key spec' = acc_idempotency_key spec"
  shows "accept ulid' now' st' spec' s2 = (s2,
    if acc_request_digest spec' = acc_request_digest spec
    then Inr \<lparr>ar_response = (ar_response rec)\<lparr>sa_idempotent_replay := True\<rparr>, ar_replay = True\<rparr>
    else Inl IdempotencyConflict)"
proof -
  have tx: "accept_tx ulid now st spec s = Inr (s1, rec)"
    using acc by (auto simp: accept_def elim: transact_cases)
  obtain r where r: "r \<in> set (submissions s1)" "s_client_id r = acc_client_id spec"
    "s_idempotency_key r = acc_idempotency_key spec" "s_request_digest r = acc_request_digest spec"
    "(ar_response rec)\<lparr>sa_idempotent_replay := True\<rparr> =
      accepted_response (s_submission_id r) 1 (acc_request_digest spec)
        (s_resolved_profile r) (s_resolved_policy r) True"
    using accepted_row [OF wf tx] by blast
  have wf1: "wf_store s1" by (rule wf_accept_tx [OF wf tx])
  obtain r2 where r2: "fetch_submission (s_submission_id r) s2 = Some r2" "row_step\<^sup>*\<^sup>* r r2"
    using fetch_along [OF later member_fetch [OF wf1 r(1)]] by blast
  have "plan_of r2 = plan_of r"
    using row_steps_monotone [OF r2(2)] by simp
  then show ?thesis
    using accept_key_found [OF wf_steps [OF later wf1], of r2 spec' ulid' now' st'] fetch_member [OF r2(1)] r same
    by (auto simp: plan_of_def)
qed

section \<open>Cancelling twice\<close>

lemma cancel_after_terminal:
  assumes "fetch_submission i s = Some r" and "s_state r = state_name x" and "terminal x"
    and "to_u64 (s_revision r) = Inr rvn"
  shows "cancel now st i s = (s, Inr (''already_terminal'', rvn))"
  using assms by (simp add: cancel_def transact_def cancel_tx_def)

lemma cancel_after_request:
  assumes "fetch_submission i s = Some r" and "s_state r = ''running''" and "s_cancel_requested r"
    and "to_u64 (s_revision r) = Inr rvn"
  shows "cancel now st i s = (s, Inr (''cancellation_requested'', rvn))"
  using assms by (simp add: cancel_def transact_def cancel_tx_def parse_submission_state_def)

lemma bumped_revision:
  assumes "to_u64 n = Inr rev0" and "n + 1 < 2 ^ 64"
  shows "to_u64 (n + 1) = Inr (saturating_add rev0 1)"
proof -
  have n: "0 \<le> n" "uint rev0 = n"
    using to_u64_InrD [OF assms(1)] by blast+
  have "unat rev0 = nat n" using n by (simp add: unat_eq_nat_uint)
  then have "unat rev0 + unat (1 :: u64) < 2 ^ 64"
    using n(1) assms(2) by simp
  then have "saturating_add rev0 1 = rev0 + 1"
    by (simp add: saturating_add_def)
  then show ?thesis
    using to_u64_InrD [OF assms(1)] assms(2) by (simp add: to_u64_ok)
qed

lemma cancel_again:
  assumes wf: "wf_store s" and first: "cancel now st i s = (s1, Inr (d, rvn))"
  shows "cancel now' st' i s1 =
    (s1, Inr (if d = ''cancelled'' then ''already_terminal'' else d, rvn))"
proof -
  have tx: "cancel_tx now st i s = Inr (s1, d, rvn)"
    using first by (auto simp: cancel_def elim: transact_cases)
  have room: "s_revision r + 1 < 2 ^ 64" if "fetch_submission i s = Some r" for r
    using wf_row(5) [OF wf that] by simp
  show ?thesis
    using tx
  proof (cases rule: cancel_tx_Inr)
    case (terminal row state)
    then show ?thesis by (simp add: cancel_after_terminal)
  next
    case (queued row s2 ev rev0)
    have "fetch_submission i s1 = Some (bump_sequence (leave_queue now ''cancelled'' row))"
      using queued fetch_member [OF queued(1)]
      by (simp add: fetch_row_update [OF queued(6)] leave_queue_def Let_def)
    moreover have "to_u64 (s_revision (bump_sequence (leave_queue now ''cancelled'' row))) = Inr rvn"
      using bumped_revision [OF queued(3) room [OF queued(1)]] queued(4) by (simp add: leave_queue_def)
    ultimately show ?thesis
      using cancel_after_terminal [of i s1 _ Cancelled rvn] queued(5)
      by (simp add: leave_queue_def state_name_def)
  next
    case (again row)
    then show ?thesis by (simp add: cancel_after_request)
  next
    case (running row s2 ev rev0)
    have "fetch_submission i s1 = Some (bump_sequence (request_cancel now row))"
      using running fetch_member [OF running(1)]
      by (simp add: fetch_row_update [OF running(7)] request_cancel_def Let_def)
    moreover have "to_u64 (s_revision (bump_sequence (request_cancel now row))) = Inr rvn"
      using bumped_revision [OF running(5) room [OF running(1)]] running(6) by (simp add: request_cancel_def)
    ultimately show ?thesis
      using cancel_after_request [of i s1 _ rvn] running(2,4) by (simp add: request_cancel_def)
  qed
qed

section \<open>Claiming\<close>

lemma fetch_after_claim:
  assumes claim: "claim_tx now st1 st2 spec s = Inr (s', u)"
    and row: "fetch_submission (cl_submission_id spec) s = Some r"
  shows "fetch_submission (cl_submission_id spec) s' =
    Some (bump_sequence (bump_sequence (start_running now r)))"
  using claim
proof (rule claim_tx_Inr)
  fix r0 s1 s2 ev1 ev2
  assume r0: "fetch_submission (cl_submission_id spec) s = Some r0" "s_state r0 = ''queued''"
    and app: "append_event_tx st1 (cl_submission_id spec) (Some (cl_attempt_id spec)) ''attempt.created''
       (JObject [(''attempt_id'', JString (cl_attempt_id spec)), (''state'', JString ''starting'')])
       (claimed now spec s) = Inr (s1, ev1)"
    "append_event_tx st2 (cl_submission_id spec) (Some (cl_attempt_id spec)) ''submission.state_changed''
       (JObject [(''from'', JString ''queued''), (''to'', JString ''running'')]) s1 = Inr (s2, ev2)"
    and s': "s' = send_events [ev1, ev2] s2"
  have "fetch_submission (cl_submission_id spec) (claimed now spec s) =
      map_option (\<lambda>r. if queued_row (cl_submission_id spec) r then start_running now r else r)
        (fetch_submission (cl_submission_id spec) s)"
    by (simp add: fetch_submission_def claimed_def starting.fetch_update)
  then show ?thesis
    using r0 row fetch_member [OF row]
    by (simp add: s' fetch_after_append [OF app(1)] fetch_after_append [OF app(2)] start_running_def)
qed

lemma attempts_after_claim:
  "claim_tx now st1 st2 spec s = Inr (s', u) \<Longrightarrow>
     attempts s' = attempts s @ [new_attempt now (next_number (cl_submission_id spec) s) spec]"
  by (erule claim_tx_Inr) (simp add: append_event_tx_parts claimed_def)

lemma claim_attempt:
  assumes wf: "wf_store s" and tx: "claim_tx now st1 st2 spec s = Inr (s', u)"
  shows "\<exists>att. attempt_of (cl_attempt_id spec) s' = Inr att \<and> at_attempt_id att = cl_attempt_id spec \<and>
    at_number att = 1 \<and> at_state att = AttemptStarting"
proof -
  let ?a = "new_attempt now (next_number (cl_submission_id spec) s) spec"
  have "distinct (map a_attempt_id (attempts s'))"
    using wf_claim_tx [OF wf tx] by (simp add: wf_store_def core_ok_def keys_ok_def)
  then have "fetch_optional (\<lambda>a. a_attempt_id a = a_attempt_id ?a) (attempts s') = Some ?a"
    by (rule fetch_key_distinct) (simp add: attempts_after_claim [OF tx])
  moreover have "next_number (cl_submission_id spec) s = 1"
    using tx
  proof (rule claim_tx_Inr)
    fix r
    assume "fetch_submission (cl_submission_id spec) s = Some r" "s_state r = ''queued''"
    then have "count_where (owned (cl_submission_id spec)) (attempts s) = 0"
      using wf_row(2,3) [OF wf] by (auto simp: lease_row_ok_def)
    then show ?thesis
      by (intro next_number_1) (simp add: count_where_0_iff owned_def)
  qed
  ultimately show ?thesis
    by (simp add: attempt_of_def new_attempt_def decode_attempt_def try_from_int_def parse_attempt_state_def)
qed

lemma claim_result:
  assumes wf: "wf_store s" and claim: "claim now st1 st2 spec s = (s', res)"
  shows "(case res of
      Inl e \<Rightarrow> s' = s
    | Inr att \<Rightarrow> state_of (cl_submission_id spec) s = Some Queued \<and>
        state_of (cl_submission_id spec) s' = Some Running \<and>
        at_attempt_id att = cl_attempt_id spec \<and> at_number att = 1 \<and> at_state att = AttemptStarting \<and>
        attempts s' = attempts s @ [new_attempt now 1 spec])"
proof (cases "claim_tx now st1 st2 spec s")
  case (Inl e)
  then show ?thesis
    using claim by (auto simp: claim_def transact_def)
next
  case (Inr p)
  then obtain u where tx: "claim_tx now st1 st2 spec s = Inr (s', u)"
    using claim by (cases p) (auto simp: claim_def transact_def)
  obtain att where att: "attempt_of (cl_attempt_id spec) s' = Inr att"
    "at_attempt_id att = cl_attempt_id spec" "at_number att = 1" "at_state att = AttemptStarting"
    using claim_attempt [OF wf tx] by blast
  have res: "res = Inr att"
    using claim tx att(1) by (auto simp: claim_def transact_def)
  obtain r where r: "fetch_submission (cl_submission_id spec) s = Some r" "s_state r = ''queued''"
    using tx by (rule claim_tx_Inr)
  then have "count_where (owned (cl_submission_id spec)) (attempts s) = 0"
    using wf_row(2,3) [OF wf] by (auto simp: lease_row_ok_def)
  then have "next_number (cl_submission_id spec) s = 1"
    by (intro next_number_1) (simp add: count_where_0_iff owned_def)
  then show ?thesis
    using res att r fetch_after_claim [OF tx r(1)] attempts_after_claim [OF tx]
    by (simp add: state_of_Some state_name_def start_running_def)
qed

end
