(* ===== verification/Demo.thy ===== *)
theory Demo
  imports StoreProps
begin

text \<open>
  One concrete history for the witnesses: a Submission on a writable workspace is accepted
  into the empty store, claimed, marked running and finished; a second Submission from the
  same client waits behind it.
\<close>

definition demo_request :: submission_create where
  "demo_request = \<lparr>sc_client_reference = None, sc_labels = [], sc_mode = Task,
     sc_input = \<lparr>inp_parts = [PartText ''hi'']\<rparr>, sc_workspace = None, sc_output = None,
     sc_agent = None, sc_execution = None, sc_session = None, sc_scheduling = None,
     sc_limits = None, sc_policy = None\<rparr>"

definition demo_ref :: resource_ref where
  "demo_ref = \<lparr>rr_id = ''default'', rr_version = ''1'', rr_digest = ''d''\<rparr>"

definition demo_profile :: profile_config where
  "demo_profile = \<lparr>pr_id = ''default'', pr_version = ''1'', pr_description = [], pr_network = NetNone\<rparr>"

definition demo_policy :: policy_config where
  "demo_policy = \<lparr>po_id = ''default'', po_version = ''1'', po_description = [],
     po_run_timeout_seconds = 600, po_idle_timeout_seconds = 60\<rparr>"

definition demo_route :: route_config where
  "demo_route = \<lparr>ro_id = ''r1'', ro_adapter = ''opencode'', ro_model = [],
     ro_source_ids = [''src''], ro_target_id = ''local''\<rparr>"

definition demo_static_source :: source_config where
  "demo_static_source = \<lparr>so_id = ''src'', so_label = ''Src'', so_concurrency_limit = 2,
     so_safety_reserve = 1, so_monitor = MonitorStatic\<rparr>"

definition demo_config :: config where
  "demo_config = \<lparr>
     cfg_daemon = \<lparr>dc_socket_path = ''/run/s'', dc_database_path = ''/db'', dc_max_inline_output_bytes = 8\<rparr>,
     cfg_runtime = \<lparr>rc_cache_dir = ''/cache'', rc_download_if_missing = False\<rparr>,
     cfg_local_runner = \<lparr>lr_runner_binary = ''/r'', lr_bubblewrap_binary = ''/b'',
       lr_opencode_binary = None, lr_opencode_sha256 = None,
       lr_agent_binaries = [\<lparr>ab_adapter = ''opencode'', ab_binary = ''/o'',
         ab_sha256 = replicate 64 (CHR ''a''), ab_agent_process_binary = None,
         ab_agent_process_sha256 = None\<rparr>],
       lr_credential_files = [\<lparr>cf_source_id = ''src'', cf_host_path = ''/secret'', cf_sandbox_path = ''a/b''\<rparr>],
       lr_source_bindings = [\<lparr>sb_source_id = ''src'', sb_inherit_proxy_environment = [''NO_PROXY'']\<rparr>]\<rparr>,
     cfg_defaults = \<lparr>df_profile_id = ''default'', df_policy_id = ''default'', df_route_id = ''r1''\<rparr>,
     cfg_profiles = [demo_profile], cfg_policies = [demo_policy], cfg_sources = [demo_static_source],
     cfg_routes = [demo_route],
     cfg_workspace_roots = [\<lparr>wr_id = ''w'', wr_path = ''/w'', wr_allow_writable = True\<rparr>]\<rparr>"

definition demo_accept :: "string \<Rightarrow> accept_spec" where
  "demo_accept key = \<lparr>acc_client_id = ''c'', acc_idempotency_key = key,
     acc_request = demo_request, acc_request_digest = ''sha'', acc_profile = demo_ref,
     acc_policy = demo_ref, acc_workspace_key = Some ''/w'', acc_workspace_access = Some ''writable'',
     acc_profile_config = demo_profile, acc_policy_config = demo_policy, acc_routes = [demo_route]\<rparr>"

definition demo_claim :: "string \<Rightarrow> string \<Rightarrow> claim_spec" where
  "demo_claim sid aid = \<lparr>cl_submission_id = sid, cl_attempt_id = aid, cl_route_id = ''r1'',
     cl_adapter = ''opencode'', cl_model = ''m'', cl_target_id = ''local'', cl_source_id = ''src'',
     cl_source_label = ''Src'', cl_sandbox_profile = ''default'',
     cl_runtime = \<lparr>rt_name = ''sandbox-agent'', rt_version = ''0.4.2'', rt_digest = ''d''\<rparr>\<rparr>"

definition demo_finish :: "submission_state \<Rightarrow> finish_spec" where
  "demo_finish st = \<lparr>fin_submission_id = ''sub_1'', fin_attempt_id = ''att_1'', fin_state = st,
     fin_output = Some ''done'', fin_truncated = False, fin_error = None, fin_agent_version = None\<rparr>"

text \<open>Accepted; claimed; finished; and the second Submission behind the running first.\<close>

definition demo_queued :: store where
  "demo_queued = fst (accept ''1'' 0 (''e1'', 0) (demo_accept ''k1'') empty_store)"

definition demo_running :: store where
  "demo_running = fst (claim 1 (''e2'', 1) (''e3'', 1) (demo_claim ''sub_1'' ''att_1'') demo_queued)"

definition demo_done :: store where
  "demo_done = fst (finish 2 (''e4'', 2) (''e5'', 2) (demo_finish Completed) demo_running)"

definition demo_waiting :: store where
  "demo_waiting = fst (accept ''2'' 3 (''e6'', 3) (demo_accept ''k2'') demo_running)"

lemmas demo_defs = demo_request_def demo_ref_def demo_profile_def demo_policy_def demo_route_def
  demo_accept_def demo_claim_def demo_finish_def demo_queued_def demo_running_def demo_done_def
  demo_waiting_def

lemma demo_steps:
  "store_step empty_store demo_queued" "store_step demo_queued demo_running"
  "store_step demo_running demo_done" "store_step demo_running demo_waiting"
  unfolding demo_queued_def demo_running_def demo_done_def demo_waiting_def
  by (rule store_step.accepting, rule surjective_pairing)
    (rule store_step.claiming store_step.finishing store_step.accepting, rule surjective_pairing)+

lemma demo_reachable:
  "reachable demo_queued" "reachable demo_running" "reachable demo_done" "reachable demo_waiting"
proof -
  show q: "reachable demo_queued"
    unfolding reachable_def using demo_steps(1) by (rule r_into_rtranclp)
  then show r: "reachable demo_running"
    unfolding reachable_def using demo_steps(2) by (rule rtranclp.rtrancl_into_rtrancl)
  show "reachable demo_done"
    using r unfolding reachable_def using demo_steps(3) by (rule rtranclp.rtrancl_into_rtrancl)
  show "reachable demo_waiting"
    using r unfolding reachable_def using demo_steps(4) by (rule rtranclp.rtrancl_into_rtrancl)
qed

lemma demo_states:
  "state_of ''sub_1'' demo_queued = Some Queued" "state_of ''sub_1'' demo_running = Some Running"
  "state_of ''sub_1'' demo_done = Some Completed" "state_of ''sub_2'' demo_waiting = Some Queued"
  by code_simp+

end
