(* ===== verification/StoreClaims.thy ===== *)
theory StoreClaims
  imports Demo
begin

text \<open>
  The properties of the store (\<open>crates/service/src/store.rs\<close>). Each follows from the lemmas
  of the store theories in a few steps, and is applied to the history of \<open>Demo\<close>.
\<close>

section \<open>Invariant and lifecycle\<close>

text \<open>
  C1: every store reachable by any interleaving of the store's methods, with any arguments,
  is well-formed: keys unique, rows consistent, attempts and capacity leases in agreement with
  the Submission states, no writer sharing a workspace, event numbers contiguous.
\<close>

theorem reachable_well_formed: "reachable s \<Longrightarrow> wf_store s"
  by (rule wf_reachable)

lemma reachable_well_formed_witness:
  "wf_store demo_waiting \<and> map s_state (submissions demo_waiting) = [''running'', ''queued'']"
proof
  show "wf_store demo_waiting" by (rule reachable_well_formed [OF demo_reachable(4)])
  show "map s_state (submissions demo_waiting) = [''running'', ''queued'']" by code_simp
qed

text \<open>
  C2: every call of a writing method implements the abstract lifecycle: a Submission keeps
  its state or makes exactly one of the lifecycle's transitions. In particular nothing ever
  returns to \<open>queued\<close>, and nothing leaves a terminal state.
\<close>

theorem store_implements_lifecycle:
  assumes "store_step s s'" and "state_of i s = Some x"
  shows "\<exists>y. state_of i s' = Some y \<and> (y = x \<or> lifecycle x y)"
  using assms by (rule state_of_step)

lemma store_implements_lifecycle_witness:
  "\<exists>y. state_of ''sub_1'' demo_running = Some y \<and> (y = Queued \<or> lifecycle Queued y)"
  by (rule store_implements_lifecycle [OF demo_steps(2) demo_states(1)])

text \<open>
  C3: a Submission in a terminal state is frozen: whatever runs later, its row is the same in
  every column but the event counter (late agent events are still logged).
\<close>

theorem terminal_rows_frozen:
  assumes "store_step\<^sup>*\<^sup>* s s'" and "fetch_submission i s = Some r"
    and "s_state r = state_name x" and "terminal x"
  shows "\<exists>n. fetch_submission i s' = Some (r\<lparr>s_latest_event_sequence := n\<rparr>)"
proof -
  obtain r' where "fetch_submission i s' = Some r'" "row_step\<^sup>*\<^sup>* r r'"
    using fetch_along [OF assms(1,2)] by blast
  moreover have "\<not> live r"
    using live_iff [OF assms(3)] assms(4) by simp
  ultimately show ?thesis
    using row_steps_frozen [of r r'] by (auto simp: only_events_def)
qed

definition demo_late :: store where
  "demo_late = fst (append_agent_event (''e7'', 9) ''sub_1'' ''att_1'' ''agent.message'' JNull demo_done)"

lemma demo_late_step: "store_step\<^sup>*\<^sup>* demo_done demo_late"
  unfolding demo_late_def
  by (intro r_into_rtranclp store_step.agent_event) (rule surjective_pairing)

lemma terminal_rows_frozen_witness:
  "\<exists>n. fetch_submission ''sub_1'' demo_late =
     Some ((submissions demo_done ! 0)\<lparr>s_latest_event_sequence := n\<rparr>)"
proof (rule terminal_rows_frozen [OF demo_late_step])
  show "fetch_submission ''sub_1'' demo_done = Some (submissions demo_done ! 0)" by code_simp
  show "s_state (submissions demo_done ! 0) = state_name Completed" by code_simp
  show "terminal Completed" by code_simp
qed

text \<open>
  C4: what a Submission was accepted with never changes: request, digest, resolved and frozen
  configuration, workspace and routes stay as accepted, revision and event counter only grow,
  a requested cancellation is never withdrawn; and as long as the revision (the \<open>ETag\<close>) is the
  same, the whole row is the same up to its event counter.
\<close>

theorem plan_and_revision_stable:
  assumes "store_step\<^sup>*\<^sup>* s s'" and "fetch_submission i s = Some r"
  shows "\<exists>r'. fetch_submission i s' = Some r' \<and> plan_of r' = plan_of r \<and>
    s_revision r \<le> s_revision r' \<and> s_latest_event_sequence r \<le> s_latest_event_sequence r' \<and>
    (s_cancel_requested r \<longrightarrow> s_cancel_requested r') \<and>
    (s_revision r' = s_revision r \<longrightarrow> (\<exists>n. r' = r\<lparr>s_latest_event_sequence := n\<rparr>))"
proof -
  obtain r' where r': "fetch_submission i s' = Some r'" "row_step\<^sup>*\<^sup>* r r'"
    using fetch_along [OF assms] by blast
  then show ?thesis
    using row_steps_monotone [OF r'(2)] row_steps_revision [OF r'(2)]
    by (intro exI [of _ r']) (simp add: only_events_def)
qed

lemma plan_and_revision_stable_witness:
  "\<exists>r'. fetch_submission ''sub_1'' demo_running = Some r' \<and>
    s_revision (submissions demo_queued ! 0) \<le> s_revision r'"
proof -
  have "fetch_submission ''sub_1'' demo_queued = Some (submissions demo_queued ! 0)"
    by code_simp
  from plan_and_revision_stable [OF r_into_rtranclp [of store_step, OF demo_steps(2)] this]
  show ?thesis by blast
qed

section \<open>Leases and workspaces\<close>

text \<open>
  C5: a Submission has at most one attempt ever; exactly one is active while it runs, and its
  capacity lease is held exactly while it runs or is \<open>uncertain\<close> - an uncertain attempt keeps
  its slot for good.
\<close>

theorem capacity_lease_exact:
  assumes "reachable s" and "fetch_submission i s = Some r"
  shows "count_where (owned i) (attempts s) \<le> 1 \<and>
    count_where (\<lambda>a. owned i a \<and> active_attempt a) (attempts s) =
      (if state_of i s = Some Running then 1 else 0) \<and>
    count_where (\<lambda>a. owned i a \<and> a_capacity_held a) (attempts s) =
      (if state_of i s = Some Running \<or> state_of i s = Some Uncertain then 1 else 0)"
proof -
  note wf = wf_reachable [OF assms(1)]
  obtain x where "s_state r = state_name x"
    using wf_state [OF wf assms(2)] by blast
  then have "(s_state r = ''running'') = (state_of i s = Some Running)"
    "occupying r = (state_of i s = Some Running \<or> state_of i s = Some Uncertain)"
    using assms(2) by (cases x; simp add: state_of_def state_name_def parse_submission_state_def occupying_def)+
  then show ?thesis
    using wf_row(2,3) [OF wf assms(2)] by (simp_all add: lease_row_ok_def)
qed

lemma capacity_lease_exact_witness:
  "count_where (\<lambda>a. owned ''sub_1'' a \<and> a_capacity_held a) (attempts demo_running) = 1"
proof -
  have "fetch_submission ''sub_1'' demo_running = Some (submissions demo_running ! 0)"
    by code_simp
  from capacity_lease_exact [OF demo_reachable(2) this] show ?thesis
    by (simp add: demo_states)
qed

text \<open>
  C6: two different Submissions that run, or are uncertain, on the same canonical workspace
  are both readers: a writer never shares it.
\<close>

theorem workspace_writer_excludes:
  assumes "reachable s" and "r1 \<in> set (submissions s)" "r2 \<in> set (submissions s)"
    and "s_submission_id r1 \<noteq> s_submission_id r2" and "occupying r1" "occupying r2"
    and "s_workspace_key r1 = Some key" "s_workspace_key r2 = Some key"
  shows "s_workspace_access r1 \<noteq> Some ''writable'' \<and> s_workspace_access r2 \<noteq> Some ''writable''"
proof -
  have "share_ok r1 r2" "share_ok r2 r1"
    using wf_reachable [OF assms(1)] assms(2,3)
    by (auto simp: wf_store_def core_ok_def workspace_ok_def)
  then show ?thesis
    using assms(4-) by (simp add: share_ok_def)
qed

definition demo_reader :: "string \<Rightarrow> accept_spec" where
  "demo_reader key = (demo_accept key)\<lparr>acc_workspace_access := Some ''read_only''\<rparr>"

definition demo_readers :: store where
  "demo_readers = fst (claim 3 (''e7'', 3) (''e8'', 3) (demo_claim ''sub_2'' ''att_2'')
     (fst (claim 2 (''e5'', 2) (''e6'', 2) (demo_claim ''sub_1'' ''att_1'')
       (fst (accept ''2'' 1 (''e2'', 1) (demo_reader ''k2'')
         (fst (accept ''1'' 0 (''e1'', 0) (demo_reader ''k1'') empty_store)))))))"

lemma demo_readers_reachable: "reachable demo_readers"
proof -
  have *: "store_step s (fst (claim now st1 st2 spec s))" for now st1 st2 spec s
    by (rule store_step.claiming) (rule surjective_pairing)
  have **: "store_step s (fst (accept ulid now st spec s))" for ulid now st spec s
    by (rule store_step.accepting) (rule surjective_pairing)
  show ?thesis
    unfolding reachable_def demo_readers_def
    by (rule rtranclp.rtrancl_into_rtrancl, rule rtranclp.rtrancl_into_rtrancl,
        rule rtranclp.rtrancl_into_rtrancl, rule rtranclp.rtrancl_into_rtrancl,
        rule rtranclp.rtrancl_refl) (rule * **)+
qed

lemma workspace_writer_excludes_witness:
  "s_workspace_access (submissions demo_readers ! 0) \<noteq> Some ''writable'' \<and>
   s_workspace_access (submissions demo_readers ! 1) \<noteq> Some ''writable''"
proof (rule workspace_writer_excludes [OF demo_readers_reachable])
  show "submissions demo_readers ! 0 \<in> set (submissions demo_readers)"
    "submissions demo_readers ! 1 \<in> set (submissions demo_readers)"
    "s_submission_id (submissions demo_readers ! 0) \<noteq> s_submission_id (submissions demo_readers ! 1)"
    "occupying (submissions demo_readers ! 0)" "occupying (submissions demo_readers ! 1)"
    "s_workspace_key (submissions demo_readers ! 0) = Some ''/w''"
    "s_workspace_key (submissions demo_readers ! 1) = Some ''/w''"
    by code_simp+
qed

text \<open>
  C7: \<open>claim\<close> either changes nothing and reports an error, or it took a queued Submission to
  \<open>running\<close> with its first and only attempt, in state \<open>starting\<close>, holding capacity.
\<close>

theorem claim_all_or_nothing:
  assumes "reachable s" and "claim now st1 st2 spec s = (s', res)"
  shows "(case res of
      Inl e \<Rightarrow> s' = s
    | Inr att \<Rightarrow> state_of (cl_submission_id spec) s = Some Queued \<and>
        state_of (cl_submission_id spec) s' = Some Running \<and>
        at_attempt_id att = cl_attempt_id spec \<and> at_number att = 1 \<and> at_state att = AttemptStarting \<and>
        attempts s' = attempts s @ [new_attempt now 1 spec])"
  by (rule claim_result [OF wf_reachable [OF assms(1)] assms(2)])

lemma claim_all_or_nothing_witness:
  "claim 4 (''e7'', 4) (''e8'', 4) (demo_claim ''sub_2'' ''att_2'') demo_waiting =
     (demo_waiting, Inl WorkspaceBusy)"
proof -
  have res: "snd (claim 4 (''e7'', 4) (''e8'', 4) (demo_claim ''sub_2'' ''att_2'') demo_waiting) =
      Inl WorkspaceBusy"
    by code_simp
  obtain s' where s': "claim 4 (''e7'', 4) (''e8'', 4) (demo_claim ''sub_2'' ''att_2'') demo_waiting =
      (s', Inl WorkspaceBusy)"
    using res by (metis prod.collapse)
  then show ?thesis
    using claim_all_or_nothing [OF demo_reachable(4) s'] by simp
qed

section \<open>The event log\<close>

text \<open>
  C8: reading the events after a cursor returns exactly what was broadcast for the Submission
  with a larger number, in order, without gap or repetition: the numbers run from the cursor
  plus one to the latest, and event numbering starts at one. The cursor is below 2^63: one that
  does not fit the signed column is an internal error.
\<close>

theorem event_replay_exact:
  assumes "reachable s" and "fetch_submission i s = Some r" and "uint k < 2 ^ 63"
  shows "\<exists>evs. events_after i k s = Inr evs \<and>
    evs = filter (\<lambda>ev. ev_submission_id ev = i \<and> k < ev_sequence ev) (bus s) \<and>
    map (\<lambda>ev. uint (ev_sequence ev)) evs = [uint k + 1..s_latest_event_sequence r]"
proof -
  note bus = bus_reachable [OF assms(1)]
  have log: "log_ok s"
    using wf_reachable [OF assms(1)] by (simp add: wf_store_def)
  show ?thesis
    using events_after_bus [OF bus log assms(2,3)] log_suffix_bus [OF bus log assms(2), of k] by simp
qed

lemma event_replay_exact_witness:
  "\<exists>evs. events_after ''sub_1'' 2 demo_done = Inr evs \<and>
     map (\<lambda>ev. uint (ev_sequence ev)) evs = [3, 4, 5]"
proof -
  have "fetch_submission ''sub_1'' demo_done = Some (submissions demo_done ! 0)"
    by code_simp
  moreover have "s_latest_event_sequence (submissions demo_done ! 0) = 5"
    by code_simp
  ultimately show ?thesis
    using event_replay_exact [OF demo_reachable(3), of "''sub_1''" "submissions demo_done ! 0" 2]
    by (auto simp: upto.simps)
qed

section \<open>Reading\<close>

text \<open>
  C9: on a reachable store \<open>status\<close> and \<open>result\<close> never meet undecodable data: the status
  exists for every known Submission with its state and revision, the result exactly when the
  state is terminal, and before that the call answers \<open>NotQueued\<close>.
\<close>

theorem status_and_result_total:
  assumes "reachable s" and "fetch_submission i s = Some r"
  shows "\<exists>st. status i s = Inr st \<and> st_submission_id st = i \<and> state_of i s = Some (st_state st) \<and>
    uint (st_revision st) = s_revision r \<and> length (st_attempts st) \<le> 1 \<and>
    (if terminal (st_state st)
     then \<exists>res. result_of i s = Inr res \<and> sr_state res = st_state st \<and>
       sr_output res = map_option (\<lambda>t. OutputText t (s_result_truncated r)) (s_result_text r)
     else result_of i s = Inl NotQueued)"
proof -
  note wf = wf_reachable [OF assms(1)]
  obtain x where x: "s_state r = state_name x"
    using wf_state [OF wf assms(2)] by blast
  moreover have "count_where (owned i) (attempts s) \<le> 1"
    using wf_row(2,3) [OF wf assms(2)] by (simp add: lease_row_ok_def)
  ultimately show ?thesis
    using status_total [OF wf assms(2) x] result_total [OF wf assms(2) x] assms(2)
    by (auto simp: state_of_Some split: if_splits)
qed

lemma status_and_result_total_witness:
  "\<exists>st. status ''sub_1'' demo_done = Inr st \<and> st_state st = Completed \<and>
    (\<exists>res. result_of ''sub_1'' demo_done = Inr res \<and> sr_output res = Some (OutputText ''done'' False))"
proof -
  have row: "fetch_submission ''sub_1'' demo_done = Some (submissions demo_done ! 0)"
    by code_simp
  have "s_result_text (submissions demo_done ! 0) = Some ''done''"
    "s_result_truncated (submissions demo_done ! 0) = False"
    by code_simp+
  with status_and_result_total [OF demo_reachable(3) row] show ?thesis
    by (auto simp: demo_states terminal_def)
qed

section \<open>Idempotency\<close>

text \<open>
  C10: a repeated request with the same client and idempotency key, at any later time, never
  changes the store: with the same digest it returns the first answer marked as a replay, with
  another digest it is an \<open>IdempotencyConflict\<close>.
\<close>

theorem accept_idempotent:
  assumes "reachable s" and "accept ulid now st spec s = (s1, Inr rec)"
    and "store_step\<^sup>*\<^sup>* s1 s2" and "acc_client_id spec' = acc_client_id spec"
    and "acc_idempotency_key spec' = acc_idempotency_key spec"
  shows "accept ulid' now' st' spec' s2 = (s2,
    if acc_request_digest spec' = acc_request_digest spec
    then Inr \<lparr>ar_response = (ar_response rec)\<lparr>sa_idempotent_replay := True\<rparr>, ar_replay = True\<rparr>
    else Inl IdempotencyConflict)"
  by (rule accept_again [OF wf_reachable [OF assms(1)] assms(2-)])

definition demo_record :: accepted_record where
  "demo_record = \<lparr>ar_response = accepted_response ''sub_1'' 1 ''sha'' demo_ref demo_ref False,
     ar_replay = False\<rparr>"

lemma accept_idempotent_witness:
  "accept ''9'' 7 (''e9'', 7) (demo_accept ''k1'') demo_running =
     (demo_running, Inr \<lparr>ar_response = (ar_response demo_record)\<lparr>sa_idempotent_replay := True\<rparr>,
       ar_replay = True\<rparr>)"
proof -
  have "snd (accept ''1'' 0 (''e1'', 0) (demo_accept ''k1'') empty_store) = Inr demo_record"
    by code_simp
  then have first: "accept ''1'' 0 (''e1'', 0) (demo_accept ''k1'') empty_store =
      (demo_queued, Inr demo_record)"
    by (simp add: demo_queued_def prod_eq_iff)
  have "reachable empty_store" by (simp add: reachable_def)
  from accept_idempotent [OF this first r_into_rtranclp [of store_step, OF demo_steps(2)],
      of "demo_accept ''k1''"]
  show ?thesis by simp
qed

text \<open>
  Cancelling is idempotent: after a successful \<open>cancel\<close>, a second one changes nothing
  (no event, no revision) and reports the same revision; a Submission withdrawn from the queue
  answers \<open>already_terminal\<close>.
\<close>

lemma cancel_idempotent:
  assumes "reachable s" and "cancel now st i s = (s1, Inr (d, revision))"
  shows "cancel now' st' i s1 =
    (s1, Inr (if d = ''cancelled'' then ''already_terminal'' else d, revision))"
  by (rule cancel_again [OF wf_reachable [OF assms(1)] assms(2)])

lemma cancel_idempotent_witness:
  "cancel 9 (''e9'', 9) ''sub_1'' (fst (cancel 8 (''e8'', 8) ''sub_1'' demo_running)) =
     (fst (cancel 8 (''e8'', 8) ''sub_1'' demo_running), Inr (''cancellation_requested'', 3))"
proof -
  have "snd (cancel 8 (''e8'', 8) ''sub_1'' demo_running) = Inr (''cancellation_requested'', 3)"
    by code_simp
  then have "cancel 8 (''e8'', 8) ''sub_1'' demo_running =
      (fst (cancel 8 (''e8'', 8) ''sub_1'' demo_running), Inr (''cancellation_requested'', 3))"
    by (simp add: prod_eq_iff)
  from cancel_idempotent [OF demo_reachable(2) this] show ?thesis by simp
qed

section \<open>Start-up\<close>

text \<open>
  C12: \<open>recover_running_as_uncertain\<close> always succeeds on a reachable store, given new event
  identifiers and room in the counters, and makes exactly the running Submissions
  \<open>uncertain\<close>: nothing is re-queued or run again, nothing else moves.
\<close>

theorem recovery_marks_uncertain:
  assumes "reachable s"
    and "fresh_ids (recovery_ids env (filter active_attempt (attempts s))) s"
    and "\<And>i. state_of i s = Some Running \<Longrightarrow> room 2 i s"
  shows "\<exists>s' n. recover_running_as_uncertain env s = (s', Inr n) \<and> reachable s' \<and>
    (\<forall>i. state_of i s' = (if state_of i s = Some Running then Some Uncertain else state_of i s))"
proof -
  obtain s' n where "recover_running_as_uncertain env s = (s', Inr n)" "store_step\<^sup>*\<^sup>* s s'"
    "\<forall>i. state_of i s' = (if state_of i s = Some Running then Some Uncertain else state_of i s)"
    using recover_ok [OF wf_reachable [OF assms(1)] assms(2,3)] by blast
  moreover have "reachable s'"
    using assms(1) \<open>store_step\<^sup>*\<^sup>* s s'\<close> unfolding reachable_def by (rule rtranclp_trans)
  ultimately show ?thesis by blast
qed

definition demo_env :: "string \<Rightarrow> time \<times> stamp \<times> stamp" where
  "demo_env aid = (9, (''x'' @ aid, 9), (''y'' @ aid, 9))"

lemma recovery_marks_uncertain_witness:
  "\<exists>s' n. recover_running_as_uncertain demo_env demo_waiting = (s', Inr n) \<and>
     state_of ''sub_1'' s' = Some Uncertain \<and> state_of ''sub_2'' s' = Some Queued"
proof -
  have ids: "recovery_ids demo_env (filter active_attempt (attempts demo_waiting)) = [''xatt_1'', ''yatt_1'']"
    by code_simp
  have logged: "map e_event_id (events demo_waiting) = [''evt_e1'', ''evt_e2'', ''evt_e3'', ''evt_e6'']"
    by code_simp
  have fresh: "fresh_ids (recovery_ids demo_env (filter active_attempt (attempts demo_waiting))) demo_waiting"
    unfolding ids fresh_ids_def by (simp add: list.set_map [symmetric] logged del: list.set_map)
  have rows: "\<forall>r \<in> set (submissions demo_waiting). s_latest_event_sequence r + 2 < 2 ^ 63"
    "state_of ''sub_1'' demo_waiting = Some Running"
    by code_simp+
  from recovery_marks_uncertain [OF demo_reachable(4) fresh roomI [OF rows(1)]] obtain s' n where
    run: "recover_running_as_uncertain demo_env demo_waiting = (s', Inr n)" and
    states: "\<forall>i. state_of i s' =
      (if state_of i demo_waiting = Some Running then Some Uncertain else state_of i demo_waiting)"
    by blast
  have "state_of ''sub_1'' s' = Some Uncertain" "state_of ''sub_2'' s' = Some Queued"
    using states rows(2) demo_states(4) by simp_all
  with run show ?thesis by blast
qed

text \<open>
  C13: \<open>reject_unfrozen_queued\<close> fails exactly the queued Submissions without a frozen
  execution plan and touches no other; afterwards the scheduler's \<open>queued\<close> query cannot fail,
  and returns exactly the queued Submissions by descending priority, then by age. The ids of the
  events it appends are fresh, and every queued Submission has room for one more event number.
\<close>

theorem queue_readable_after_reject:
  assumes "wf_store s"
    and "fresh_ids (rejection_ids env (map s_submission_id (filter unfrozen (submissions s)))) s"
    and "\<And>i. state_of i s = Some Queued \<Longrightarrow> room 1 i s"
  shows "\<exists>s' n qs. reject_unfrozen_queued env s = (s', Inr n) \<and>
    (\<forall>i r. fetch_submission i s = Some r \<longrightarrow>
      (if unfrozen r then state_of i s' = Some Failed else fetch_submission i s' = Some r)) \<and>
    queued s' = Inr qs \<and> sorted_wrt before_in_queue qs \<and>
    q_submission_id ` set qs = {i. state_of i s' = Some Queued}"
proof -
  note wf = assms(1)
  obtain s' n where s': "reject_unfrozen_queued env s = (s', Inr n)" "store_step\<^sup>*\<^sup>* s s'"
    "\<forall>i r. fetch_submission i s = Some r \<longrightarrow>
      (if unfrozen r then state_of i s' = Some Failed else fetch_submission i s' = Some r)"
    "\<forall>i. fetch_submission i s = None \<longrightarrow> fetch_submission i s' = None"
    using reject_ok [OF wf assms(2,3)] by blast
  note wf' = wf_steps [OF s'(2) wf]
  have "\<not> unfrozen r'" if "r' \<in> set (submissions s')" for r'
  proof -
    note r' = member_fetch [OF wf' that]
    then obtain r where r: "fetch_submission (s_submission_id r') s = Some r"
      using s'(4) by (cases "fetch_submission (s_submission_id r') s") auto
    have "if unfrozen r then state_of (s_submission_id r') s' = Some Failed
      else fetch_submission (s_submission_id r') s' = Some r"
      using s'(3) r by blast
    then show ?thesis
      using r' by (cases "unfrozen r") (simp_all add: state_of_Some unfrozen_def state_name_def)
  qed
  then show ?thesis
    using queued_total [OF wf'] s'(1,3) by blast
qed

text \<open>A database of an earlier version: the first Submission has no frozen profile.\<close>

definition demo_legacy :: store where
  "demo_legacy = demo_queued\<lparr>submissions := update_where (\<lambda>r. s_submission_id r = ''sub_1'')
     (\<lambda>r. r\<lparr>s_profile_config := None\<rparr>) (submissions demo_queued)\<rparr>"

interpretation legacy: row_change "''sub_1''" "\<lambda>r. s_submission_id r = ''sub_1''"
  "\<lambda>r. r\<lparr>s_profile_config := None\<rparr>"
  by unfold_locales (auto simp: row_ok_def occupying_def)

lemma wf_demo_legacy: "wf_store demo_legacy"
  using wf_reachable [OF demo_reachable(1)] legacy.core_change legacy.log_change
  by (auto simp: wf_store_def demo_legacy_def revision_ok_def ball_update_where)

lemma queue_readable_after_reject_witness:
  "\<exists>s' n qs. reject_unfrozen_queued (\<lambda>i. (9, (i, 9))) demo_legacy = (s', Inr n) \<and>
     state_of ''sub_1'' s' = Some Failed \<and> queued s' = Inr qs"
proof -
  have one: "map s_submission_id (filter unfrozen (submissions demo_legacy)) = [''sub_1'']"
    "map e_event_id (events demo_legacy) = [''evt_e1'']" "map s_submission_id (submissions demo_legacy) = [''sub_1'']"
    by code_simp+
  have row: "fetch_submission ''sub_1'' demo_legacy = Some (submissions demo_legacy ! 0)"
    "\<forall>r \<in> set (submissions demo_legacy). s_latest_event_sequence r + 1 < 2 ^ 63"
    "unfrozen (submissions demo_legacy ! 0)"
    by code_simp+
  have fresh: "fresh_ids (rejection_ids (\<lambda>i. (9, (i, 9)))
      (map s_submission_id (filter unfrozen (submissions demo_legacy)))) demo_legacy"
    unfolding one fresh_ids_def
    by (simp add: rejection_ids_def list.set_map [symmetric] one del: list.set_map)
  obtain s' n qs where run: "reject_unfrozen_queued (\<lambda>i. (9, (i, 9))) demo_legacy = (s', Inr n)"
    "queued s' = Inr qs" and
    rows: "\<forall>i r. fetch_submission i demo_legacy = Some r \<longrightarrow>
      (if unfrozen r then state_of i s' = Some Failed else fetch_submission i s' = Some r)"
    using queue_readable_after_reject [OF wf_demo_legacy fresh roomI [OF row(2)]] by blast
  have "state_of ''sub_1'' s' = Some Failed"
    using rows [rule_format, OF row(1)] row(3) by simp
  with run show ?thesis by blast
qed

end
