(* ===== verification/Capacity.thy ===== *)
theory Capacity
  imports StoreOps
begin

text \<open>
  \<open>crates/service/src/capacity.rs\<close>: probes of upstream capacity and the decision how many
  more attempts a source admits.

  \<^item> \<open>observations\<close> is the \<open>HashMap\<close> behind the lock; the manager's store is passed along.
  \<^item> The probe process is the environment: \<open>probe_child\<close> says what it did, \<open>from_slice\<close> is
    the JSON decoder of the response; clocks (\<open>Utc::now()\<close>, and \<open>Instant::now()\<close> for the
    next poll) are arguments.
  \<^item> The locale \<open>capacity_provider\<close> is what the scheduler relies on: a positive answer leaves
    room under the limit after the reserve, counting the attempts the daemon itself holds.
\<close>

section \<open>Observations\<close>

definition MAX_PROBE_OUTPUT_BYTES :: nat where
  "MAX_PROBE_OUTPUT_BYTES = 64 * 1024"

datatype probe_health = Healthy | Unavailable

datatype usage_kind = TotalInUse | ExternalInUse

record capacity_usage =
  cu_kind :: usage_kind
  cu_count :: u32

record capacity_probe_response =
  cp_protocol_version :: u8
  cp_observed_at :: time
  cp_health :: probe_health
  cp_usage :: "capacity_usage option"

record observation =
  ob_response :: capacity_probe_response
  ob_received_at :: time
  ob_next_poll :: time

type_synonym observations = "string \<rightharpoonup> observation"

definition seconds :: "u64 \<Rightarrow> int" where
  "seconds n = uint n * nanos_per_second"

text \<open>\<open>i64::try_from\<close> of a \<open>u64\<close>.\<close>

definition i64_of_u64 :: "u64 \<Rightarrow> int option" where
  "i64_of_u64 n = (if uint n < 2 ^ 63 then Some (uint n) else None)"

fun initialize :: "time \<Rightarrow> time \<Rightarrow> source_config list \<Rightarrow> observations \<Rightarrow> observations" where
  "initialize now instant [] obs = obs"
| "initialize now instant (source # sources) obs =
     initialize now instant sources
       (if so_monitor source = MonitorStatic
        then obs(so_id source \<mapsto> \<lparr>ob_response = \<lparr>cp_protocol_version = 1, cp_observed_at = now,
                cp_health = Healthy, cp_usage = None\<rparr>,
              ob_received_at = now, ob_next_poll = instant + seconds 86400\<rparr>)
        else obs)"

section \<open>Running a probe\<close>

datatype probe_child =
    SpawnFailed
  | WriteFailed
  | ProbeTimedOut
  | ReadFailed
  | Exited bool string

datatype probe_error =
    NotACommand | NotAbsolute | CannotStart | CannotWrite | ProbeTimeout | CannotRead
  | BadStatus | OutputTooLong | Undecodable | BadProtocol | NoUsage | AgeTooLarge | BadTimestamp

text \<open>
  What comes after the child ended with its whole standard output: at most one byte over the
  limit was read, so a longer output is seen as too long.
\<close>

definition check_response ::
  "time \<Rightarrow> u64 \<Rightarrow> capacity_probe_response \<Rightarrow> probe_error + capacity_probe_response" where
  "check_response now max_age_seconds response =
     (if cp_protocol_version response \<noteq> 1 then Inl BadProtocol
      else if cp_health response = Healthy \<and> cp_usage response = None then Inl NoUsage
      else
        let age = num_seconds (now - cp_observed_at response) in
        if age < - 30 then Inl BadTimestamp
        else case i64_of_u64 max_age_seconds of
          None \<Rightarrow> Inl AgeTooLarge
        | Some max_age \<Rightarrow> if age > max_age then Inl BadTimestamp else Inr response)"

fun run_probe ::
  "(string \<Rightarrow> capacity_probe_response option) \<Rightarrow> time \<Rightarrow> probe_child \<Rightarrow> source_config \<Rightarrow>
     probe_error + capacity_probe_response" where
  "run_probe from_slice now child source =
     (case so_monitor source of
        MonitorStatic \<Rightarrow> Inl NotACommand
      | MonitorCommand program args interval_seconds timeout_seconds max_age_seconds \<Rightarrow>
          if \<not> is_absolute program then Inl NotAbsolute
          else (case child of
              SpawnFailed \<Rightarrow> Inl CannotStart
            | WriteFailed \<Rightarrow> Inl CannotWrite
            | ProbeTimedOut \<Rightarrow> Inl ProbeTimeout
            | ReadFailed \<Rightarrow> Inl CannotRead
            | Exited success stdout \<Rightarrow>
                let output = take (MAX_PROBE_OUTPUT_BYTES + 1) stdout in
                if \<not> success then Inl BadStatus
                else if length output > MAX_PROBE_OUTPUT_BYTES then Inl OutputTooLong
                else try_bind (ok_or Undecodable (from_slice output))
                  (check_response now max_age_seconds)))"

fun usage_name :: "usage_kind \<Rightarrow> string" where
  "usage_name TotalInUse = ''total_in_use''"
| "usage_name ExternalInUse = ''external_in_use''"

fun health_name :: "probe_health \<Rightarrow> string" where
  "health_name Healthy = ''healthy''"
| "health_name Unavailable = ''unavailable''"

section \<open>Refreshing\<close>

text \<open>
  What the environment does for one source of a refresh: the monotonic clock when \<open>due\<close> is
  tested, the child, the wall clock when the answer is checked and recorded, and the
  monotonic clock from which the next poll counts.
\<close>

record probe_env =
  pe_instant :: time
  pe_child :: probe_child
  pe_checked_at :: time
  pe_received_at :: time
  pe_polled_at :: time

definition due :: "time \<Rightarrow> string \<Rightarrow> observations \<Rightarrow> bool" where
  "due instant source_id obs =
     (case obs source_id of None \<Rightarrow> True | Some ob \<Rightarrow> ob_next_poll ob \<le> instant)"

definition unavailable_response :: "time \<Rightarrow> capacity_probe_response" where
  "unavailable_response now = \<lparr>cp_protocol_version = 1, cp_observed_at = now,
     cp_health = Unavailable, cp_usage = None\<rparr>"

definition refresh_source ::
  "(string \<Rightarrow> capacity_probe_response option) \<Rightarrow> probe_env \<Rightarrow> source_config \<Rightarrow>
     observations \<times> store \<Rightarrow> observations \<times> store" where
  "refresh_source from_slice env source st =
     (case st of (obs, s) \<Rightarrow>
      case so_monitor source of
        MonitorStatic \<Rightarrow> (obs, s)
      | MonitorCommand program args interval_seconds timeout_seconds max_age_seconds \<Rightarrow>
          if \<not> due (pe_instant env) (so_id source) obs then (obs, s)
          else
            let next_poll = pe_polled_at env + seconds interval_seconds;
                now = pe_received_at env in
            (case run_probe from_slice (pe_checked_at env) (pe_child env) source of
               Inr response \<Rightarrow>
                 (obs(so_id source \<mapsto> \<lparr>ob_response = response, ob_received_at = now,
                    ob_next_poll = next_poll\<rparr>),
                  record_capacity now (so_id source) (health_name (cp_health response))
                    (map_option (\<lambda>usage. usage_name (cu_kind usage)) (cp_usage response))
                    (map_option cu_count (cp_usage response))
                    (Some (cp_observed_at response)) s)
             | Inl error \<Rightarrow>
                 (obs(so_id source \<mapsto> \<lparr>ob_response = unavailable_response now,
                    ob_received_at = now, ob_next_poll = next_poll\<rparr>),
                  record_capacity now (so_id source) ''unknown'' None None None s)))"

fun refresh_due ::
  "(string \<Rightarrow> capacity_probe_response option) \<Rightarrow> (string \<Rightarrow> probe_env) \<Rightarrow> source_config list \<Rightarrow>
     observations \<times> store \<Rightarrow> observations \<times> store" where
  "refresh_due from_slice env [] st = st"
| "refresh_due from_slice env (source # sources) st =
     refresh_due from_slice env sources (refresh_source from_slice (env (so_id source)) source st)"

section \<open>Availability\<close>

definition used_capacity :: "u32 \<Rightarrow> capacity_usage option \<Rightarrow> u32" where
  "used_capacity active_leases usage =
     (case usage of
        None \<Rightarrow> active_leases
      | Some u \<Rightarrow>
          if cu_kind u = TotalInUse then max active_leases (cu_count u)
          else saturating_add active_leases (cu_count u))"

definition available :: "time \<Rightarrow> observations \<Rightarrow> source_config \<Rightarrow> u32 \<Rightarrow> u32 option" where
  "available now obs source active_leases =
     (case obs (so_id source) of
        None \<Rightarrow> None
      | Some ob \<Rightarrow>
          if cp_health (ob_response ob) \<noteq> Healthy then Some 0
          else
            let free = Some (saturating_sub (saturating_sub (so_concurrency_limit source)
                  (used_capacity active_leases (cp_usage (ob_response ob))))
                (so_safety_reserve source)) in
            (case so_monitor source of
               MonitorStatic \<Rightarrow> free
             | MonitorCommand program args interval_seconds timeout_seconds max_age_seconds \<Rightarrow>
                 (case i64_of_u64 max_age_seconds of
                    None \<Rightarrow> None
                  | Some max_age \<Rightarrow>
                      if num_seconds (now - ob_received_at ob) > max_age then None else free)))"

section \<open>What a positive answer means\<close>

lemma used_capacity_ge: "unat active_leases \<le> unat (used_capacity active_leases usage)"
  using unsigned_less [of active_leases, where 'a = nat]
  by (cases usage) (auto simp: used_capacity_def rust_arith max_def word_le_nat_alt)

lemma used_capacity_reported:
  "usage = Some u \<Longrightarrow> (if cu_kind u = TotalInUse then unat (cu_count u)
      else min (unat active_leases + unat (cu_count u)) (2 ^ 32 - 1)) \<le>
    unat (used_capacity active_leases usage)"
  by (auto simp: used_capacity_def rust_arith max_def word_le_nat_alt)

lemma available_SomeD:
  assumes "available now obs source active = Some n"
  obtains ob where "obs (so_id source) = Some ob"
    and "cp_health (ob_response ob) \<noteq> Healthy \<and> n = 0 \<or> cp_health (ob_response ob) = Healthy \<and>
      unat n = unat (so_concurrency_limit source) -
        unat (used_capacity active (cp_usage (ob_response ob))) - unat (so_safety_reserve source)"
  using assms
  by (auto simp: available_def Let_def rust_arith
      split: option.splits if_splits capacity_monitor_config.splits)

text \<open>
  The contract between the capacity manager and the scheduler. \<open>answer\<close> is the decision for a
  number of active leases, \<open>limit\<close> and \<open>reserve\<close> the source's configuration.
\<close>

locale capacity_provider =
  fixes answer :: "u32 \<Rightarrow> u32 option"
    and limit :: nat
    and reserve :: nat
  assumes room: "answer active = Some n \<Longrightarrow> 0 < n \<Longrightarrow> unat active + reserve + unat n \<le> limit"
begin

lemma one_more:
  assumes "answer active = Some n" and "0 < n"
  shows "unat active + 1 \<le> limit - reserve"
proof -
  have "0 < unat n" using assms(2) by (simp add: unat_gt_0)
  then show ?thesis using room [OF assms] by linarith
qed

lemma never_full: "limit - reserve \<le> unat active \<Longrightarrow> answer active = Some n \<Longrightarrow> n = 0"
  using one_more [of active n] by (cases "n = 0") (auto simp: word_neq_0_conv)

end

lemma available_room:
  assumes "available now obs source active = Some n" and "0 < n"
  shows "unat active + unat (so_safety_reserve source) + unat n \<le> unat (so_concurrency_limit source)"
  using assms(1)
proof (rule available_SomeD)
  fix ob
  assume "cp_health (ob_response ob) \<noteq> Healthy \<and> n = 0 \<or> cp_health (ob_response ob) = Healthy \<and>
      unat n = unat (so_concurrency_limit source) -
        unat (used_capacity active (cp_usage (ob_response ob))) - unat (so_safety_reserve source)"
  moreover have "0 < unat n" using assms(2) by (simp add: unat_gt_0)
  ultimately show ?thesis
    using used_capacity_ge [of active "cp_usage (ob_response ob)"] assms(2) by auto
qed

interpretation manager: capacity_provider "available now obs source"
  "unat (so_concurrency_limit source)" "unat (so_safety_reserve source)"
  by unfold_locales (rule available_room)

section \<open>Properties\<close>

text \<open>
  C14: a source never admits an attempt beyond its limit: when the answer is \<open>Some n\<close>, the
  attempts the daemon holds, what the probe reported in use, the reserve and the \<open>n\<close> more
  stay within the configured limit (a total-usage report counts the daemon's attempts already,
  an external one is added to them).
\<close>

theorem available_within_limit:
  assumes "available now obs source active = Some n" and "0 < n"
    and "obs (so_id source) = Some ob"
  shows "cp_health (ob_response ob) = Healthy \<and>
    (case cp_usage (ob_response ob) of
       None \<Rightarrow> unat active
     | Some u \<Rightarrow> (case cu_kind u of
           TotalInUse \<Rightarrow> max (unat active) (unat (cu_count u))
         | ExternalInUse \<Rightarrow> min (unat active + unat (cu_count u)) (2 ^ 32 - 1)))
      + unat (so_safety_reserve source) + unat n = unat (so_concurrency_limit source)"
proof -
  have "0 < unat n" using assms(2) by (simp add: unat_gt_0)
  then show ?thesis
    using assms(1,3) available_room [OF assms(1,2)]
    by (auto elim!: available_SomeD
        simp: used_capacity_def rust_arith max_def word_le_nat_alt split: option.splits usage_kind.splits)
qed

definition demo_source :: source_config where
  "demo_source = \<lparr>so_id = ''src'', so_label = ''Src'', so_concurrency_limit = 10, so_safety_reserve = 1,
     so_monitor = MonitorCommand ''/p'' [] 60 5 120\<rparr>"

definition demo_observation :: "capacity_usage option \<Rightarrow> observation" where
  "demo_observation usage = \<lparr>ob_response = \<lparr>cp_protocol_version = 1, cp_observed_at = 0,
     cp_health = Healthy, cp_usage = usage\<rparr>, ob_received_at = 0, ob_next_poll = 0\<rparr>"

lemma available_within_limit_witness:
  "available 0 [''src'' \<mapsto> demo_observation (Some \<lparr>cu_kind = ExternalInUse, cu_count = 4\<rparr>)] demo_source 2
     = Some 3 \<and> (min (2 + 4) (2 ^ 32 - 1)) + 1 + 3 = (10::nat)"
proof -
  let ?obs = "[''src'' \<mapsto> demo_observation (Some \<lparr>cu_kind = ExternalInUse, cu_count = 4\<rparr>)]"
  have a: "available 0 ?obs demo_source 2 = Some 3"
    unfolding available_def demo_source_def demo_observation_def used_capacity_def saturating_add_code
      saturating_sub_def i64_of_u64_def num_seconds_def trunc_div_def Let_def
    by simp
  have "?obs (so_id demo_source) = Some (demo_observation (Some \<lparr>cu_kind = ExternalInUse, cu_count = 4\<rparr>))"
    by (simp add: demo_source_def)
  from available_within_limit [OF a _ this] have "min (2 + 4) (2 ^ 32 - 1) + 1 + 3 = (10::nat)"
    by (simp add: demo_observation_def demo_source_def)
  with a show ?thesis by blast
qed

text \<open>
  What a poll must yield to be believed: a program with an absolute path that was started, took the
  request, ended in time with success and wrote at most 64 KiB that decode to a response of protocol
  version 1, with a usage if it says healthy, taken at most \<open>max_age\<close> seconds ago and at most 30
  seconds in the future by the daemon's clock.
\<close>

definition probe_trusted ::
  "(string \<Rightarrow> capacity_probe_response option) \<Rightarrow> time \<Rightarrow> string \<Rightarrow> u64 \<Rightarrow> probe_child \<Rightarrow>
     capacity_probe_response \<Rightarrow> bool" where
  "probe_trusted from_slice now program max_age child response \<longleftrightarrow>
     is_absolute program \<and>
     (\<exists>stdout. child = Exited True stdout \<and> length stdout \<le> 65536 \<and> from_slice stdout = Some response) \<and>
     cp_protocol_version response = 1 \<and>
     (cp_health response = Healthy \<longrightarrow> cp_usage response \<noteq> None) \<and>
     uint max_age < 2 ^ 63 \<and>
     num_seconds (now - cp_observed_at response) \<in> {-30 .. uint max_age}"

lemma check_response_Inr:
  "check_response now max_age response = Inr r \<longleftrightarrow> r = response \<and> cp_protocol_version response = 1 \<and>
     (cp_health response = Healthy \<longrightarrow> cp_usage response \<noteq> None) \<and> uint max_age < 2 ^ 63 \<and>
     num_seconds (now - cp_observed_at response) \<in> {-30 .. uint max_age}"
  by (auto simp: check_response_def i64_of_u64_def Let_def)

lemma run_probe_Inr:
  assumes "so_monitor source = MonitorCommand program args interval timeout_s max_age"
  shows "run_probe from_slice now child source = Inr response \<longleftrightarrow>
    probe_trusted from_slice now program max_age child response"
  by (cases child)
    (auto simp: assms probe_trusted_def result_simps check_response_Inr MAX_PROBE_OUTPUT_BYTES_def Let_def)

lemma run_probe_Inl:
  assumes "so_monitor source = MonitorCommand program args interval timeout_s max_age"
    and "\<forall>response. \<not> probe_trusted from_slice now program max_age child response"
  obtains e where "run_probe from_slice now child source = Inl e"
  using assms run_probe_Inr [OF assms(1)] by (metis sum.exhaust)

lemma refresh_failed:
  assumes "so_monitor source = MonitorCommand program args interval timeout_s max_age"
    and "due (pe_instant env) (so_id source) obs"
    and "run_probe from_slice (pe_checked_at env) (pe_child env) source = Inl err"
    and "refresh_source from_slice env source (obs, s) = (obs', s')"
  shows "available now obs' source active = Some 0 \<and> (\<forall>i. i \<noteq> so_id source \<longrightarrow> obs' i = obs i)"
  using assms by (auto simp: refresh_source_def Let_def available_def unavailable_response_def)

lemma refresh_believed:
  assumes "so_monitor source = MonitorCommand program args interval timeout_s max_age"
    and "due (pe_instant env) (so_id source) obs"
    and "run_probe from_slice (pe_checked_at env) (pe_child env) source = Inr response"
    and "refresh_source from_slice env source (obs, s) = (obs', s')"
  shows "obs' = obs(so_id source \<mapsto> \<lparr>ob_response = response, ob_received_at = pe_received_at env,
    ob_next_poll = pe_polled_at env + seconds interval\<rparr>)"
  using assms by (auto simp: refresh_source_def Let_def)

text \<open>
  C15: capacity fails closed. After a poll the source admits nothing, whatever is leased, unless the
  probe was trusted: its program absolute, started, given the request, read and ended in time with
  success, its output at most 64 KiB and decodable, of protocol version 1, with a usage if healthy,
  and observed at most the maximal age ago and at most 30 seconds in the future (the code tolerates
  these 30 seconds, where intranet-deployment.md:323 closes on any future timestamp). A trusted
  response is recorded as it is; the other sources are left alone; and an observation older than
  the maximal age counts as no observation.
\<close>

theorem probe_failure_closes_source:
  assumes "so_monitor source = MonitorCommand program args interval timeout_s max_age"
    and "due (pe_instant env) (so_id source) obs"
    and "refresh_source from_slice env source (obs, s) = (obs', s')"
  shows "((\<forall>response. \<not> probe_trusted from_slice (pe_checked_at env) program max_age (pe_child env) response) \<longrightarrow>
      available now obs' source active = Some 0) \<and>
    (\<forall>response. probe_trusted from_slice (pe_checked_at env) program max_age (pe_child env) response \<longrightarrow>
      (\<exists>new. obs' (so_id source) = Some new \<and> ob_response new = response)) \<and>
    (\<forall>i. i \<noteq> so_id source \<longrightarrow> obs' i = obs i) \<and>
    (obs (so_id source) = Some ob \<and> cp_health (ob_response ob) = Healthy \<and> uint max_age < 2 ^ 63 \<and>
      uint max_age < num_seconds (now - ob_received_at ob) \<longrightarrow> available now obs source active = None)"
proof -
  let ?run = "run_probe from_slice (pe_checked_at env) (pe_child env) source"
  note iff = run_probe_Inr [OF assms(1), of from_slice "pe_checked_at env" "pe_child env"]
  have stale: "available now obs source active = None"
    if "obs (so_id source) = Some ob" "cp_health (ob_response ob) = Healthy" "uint max_age < 2 ^ 63"
      "uint max_age < num_seconds (now - ob_received_at ob)"
    using that assms(1) by (simp add: available_def i64_of_u64_def Let_def)
  show ?thesis
  proof (cases ?run)
    case (Inl err)
    then show ?thesis
      using refresh_failed [OF assms(1,2) Inl assms(3)] iff stale by auto
  next
    case (Inr response)
    then show ?thesis
      using refresh_believed [OF assms(1,2) Inr assms(3)] iff stale by auto
  qed
qed

definition demo_probe :: "probe_child \<Rightarrow> probe_env" where
  "demo_probe child = \<lparr>pe_instant = 0, pe_child = child, pe_checked_at = 0, pe_received_at = 0,
     pe_polled_at = 0\<rparr>"

definition demo_sample :: "u8 \<Rightarrow> capacity_probe_response" where
  "demo_sample version = \<lparr>cp_protocol_version = version, cp_observed_at = 0, cp_health = Healthy,
     cp_usage = Some \<lparr>cu_kind = TotalInUse, cu_count = 2\<rparr>\<rparr>"

definition demo_decode :: "string \<Rightarrow> capacity_probe_response option" where
  "demo_decode out = (if out = ''old'' then Some (demo_sample 2)
     else if out = ''good'' then Some (demo_sample 1) else None)"

lemma probe_failure_closes_source_witness:
  "available 5 (fst (refresh_source demo_decode (demo_probe (Exited True ''old'')) demo_source
     (Map.empty, empty_store))) demo_source 0 = Some 0 \<and>
   (\<exists>new. fst (refresh_source demo_decode (demo_probe (Exited True ''good'')) demo_source
     (Map.empty, empty_store)) ''src'' = Some new \<and> ob_response new = demo_sample 1)"
proof
  have monitor: "so_monitor demo_source = MonitorCommand ''/p'' [] 60 5 120" and key: "so_id demo_source = ''src''"
    by (simp_all add: demo_source_def)
  have due: "due (pe_instant (demo_probe child)) (so_id demo_source) Map.empty" for child
    by (simp add: due_def)
  note closes = probe_failure_closes_source [OF monitor due, of demo_decode _ empty_store]
  have "\<not> probe_trusted demo_decode 0 ''/p'' 120 (Exited True ''old'') r" for r
    by (auto simp: probe_trusted_def demo_decode_def demo_sample_def)
  then show "available 5 (fst (refresh_source demo_decode (demo_probe (Exited True ''old'')) demo_source
     (Map.empty, empty_store))) demo_source 0 = Some 0"
    using closes [OF prod.collapse [symmetric], of "Exited True ''old''"] by (simp add: demo_probe_def)
  have "probe_trusted demo_decode 0 ''/p'' 120 (Exited True ''good'') (demo_sample 1)"
    by (simp add: probe_trusted_def demo_decode_def demo_sample_def is_absolute_def num_seconds_def trunc_div_def)
  then show "\<exists>new. fst (refresh_source demo_decode (demo_probe (Exited True ''good'')) demo_source
     (Map.empty, empty_store)) ''src'' = Some new \<and> ob_response new = demo_sample 1"
    using closes [OF prod.collapse [symmetric], of "Exited True ''good''"] by (simp add: demo_probe_def key)
qed

end
