(* ===== verification/Utf8.thy ===== *)
theory Utf8
  imports Prelude "HOL-Library.Sublist"
begin

text \<open>
  Rust strings are byte strings that hold valid UTF-8; a HOL \<open>char\<close> is one byte, so
  \<open>length\<close> is \<open>str::len\<close>. This theory holds \<open>str::is_char_boundary\<close>, the
  backward search both truncation routines of the program run (scheduler and runtime
  binding), and the interface \<open>byte_truncation\<close> the two of them share: the longest
  prefix that fits a byte budget and ends on a character boundary.
\<close>

definition continuation :: "char \<Rightarrow> bool" where
  "continuation c \<longleftrightarrow> 128 \<le> (of_char c :: nat) \<and> (of_char c :: nat) < 192"

definition is_char_boundary :: "string \<Rightarrow> nat \<Rightarrow> bool" where
  "is_char_boundary s i \<longleftrightarrow>
     i = 0 \<or> i = length s \<or> (i < length s \<and> \<not> continuation (s ! i))"

text \<open>\<open>while boundary > 0 && !is_char_boundary(boundary) { boundary -= 1; }\<close>\<close>

fun boundary_down :: "string \<Rightarrow> nat \<Rightarrow> nat" where
  "boundary_down s 0 = 0"
| "boundary_down s (Suc n) = (if is_char_boundary s (Suc n) then Suc n else boundary_down s n)"

text \<open>
  Valid UTF-8, as far as the boundary search depends on it: every character is a lead byte
  followed by as many continuation bytes as the lead byte announces, three at most.
\<close>

definition trail_bytes :: "char \<Rightarrow> nat option" where
  "trail_bytes c = (let b = (of_char c :: nat) in
     if b < 128 then Some 0
     else if 192 \<le> b \<and> b < 224 then Some 1
     else if 224 \<le> b \<and> b < 240 then Some 2
     else if 240 \<le> b \<and> b < 248 then Some 3
     else None)"

fun utf8 :: "string \<Rightarrow> bool" where
  "utf8 [] = True"
| "utf8 (c # cs) = (case trail_bytes c of
       None \<Rightarrow> False
     | Some k \<Rightarrow> k \<le> length cs \<and> list_all continuation (take k cs) \<and> utf8 (drop k cs))"

section \<open>The boundary search\<close>

lemma boundary_down_le: "boundary_down s n \<le> n"
  by (induction n) auto

lemma boundary_down_boundary: "is_char_boundary s (boundary_down s n)"
  by (induction n) (auto simp: is_char_boundary_def)

lemma boundary_down_max: "i \<le> n \<Longrightarrow> is_char_boundary s i \<Longrightarrow> i \<le> boundary_down s n"
  by (induction n) (auto simp: le_Suc_eq)

lemma boundary_down_eqI:
  "m \<le> n \<Longrightarrow> is_char_boundary s m \<Longrightarrow> (\<And>i. i \<le> n \<Longrightarrow> is_char_boundary s i \<Longrightarrow> i \<le> m) \<Longrightarrow>
     boundary_down s n = m"
  by (simp add: boundary_down_boundary boundary_down_le boundary_down_max le_antisym)

text \<open>The search reads only the bytes up to the budget.\<close>

lemma boundary_down_cong:
  assumes "n < length s" and "n < length t" and "take (Suc n) s = take (Suc n) t"
  shows "boundary_down s n = boundary_down t n"
proof -
  have "s ! i = t ! i" if "i \<le> n" for i
    using assms(3) that by (metis le_imp_less_Suc nth_take)
  then have "is_char_boundary s i \<longleftrightarrow> is_char_boundary t i" if "i \<le> n" for i
    using that assms(1,2) by (auto simp: is_char_boundary_def)
  then show ?thesis
    by (intro boundary_down_eqI) (auto simp: boundary_down_le boundary_down_boundary boundary_down_max)
qed

lemma trail_bytes_le: "trail_bytes c = Some k \<Longrightarrow> k \<le> 3"
  by (auto simp: trail_bytes_def Let_def split: if_splits)

lemma trail_bytes_lead: "trail_bytes c = Some k \<Longrightarrow> \<not> continuation c"
  by (auto simp: trail_bytes_def continuation_def Let_def split: if_splits)

lemma is_char_boundary_drop:
  assumes "k \<le> length s" and "is_char_boundary s k"
  shows "is_char_boundary (drop k s) i \<Longrightarrow> is_char_boundary s (k + i)"
  using assms by (auto simp: is_char_boundary_def)

text \<open>In valid UTF-8 a boundary is never more than three bytes back.\<close>

lemma utf8_boundary_near: "utf8 s \<Longrightarrow> n \<le> length s \<Longrightarrow> \<exists>b \<le> n. n \<le> b + 3 \<and> is_char_boundary s b"
proof (induction s arbitrary: n rule: utf8.induct)
  case 1
  then show ?case by (auto simp: is_char_boundary_def)
next
  case (2 c cs)
  from "2.prems"(1) obtain k where k: "trail_bytes c = Some k" and len: "k \<le> length cs"
    and rest: "utf8 (drop k cs)"
    by (auto split: option.splits)
  have k3: "k \<le> 3" using k by (rule trail_bytes_le)
  show ?case
  proof (cases "n \<le> k")
    case True
    have "is_char_boundary (c # cs) 0" by (simp add: is_char_boundary_def)
    with True k3 show ?thesis by (intro exI [of _ 0]) auto
  next
    case False
    then obtain m where n: "n = Suc k + m" by (metis add_Suc less_imp_Suc_add not_le)
    with "2.prems"(2) have "m \<le> length (drop k cs)" by simp
    with "2.IH" k rest obtain b where b: "b \<le> m" "m \<le> b + 3" "is_char_boundary (drop k cs) b"
      by blast
    have start: "is_char_boundary (c # cs) (Suc k)"
    proof (cases "drop k cs")
      case Nil
      with len show ?thesis by (simp add: is_char_boundary_def)
    next
      case (Cons d ds)
      with rest have "\<not> continuation d"
        by (auto split: option.splits dest: trail_bytes_lead)
      moreover have "(c # cs) ! Suc k = d"
        using Cons by (simp add: nth_via_drop)
      ultimately show ?thesis
        using Cons by (auto simp: is_char_boundary_def)
    qed
    have "is_char_boundary (c # cs) (Suc k + b)"
      using is_char_boundary_drop [of "Suc k" "c # cs" b] start b(3) len by simp
    with b n show ?thesis by (intro exI [of _ "Suc k + b"]) auto
  qed
qed

lemma boundary_down_near: "utf8 s \<Longrightarrow> n \<le> length s \<Longrightarrow> n \<le> boundary_down s n + 3"
  using utf8_boundary_near [of s n] boundary_down_max
  by (metis add_le_mono1 order_trans)

section \<open>Truncation to a byte budget\<close>

locale byte_truncation =
  fixes cut :: "string \<Rightarrow> nat \<Rightarrow> string"
  assumes cut_prefix: "prefix (cut s n) s"
    and cut_bound: "length (cut s n) \<le> n"
    and cut_boundary: "is_char_boundary s (length (cut s n))"
    and cut_longest: "i \<le> n \<Longrightarrow> i \<le> length s \<Longrightarrow> is_char_boundary s i \<Longrightarrow> i \<le> length (cut s n)"
begin

lemma cut_is_take: "cut s n = take (length (cut s n)) s"
  using cut_prefix [of s n] by (metis append_eq_conv_conj prefixE)

lemma cut_short: "length s \<le> n \<Longrightarrow> cut s n = s"
proof -
  assume "length s \<le> n"
  then have "length s \<le> length (cut s n)"
    by (intro cut_longest) (auto simp: is_char_boundary_def)
  then show ?thesis using cut_is_take [of s n] by simp
qed

lemma cut_length: "n < length s \<Longrightarrow> length (cut s n) = boundary_down s n"
  by (rule boundary_down_eqI [symmetric])
    (auto simp: cut_bound cut_boundary intro: cut_longest)

lemma cut_near: "utf8 s \<Longrightarrow> n \<le> length s \<Longrightarrow> n \<le> length (cut s n) + 3"
  using cut_length [of n s] boundary_down_near [of s n] cut_short [of s n]
  by (cases "n < length s") auto

text \<open>Two strings that agree up to the first byte over the budget are cut alike.\<close>

lemma cut_cong:
  assumes "n < length s" and "n < length t" and "take (Suc n) s = take (Suc n) t"
  shows "cut s n = cut t n"
proof -
  have len: "length (cut s n) = length (cut t n)"
    unfolding cut_length [OF assms(1)] cut_length [OF assms(2)]
    by (rule boundary_down_cong [OF assms])
  have short: "min (length (cut s n)) (Suc n) = length (cut s n)"
    using cut_bound [of s n] by simp
  have "take (length (cut s n)) (take (Suc n) s) = take (length (cut s n)) (take (Suc n) t)"
    by (rule arg_cong [OF assms(3)])
  then have "take (length (cut s n)) s = take (length (cut s n)) t"
    by (simp only: take_take short)
  then show ?thesis using cut_is_take len by metis
qed

end

text \<open>The contract determines the routine: two truncations that satisfy it are equal.\<close>

lemma byte_truncation_unique:
  assumes "byte_truncation f" and "byte_truncation g"
  shows "f s n = g s n"
proof (cases "length s \<le> n")
  case True
  then show ?thesis
    by (simp add: byte_truncation.cut_short [OF assms(1)] byte_truncation.cut_short [OF assms(2)])
next
  case False
  then have "length (f s n) = length (g s n)"
    by (simp add: byte_truncation.cut_length [OF assms(1)] byte_truncation.cut_length [OF assms(2)])
  then show ?thesis
    by (metis byte_truncation.cut_is_take [OF assms(1)] byte_truncation.cut_is_take [OF assms(2)])
qed

end
