(* ===== verification/Runtime.thy ===== *)
theory Runtime
  imports Json Utf8
begin

text \<open>
  \<open>crates/runtime-sandbox-agent/src/lib.rs\<close>: one prompt driven through a Sandbox Agent.

  \<^item> Messages are \<open>json\<close> values; what the code asks of a message (\<open>normalize_event\<close>,
    \<open>is_response_for\<close>, \<open>is_permission_request\<close>, ...) is a function of the value.
  \<^item> The HTTP peer, the clocks and the child process are the environment: a run consumes a
    list of \<open>prompt_input\<close>, one element per branch a \<open>select!\<close> took, with the outcome of the
    requests the code makes in that branch. \<open>None\<close> means the run is still waiting. \<open>shutdown\<close> is what
    happened between the decision on the completion and the end of the run.
  \<^item> Library code is a parameter: \<open>render\<close> prints JSON, \<open>as_f64\<close> reads a number as a double.
  \<^item> \<open>usize\<close> is 64 bits wide; lengths are natural numbers below that, and \<open>saturating_sub\<close> of
    lengths is subtraction on them.
\<close>

record usage_cost =
  uc_amount :: u64
  uc_currency :: string

record plan_entry =
  pe_content :: string
  pe_priority :: "string option"
  pe_status :: "string option"

datatype runtime_event =
    Started "string option"
  | MessageDelta string
  | Tool string string
  | Plan "plan_entry list"
  | Usage u64 u64 "usage_cost option"
  | RunCompleted string
  | RunCancelled
  | RunFailed string string
  | RunUncertain string string

text \<open>\<open>matches!(event, Completed | Cancelled | Failed | Uncertain)\<close>\<close>

definition terminal_event :: "runtime_event \<Rightarrow> bool" where
  "terminal_event e = (case e of
       RunCompleted output \<Rightarrow> True | RunCancelled \<Rightarrow> True
     | RunFailed code message \<Rightarrow> True | RunUncertain code message \<Rightarrow> True | _ \<Rightarrow> False)"

section \<open>Strings\<close>

definition truncate_to_bytes :: "string \<Rightarrow> nat \<Rightarrow> string" where
  "truncate_to_bytes value max_bytes =
     (if length value \<le> max_bytes then value
      else take (boundary_down value max_bytes) value)"

text \<open>\<open>value.get(..max).unwrap_or(value)\<close>\<close>

definition truncate_text :: "string \<Rightarrow> nat \<Rightarrow> string" where
  "truncate_text value maximum =
     (if maximum \<le> length value \<and> is_char_boundary value maximum then take maximum value
      else value)"

definition contains :: "string \<Rightarrow> string \<Rightarrow> bool" where
  "contains message pattern \<longleftrightarrow> list_ex (\<lambda>i. take (length pattern) (drop i message) = pattern)
     [0..<Suc (length message)]"

definition classify_error :: "string \<Rightarrow> string" where
  "classify_error message =
     (if contains message ''timeout'' then ''timeout''
      else if contains message ''authentication'' \<or> contains message ''login'' then ''source_auth_required''
      else if contains message ''did not discover'' \<or> contains message ''is not installed''
      then ''capability_unavailable''
      else ''runtime_unavailable'')"

section \<open>Reading messages\<close>

definition str_or :: "string \<Rightarrow> string \<Rightarrow> json \<Rightarrow> string" where
  "str_or key fallback v =
     (case Option.bind (json_get key v) as_str of None \<Rightarrow> fallback | Some x \<Rightarrow> x)"

definition plan_entry_of :: "json \<Rightarrow> plan_entry option" where
  "plan_entry_of entry =
     (case Option.bind (json_get ''content'' entry) as_str of
        None \<Rightarrow> None
      | Some content \<Rightarrow> Some \<lparr>pe_content = content,
          pe_priority = Option.bind (json_get ''priority'' entry) as_str,
          pe_status = Option.bind (json_get ''status'' entry) as_str\<rparr>)"

definition usage_cost_of :: "(json \<Rightarrow> u64 option) \<Rightarrow> json \<Rightarrow> usage_cost option" where
  "usage_cost_of as_f64 cost =
     (case (Option.bind (json_get ''amount'' cost) as_f64,
            Option.bind (json_get ''currency'' cost) as_str) of
        (Some amount, Some currency) \<Rightarrow> Some \<lparr>uc_amount = amount, uc_currency = currency\<rparr>
      | _ \<Rightarrow> None)"

definition normalize_update :: "(json \<Rightarrow> u64 option) \<Rightarrow> json \<Rightarrow> string \<Rightarrow> runtime_event option" where
  "normalize_update as_f64 update kind =
     (if kind = ''agent_message_chunk'' then
        map_option MessageDelta (Option.bind (json_pointer [''content'', ''text''] update) as_str)
      else if kind = ''tool_call'' \<or> kind = ''tool_call_update'' then
        Some (Tool (str_or ''title'' ''tool'' update) (str_or ''status'' ''unknown'' update))
      else if kind = ''plan'' then
        Some (Plan (List.map_filter plan_entry_of
          (case Option.bind (json_get ''entries'' update) as_array of None \<Rightarrow> [] | Some xs \<Rightarrow> xs)))
      else if kind = ''usage_update'' then
        (case (Option.bind (json_get ''used'' update) as_u64,
               Option.bind (json_get ''size'' update) as_u64) of
           (Some used, Some window) \<Rightarrow> Some (Usage used window
             (Option.bind (json_get ''cost'' update) (usage_cost_of as_f64)))
         | _ \<Rightarrow> None)
      else None)"

definition normalize_event :: "(json \<Rightarrow> u64 option) \<Rightarrow> json \<Rightarrow> runtime_event option" where
  "normalize_event as_f64 value =
     (case json_get ''params'' value of
        None \<Rightarrow> None
      | Some params \<Rightarrow>
          let update = (case json_get ''update'' params of None \<Rightarrow> params | Some u \<Rightarrow> u) in
          (case Option.bind (json_get ''sessionUpdate'' update) as_str of
             None \<Rightarrow> None
           | Some kind \<Rightarrow> normalize_update as_f64 update kind))"

definition is_response_for :: "json \<Rightarrow> u64 \<Rightarrow> bool" where
  "is_response_for value request_id \<longleftrightarrow>
     json_get ''method'' value = None \<and>
     Option.bind (json_get ''id'' value) as_u64 = Some request_id \<and>
     (json_get ''result'' value \<noteq> None \<or> json_get ''error'' value \<noteq> None)"

definition method_contains :: "json \<Rightarrow> string \<Rightarrow> bool" where
  "method_contains value pattern \<longleftrightarrow>
     (case Option.bind (json_get ''method'' value) as_str of
        None \<Rightarrow> False | Some m \<Rightarrow> contains m pattern)"

definition is_permission_request :: "json \<Rightarrow> bool" where
  "is_permission_request value \<longleftrightarrow>
     json_get ''id'' value \<noteq> None \<and> method_contains value ''request_permission''"

definition is_business_question :: "json \<Rightarrow> bool" where
  "is_business_question value \<longleftrightarrow> json_get ''id'' value \<noteq> None \<and>
     (method_contains value ''question'' \<or> method_contains value ''request_input'')"

section \<open>Permission requests\<close>

definition permission_options :: "json \<Rightarrow> json list option" where
  "permission_options request =
     (case Option.bind (json_pointer [''params'', ''options''] request) as_array of
        Some xs \<Rightarrow> Some xs
      | None \<Rightarrow> Option.bind (json_pointer [''params'', ''permission'', ''options''] request) as_array)"

definition allows :: "json \<Rightarrow> bool" where
  "allows option_value \<longleftrightarrow>
     (case Option.bind (json_get ''kind'' option_value) as_str of
        None \<Rightarrow> False | Some kind \<Rightarrow> kind = ''allow_once'' \<or> kind = ''allow'')"

definition option_id :: "json \<Rightarrow> json option" where
  "option_id option_value =
     (case json_get ''optionId'' option_value of
        Some v \<Rightarrow> Some v | None \<Rightarrow> json_get ''option_id'' option_value)"

definition selected_option :: "json \<Rightarrow> string + string" where
  "selected_option request =
     try_bind (ok_or ''permission request omitted options'' (permission_options request)) (\<lambda>options.
     ok_or ''permission request has no selectable option''
       (Option.bind (Option.bind
          (case find allows options of
             Some x \<Rightarrow> Some x
           | None \<Rightarrow> (case options of [] \<Rightarrow> None | x # _ \<Rightarrow> Some x))
          option_id) as_str))"

definition permission_response :: "json \<Rightarrow> string \<Rightarrow> json" where
  "permission_response identity selected =
     JObject [(''id'', identity), (''jsonrpc'', JString ''2.0''),
       (''result'', JObject [(''outcome'', JObject
          [(''optionId'', JString selected), (''outcome'', JString ''selected'')])])]"

text \<open>\<open>delivery\<close> is what became of the POST: \<open>None\<close> a success, or the error.\<close>

definition respond_permission :: "string option \<Rightarrow> json \<Rightarrow> string + json" where
  "respond_permission delivery request =
     try_bind (ok_or ''permission request omitted id'' (json_get ''id'' request)) (\<lambda>identity.
     try_bind (selected_option request) (\<lambda>selected.
     (case delivery of None \<Rightarrow> Inr (permission_response identity selected) | Some e \<Rightarrow> Inl e)))"

section \<open>Inbound messages\<close>

text \<open>Result: the output captured so far and the events sent on, or the error.\<close>

definition handle_inbound ::
  "(json \<Rightarrow> u64 option) \<Rightarrow> nat \<Rightarrow> string option \<Rightarrow> json \<Rightarrow> string \<Rightarrow>
     string \<times> runtime_event list \<times> (string + unit)" where
  "handle_inbound as_f64 max_output_bytes delivery value output =
     (let permission = (if is_permission_request value
          then try_bind (respond_permission delivery value) (\<lambda>_. Inr ()) else Inr ()) in
      case normalize_event as_f64 value of
        Some (MessageDelta text) \<Rightarrow>
          let text = truncate_to_bytes text (max_output_bytes - length output) in
          if text = [] then (output, [], Inr ())
          else (output @ text, [MessageDelta text], permission)
      | Some event \<Rightarrow> (output, [event], permission)
      | None \<Rightarrow> (output, [], permission))"

definition completion_from_response :: "(json \<Rightarrow> string) \<Rightarrow> json \<Rightarrow> string \<Rightarrow> runtime_event" where
  "completion_from_response render response output =
     (case json_get ''error'' response of
        Some err \<Rightarrow> RunFailed ''provider_error''
          (''Agent prompt failed: '' @ truncate_text (render err) 512)
      | None \<Rightarrow>
          let stop_reason = (case Option.bind (json_pointer [''result'', ''stopReason''] response) as_str of
                None \<Rightarrow> ''unknown'' | Some r \<Rightarrow> r) in
          if stop_reason = ''end_turn'' \<or> stop_reason = ''completed'' \<or> stop_reason = ''stop''
          then RunCompleted output
          else RunFailed ''provider_error'' (''agent stopped with reason '' @ stop_reason))"

section \<open>Driving the prompt\<close>

text \<open>What polling the child showed: its exit status, or that it could not be inspected.\<close>

datatype child_end = ExitedWith string | InspectFailed string

datatype prompt_input =
    CancelChanged bool "string option"
  | RunDeadline "string option"
  | IdleDeadline "string option"
  | SseValue json "string option"
  | SseClosed
  | StreamEnded string
  | PromptReturned "string + json option"
  | WaitTimeout
  | ChildExited child_end

text \<open>
  \<open>wait_for_prompt_response\<close>: only the stream and its own deadline are polled; the death of
  the child ends the whole run, outside of it.
\<close>

datatype wait_result =
    Answered json
  | Unanswered string
  | ChildGone child_end

fun wait_for_prompt_response ::
  "(json \<Rightarrow> u64 option) \<Rightarrow> nat \<Rightarrow> prompt_input list \<Rightarrow> string \<Rightarrow>
     (string \<times> runtime_event list \<times> wait_result) option" where
  "wait_for_prompt_response as_f64 maximum [] output = None"
| "wait_for_prompt_response as_f64 maximum (SseValue value delivery # inputs) output =
     (if is_response_for value 4 then Some (output, [], Answered value)
      else case handle_inbound as_f64 maximum delivery value output of
        (output', evs, Inl e) \<Rightarrow> Some (output', evs, Unanswered e)
      | (output', evs, Inr _) \<Rightarrow>
          map_option (\<lambda>(out, evs', res). (out, evs @ evs', res))
            (wait_for_prompt_response as_f64 maximum inputs output'))"
| "wait_for_prompt_response as_f64 maximum (SseClosed # inputs) output =
     Some (output, [], Unanswered ''Sandbox Agent event stream closed'')"
| "wait_for_prompt_response as_f64 maximum (StreamEnded message # inputs) output =
     Some (output, [], Unanswered message)"
| "wait_for_prompt_response as_f64 maximum (WaitTimeout # inputs) output =
     Some (output, [], Unanswered ''ACP prompt response timeout'')"
| "wait_for_prompt_response as_f64 maximum (ChildExited status # inputs) output =
     Some (output, [], ChildGone status)"
| "wait_for_prompt_response as_f64 maximum (_ # inputs) output =
     wait_for_prompt_response as_f64 maximum inputs output"

fun child_error :: "child_end \<Rightarrow> string" where
  "child_error (ExitedWith status) = ''Sandbox Agent exited unexpectedly with '' @ status"
| "child_error (InspectFailed e) = ''failed to inspect Sandbox Agent: '' @ e"

text \<open>Asking the agent to stop, then waiting for its answer: the three deadline branches.\<close>

definition stop_and_wait ::
  "(json \<Rightarrow> u64 option) \<Rightarrow> nat \<Rightarrow> string option \<Rightarrow> prompt_input list \<Rightarrow> string \<Rightarrow>
     runtime_event \<Rightarrow> (string \<Rightarrow> runtime_event) \<Rightarrow> (string \<Rightarrow> runtime_event) \<Rightarrow>
     (runtime_event list \<times> (string + runtime_event)) option" where
  "stop_and_wait as_f64 maximum delivery inputs output confirmed unconfirmed undelivered =
     (case delivery of
        Some e \<Rightarrow> Some ([], Inr (undelivered e))
      | None \<Rightarrow> map_option (\<lambda>(out, evs, res). (evs, case res of
            Answered _ \<Rightarrow> Inr confirmed | Unanswered e \<Rightarrow> Inr (unconfirmed e)
          | ChildGone status \<Rightarrow> Inl (child_error status)))
          (wait_for_prompt_response as_f64 maximum inputs output))"

fun drive_prompt ::
  "(json \<Rightarrow> string) \<Rightarrow> (json \<Rightarrow> u64 option) \<Rightarrow> nat \<Rightarrow> bool \<Rightarrow> prompt_input list \<Rightarrow> string \<Rightarrow>
     (runtime_event list \<times> (string + runtime_event)) option" where
  "drive_prompt render as_f64 maximum posted [] output = None"
| "drive_prompt render as_f64 maximum posted (CancelChanged wanted delivery # inputs) output =
     (if \<not> wanted then drive_prompt render as_f64 maximum posted inputs output
      else stop_and_wait as_f64 maximum delivery inputs output RunCancelled
        (\<lambda>e. RunUncertain ''cancellation_unconfirmed'' (''Agent did not confirm cancellation: '' @ e))
        (\<lambda>e. RunUncertain ''cancellation_unconfirmed'' (''could not deliver Agent cancellation: '' @ e)))"
| "drive_prompt render as_f64 maximum posted (RunDeadline delivery # inputs) output =
     stop_and_wait as_f64 maximum delivery inputs output
       (RunFailed ''timeout'' ''run timeout elapsed'')
       (\<lambda>_. RunUncertain ''timeout_unconfirmed'' ''run timeout elapsed and Agent stop was not confirmed'')
       (\<lambda>e. RunUncertain ''timeout_unconfirmed''
          (''run timeout elapsed and cancellation was not confirmed: '' @ e))"
| "drive_prompt render as_f64 maximum posted (IdleDeadline delivery # inputs) output =
     stop_and_wait as_f64 maximum delivery inputs output
       (RunFailed ''timeout'' ''idle timeout elapsed'')
       (\<lambda>_. RunUncertain ''timeout_unconfirmed'' ''idle timeout elapsed and Agent stop was not confirmed'')
       (\<lambda>e. RunUncertain ''timeout_unconfirmed''
          (''idle timeout elapsed and cancellation was not confirmed: '' @ e))"
| "drive_prompt render as_f64 maximum posted (SseValue value delivery # inputs) output =
     (if is_response_for value 4
      then Some ([], Inr (completion_from_response render value output))
      else case handle_inbound as_f64 maximum delivery value output of
        (output', evs, Inl e) \<Rightarrow> Some (evs, Inl e)
      | (output', evs, Inr _) \<Rightarrow>
          if is_business_question value
          then Some (evs, Inr (RunFailed ''interaction_required''
            ''agent requested interactive business input''))
          else map_option (\<lambda>(evs', res). (evs @ evs', res))
            (drive_prompt render as_f64 maximum posted inputs output'))"
| "drive_prompt render as_f64 maximum posted (SseClosed # inputs) output =
     Some ([], Inr (RunUncertain ''runtime_stream_lost''
       ''Sandbox Agent event stream closed before prompt completion''))"
| "drive_prompt render as_f64 maximum posted (StreamEnded message # inputs) output =
     Some ([], Inr (RunUncertain ''runtime_stream_lost'' message))"
| "drive_prompt render as_f64 maximum posted (PromptReturned reply # inputs) output =
     (if posted then drive_prompt render as_f64 maximum posted inputs output
      else case reply of
        Inl e \<Rightarrow> Some ([], Inl e)
      | Inr None \<Rightarrow> drive_prompt render as_f64 maximum True inputs output
      | Inr (Some response) \<Rightarrow>
          if \<not> is_response_for response 4
          then Some ([], Inl ''ACP prompt POST returned an unrelated response envelope'')
          else map_option (\<lambda>(out, evs, res). (evs, case res of
              Answered streamed \<Rightarrow> Inr (completion_from_response render streamed out)
            | Unanswered _ \<Rightarrow> Inr (completion_from_response render response out)
            | ChildGone status \<Rightarrow> Inl (child_error status)))
            (wait_for_prompt_response as_f64 maximum inputs output))"
| "drive_prompt render as_f64 maximum posted (WaitTimeout # inputs) output =
     drive_prompt render as_f64 maximum posted inputs output"
| "drive_prompt render as_f64 maximum posted (ChildExited status # inputs) output =
     Some ([], Inl (child_error status))"

section \<open>Preparing the session\<close>

text \<open>What became of an HTTP request: \<open>rpc\<close> and \<open>post_prompt\<close> read it alike.\<close>

datatype http_reply =
    NotSent string
  | Refused string string
  | Undecoded
  | Replied json
  | EmptyBody
  | ControlTimeout

definition rpc :: "(json \<Rightarrow> string) \<Rightarrow> http_reply \<Rightarrow> string + json" where
  "rpc render reply =
     (case reply of
        NotSent e \<Rightarrow> Inl e
      | Refused status body \<Rightarrow>
          Inl (''ACP request failed with '' @ status @ '': '' @ truncate_text body 512)
      | Undecoded \<Rightarrow> Inl ''decode ACP response''
      | EmptyBody \<Rightarrow> Inl ''decode ACP response''
      | ControlTimeout \<Rightarrow> Inl ''ACP control request timeout''
      | Replied value \<Rightarrow>
          (case json_get ''error'' value of
             Some err \<Rightarrow> Inl (''ACP error: '' @ truncate_text (render err) 512)
           | None \<Rightarrow> Inr value))"

definition post_prompt :: "http_reply \<Rightarrow> string + json option" where
  "post_prompt reply =
     (case reply of
        NotSent e \<Rightarrow> Inl e
      | Refused status body \<Rightarrow>
          Inl (''ACP prompt failed with '' @ status @ '': '' @ truncate_text body 512)
      | Undecoded \<Rightarrow> Inl ''decode ACP prompt response''
      | ControlTimeout \<Rightarrow> Inl ''read ACP prompt response''
      | EmptyBody \<Rightarrow> Inr None
      | Replied value \<Rightarrow> Inr (Some value))"

text \<open>The first object with the adapter's \<open>id\<close>, depth first.\<close>

fun find_agent :: "string \<Rightarrow> json \<Rightarrow> (string \<times> json) list option"
and find_agent_values :: "string \<Rightarrow> (string \<times> json) list \<Rightarrow> (string \<times> json) list option"
and find_agent_list :: "string \<Rightarrow> json list \<Rightarrow> (string \<times> json) list option" where
  "find_agent adapter (JObject m) =
     (if Option.bind (map_of m ''id'') as_str = Some adapter then Some m
      else find_agent_values adapter m)"
| "find_agent adapter (JArray xs) = find_agent_list adapter xs"
| "find_agent adapter _ = None"
| "find_agent_values adapter [] = None"
| "find_agent_values adapter ((k, v) # m) =
     (case find_agent adapter v of Some x \<Rightarrow> Some x | None \<Rightarrow> find_agent_values adapter m)"
| "find_agent_list adapter [] = None"
| "find_agent_list adapter (v # xs) =
     (case find_agent adapter v of Some x \<Rightarrow> Some x | None \<Rightarrow> find_agent_list adapter xs)"

definition discover_agent_version :: "json \<Rightarrow> string \<Rightarrow> string + string option" where
  "discover_agent_version agents adapter =
     try_bind (ok_or (''Sandbox Agent did not discover '' @ adapter) (find_agent adapter agents)) (\<lambda>agent.
     if Option.bind (map_of agent ''installed'') as_bool = Some False
     then Inl (''Sandbox Agent reports '' @ adapter @ '' is not installed'')
     else Inr (Option.bind (map_of agent ''version'') as_str))"

record runtime_run_request =
  rq_sandbox_agent_path :: string
  rq_adapter :: string
  rq_cwd :: string
  rq_prompt :: string
  rq_model :: "string option"
  rq_run_timeout_seconds :: u64
  rq_idle_timeout_seconds :: u64
  rq_max_output_bytes :: nat

text \<open>
  The end of \<open>drive_prompt\<close>: with the completion decided, the tasks are aborted, the completion is
  sent and the session deleted (the outcome of the DELETE is ignored, it ends within two seconds).
  \<open>run\<close> polls the child all the while: it may be found gone before the completion was sent, or after.
\<close>

datatype shutdown =
    SessionDeleted
  | GoneBeforeReport child_end
  | GoneAfterReport child_end

text \<open>The process and the peer during preparation, request by request, and the shutdown.\<close>

record session_env =
  se_launch_error :: "string option"
  se_client_error :: "string option"
  se_child_gone :: "(nat \<times> child_end) option"
  se_healthy :: bool
  se_agents :: "string + json"
  se_initialize :: http_reply
  se_subscribed :: "string + unit"
  se_new_session :: http_reply
  se_set_model :: http_reply
  se_shutdown :: shutdown

definition prepare_session ::
  "(json \<Rightarrow> string) \<Rightarrow> session_env \<Rightarrow> runtime_run_request \<Rightarrow> runtime_event list \<times> (string + string)" where
  "prepare_session render env request =
     (if \<not> se_healthy env then ([], Inl ''Sandbox Agent health timeout'')
      else case try_bind (se_agents env) (\<lambda>agents. discover_agent_version agents (rq_adapter request)) of
        Inl e \<Rightarrow> ([], Inl e)
      | Inr agent_version \<Rightarrow>
          ([Started agent_version],
           try_bind (rpc render (se_initialize env)) (\<lambda>_.
           try_bind (se_subscribed env) (\<lambda>_.
           try_bind (rpc render (se_new_session env)) (\<lambda>session_response.
           try_bind (ok_or ''ACP session/new omitted sessionId''
             (Option.bind (json_pointer [''result'', ''sessionId''] session_response) as_str)) (\<lambda>session_id.
           if rq_model request \<noteq> None \<and> rq_model request \<noteq> Some []
           then (case rpc render (se_set_model env) of
               Inl _ \<Rightarrow> Inl (''set requested '' @ rq_adapter request @ '' model'')
             | Inr _ \<Rightarrow> Inr session_id)
           else Inr session_id))))))"

text \<open>
  \<open>run\<close> with \<open>run_inner\<close>: an error before the child is watched (no port, no process, no HTTP client
  once the process runs) sends nothing; a failed preparation is reported as \<open>Failed\<close>; a run that
  ends in an error, or whose child is gone, as \<open>Uncertain\<close> - also one whose completion is already
  sent. \<open>se_child_gone\<close>: the child was gone after so many events of the preparation. The receiver
  of the events stays open. Result: the events sent, in order, and what \<open>run\<close> returns; \<open>None\<close>
  while it waits.
\<close>

definition run_error :: "runtime_event list \<Rightarrow> string \<Rightarrow> runtime_event list \<times> (string + unit)" where
  "run_error evs e = (evs @ [RunUncertain (classify_error e) e], Inl e)"

definition finish_prompt ::
  "shutdown \<Rightarrow> runtime_event list \<Rightarrow> runtime_event \<Rightarrow> runtime_event list \<times> (string + unit)" where
  "finish_prompt ending evs completion =
     (case ending of
        SessionDeleted \<Rightarrow> (evs @ [completion], Inr ())
      | GoneBeforeReport child \<Rightarrow> run_error evs (child_error child)
      | GoneAfterReport child \<Rightarrow> run_error (evs @ [completion]) (child_error child))"

definition run_runtime ::
  "(json \<Rightarrow> string) \<Rightarrow> (json \<Rightarrow> u64 option) \<Rightarrow> session_env \<Rightarrow> prompt_input list \<Rightarrow>
     runtime_run_request \<Rightarrow> (runtime_event list \<times> (string + unit)) option" where
  "run_runtime render as_f64 env inputs request =
     (case se_launch_error env of
        Some e \<Rightarrow> Some ([], Inl e)
      | None \<Rightarrow>
     (case se_client_error env of
        Some e \<Rightarrow> Some ([], Inl e)
      | None \<Rightarrow>
     (case prepare_session render env request of (evs, session) \<Rightarrow>
     (case se_child_gone env of
        Some (sent, child) \<Rightarrow> Some (run_error (take sent evs) (child_error child))
      | None \<Rightarrow>
     (case session of
        Inl e \<Rightarrow> Some (evs @ [RunFailed (classify_error e) e], Inr ())
      | Inr session_id \<Rightarrow>
          map_option (\<lambda>(evs', res). case res of
              Inr completion \<Rightarrow> finish_prompt (se_shutdown env) (evs @ evs') completion
            | Inl e \<Rightarrow> run_error (evs @ evs') e)
            (drive_prompt render as_f64 (rq_max_output_bytes request) False inputs []))))))"

section \<open>The event stream of the peer\<close>

text \<open>
  \<open>subscribe_sse\<close>: what is delivered of the frames of all connections, in the order they
  arrive (a reconnect continues after \<open>last_event_id\<close>, which survives it). A frame is its
  parsed \<open>id\<close>, if any, and its data. Undecodable data ends the task.
\<close>

fun subscribe_sse ::
  "(string \<Rightarrow> json option) \<Rightarrow> u64 option \<Rightarrow> (u64 option \<times> string) list \<Rightarrow>
     (u64 option \<times> json) list \<times> (string + unit)" where
  "subscribe_sse from_str seen [] = ([], Inr ())"
| "subscribe_sse from_str seen ((event_id, data) # frames) =
     (if data = [] then subscribe_sse from_str seen frames
      else if (case (event_id, seen) of (Some i, Some l) \<Rightarrow> i \<le> l | _ \<Rightarrow> False)
      then subscribe_sse from_str seen frames
      else case from_str data of
        None \<Rightarrow> ([], Inl ''decode ACP SSE payload'')
      | Some value \<Rightarrow>
          (case subscribe_sse from_str (case event_id of None \<Rightarrow> seen | Some i \<Rightarrow> Some i) frames of
             (values, res) \<Rightarrow> ((event_id, value) # values, res)))"

section \<open>Installing the runtime\<close>

definition MAX_RUNTIME_DOWNLOAD_BYTES :: nat where
  "MAX_RUNTIME_DOWNLOAD_BYTES = 64 * 1024 * 1024"

datatype install_error =
    DigestMismatch | DownloadDisabled | DownloadFailed | DownloadTooLarge

text \<open>
  The download loop: chunks are appended while the running total stays within the bound;
  \<open>None\<close> is a read error.
\<close>

fun download :: "nat \<Rightarrow> string \<Rightarrow> string option list \<Rightarrow> install_error + string" where
  "download sofar file [] = Inr file"
| "download sofar file (None # chunks) = Inl DownloadFailed"
| "download sofar file (Some chunk # chunks) =
     (if MAX_RUNTIME_DOWNLOAD_BYTES < sofar + length chunk then Inl DownloadTooLarge
      else download (sofar + length chunk) (file @ chunk) chunks)"

definition verify_sha256 :: "(string \<Rightarrow> string) \<Rightarrow> string \<Rightarrow> string \<Rightarrow> install_error + unit" where
  "verify_sha256 sha256 contents expected = bail_if (sha256 contents \<noteq> expected) DigestMismatch"

text \<open>
  \<open>ensure_binary\<close>: the contents at the destination before and after. Creating the directory and the
  partial file, \<open>chmod\<close> and the final \<open>rename\<close> are taken to succeed: where they fail, the function
  returns an error and the destination is untouched. \<open>announced\<close> is the
  \<open>Content-Length\<close>, \<open>None\<close> as a response a request that failed.
\<close>

definition ensure_binary ::
  "(string \<Rightarrow> string) \<Rightarrow> string \<Rightarrow> bool \<Rightarrow> (nat option \<times> string option list) option \<Rightarrow>
     string option \<Rightarrow> string option \<times> (install_error + unit)" where
  "ensure_binary sha256 expected download_if_missing response destination =
     (case destination of
        Some contents \<Rightarrow> (destination, verify_sha256 sha256 contents expected)
      | None \<Rightarrow>
          if \<not> download_if_missing then (None, Inl DownloadDisabled)
          else case response of
            None \<Rightarrow> (None, Inl DownloadFailed)
          | Some (announced, chunks) \<Rightarrow>
              if (case announced of None \<Rightarrow> False | Some n \<Rightarrow> MAX_RUNTIME_DOWNLOAD_BYTES < n)
              then (None, Inl DownloadTooLarge)
              else (case download 0 [] chunks of
                  Inl e \<Rightarrow> (None, Inl e)
                | Inr partial \<Rightarrow>
                    (case verify_sha256 sha256 partial expected of
                       Inl e \<Rightarrow> (None, Inl e)
                     | Inr _ \<Rightarrow> (Some partial, Inr ()))))"

end
