(* ===== verification/RuntimeProps.thy ===== *)
theory RuntimeProps
  imports Runtime
begin

text \<open>
  Properties of the runtime binding: one terminal event per run, what completion means, what
  is captured of the output, duplicate frames, the installed binary.
\<close>

section \<open>Truncation\<close>

interpretation capture: byte_truncation truncate_to_bytes
proof
  show "prefix (truncate_to_bytes s n) s" for s n
    by (simp add: truncate_to_bytes_def take_is_prefix)
  show "length (truncate_to_bytes s n) \<le> n" for s n
    using boundary_down_le [of s n] by (simp add: truncate_to_bytes_def)
  show "is_char_boundary s (length (truncate_to_bytes s n))" for s n
    using boundary_down_le [of s n] boundary_down_boundary [of s n]
    by (auto simp: truncate_to_bytes_def is_char_boundary_def [of s "length s"] min_absorb2)
  show "i \<le> length (truncate_to_bytes s n)"
    if "i \<le> n" "i \<le> length s" "is_char_boundary s i" for i s n
    using that boundary_down_max [of i n s] by (auto simp: truncate_to_bytes_def)
qed

section \<open>Events of a run\<close>

lemma terminal_event_simps [simp]:
  "\<not> terminal_event (Started v)" "\<not> terminal_event (MessageDelta t)" "\<not> terminal_event (Tool t t2)"
  "\<not> terminal_event (Plan es)" "\<not> terminal_event (Usage u n k)" "terminal_event (RunCompleted t)"
  "terminal_event RunCancelled" "terminal_event (RunFailed c m)" "terminal_event (RunUncertain c m)"
  by (simp_all add: terminal_event_def)

lemma normalize_not_terminal: "normalize_event as_f64 v = Some e \<Longrightarrow> \<not> terminal_event e"
  by (auto simp: normalize_event_def normalize_update_def terminal_event_def Let_def
      split: option.splits if_splits prod.splits)

definition deltas :: "runtime_event list \<Rightarrow> string" where
  "deltas evs = concat (map (\<lambda>e. case e of MessageDelta t \<Rightarrow> t | _ \<Rightarrow> []) evs)"

lemma deltas_simps [simp]:
  "deltas [] = []" "deltas (evs @ evs') = deltas evs @ deltas evs'"
  "deltas (e # evs) = (case e of MessageDelta t \<Rightarrow> t | _ \<Rightarrow> []) @ deltas evs"
  by (simp_all add: deltas_def)

definition streamed :: "nat \<Rightarrow> string \<Rightarrow> string \<Rightarrow> runtime_event list \<Rightarrow> bool" where
  "streamed maximum captured captured' evs \<longleftrightarrow> captured' = captured @ deltas evs \<and>
     (length captured \<le> maximum \<longrightarrow> length captured' \<le> maximum) \<and> (\<forall>e \<in> set evs. \<not> terminal_event e)"

lemma streamed_refl [simp]: "streamed maximum captured captured []"
  by (simp add: streamed_def)

lemma streamed_trans:
  "streamed maximum out out1 evs \<Longrightarrow> streamed maximum out1 out2 evs' \<Longrightarrow> streamed maximum out out2 (evs @ evs')"
  by (auto simp: streamed_def)

lemma handle_inbound_streamed:
  assumes "handle_inbound as_f64 maximum delivery msg captured = (captured', evs, res)"
  shows "streamed maximum captured captured' evs"
proof (cases "normalize_event as_f64 msg")
  case None
  then show ?thesis using assms by (auto simp: handle_inbound_def Let_def)
next
  case (Some e)
  note nt = normalize_not_terminal [OF Some]
  show ?thesis
  proof (cases e)
    case (MessageDelta t)
    have "length (truncate_to_bytes t (maximum - length captured)) \<le> maximum - length captured"
      by (rule capture.cut_bound)
    then show ?thesis
      using assms Some MessageDelta nt
      by (auto simp: handle_inbound_def Let_def streamed_def terminal_event_def split: if_splits)
  qed (use assms Some nt in \<open>auto simp: handle_inbound_def Let_def streamed_def\<close>)
qed

lemma wait_streamed:
  "wait_for_prompt_response as_f64 maximum inputs captured = Some (captured', evs, res) \<Longrightarrow>
     streamed maximum captured captured' evs"
proof (induction inputs arbitrary: captured captured' evs res)
  case (Cons x inputs)
  show ?case
  proof (cases x)
    case (SseValue msg delivery)
    obtain out1 evs1 r1 where h: "handle_inbound as_f64 maximum delivery msg captured = (out1, evs1, r1)"
      by (metis prod_cases3)
    note s1 = handle_inbound_streamed [OF h]
    show ?thesis
      using Cons SseValue h s1 by (auto split: if_splits sum.splits intro: streamed_trans)
  qed (use Cons in auto)
qed simp

lemma completion_terminal: "terminal_event (completion_from_response render v captured)"
  by (auto simp: completion_from_response_def terminal_event_def Let_def split: option.splits)

definition successful :: "json \<Rightarrow> bool" where
  "successful v \<longleftrightarrow> is_response_for v 4 \<and> json_get ''error'' v = None \<and>
     (\<exists>r. json_pointer [''result'', ''stopReason''] v = Some (JString r) \<and>
       (r = ''end_turn'' \<or> r = ''completed'' \<or> r = ''stop''))"

lemma completion_RunCompleted:
  "completion_from_response render v captured = RunCompleted o' \<Longrightarrow> is_response_for v 4 \<Longrightarrow>
     o' = captured \<and> successful v"
  by (auto simp: completion_from_response_def successful_def Let_def bind_eq_Some_conv
      split: option.splits if_splits)

definition response_in :: "prompt_input list \<Rightarrow> json \<Rightarrow> bool" where
  "response_in inputs v \<longleftrightarrow>
     (\<exists>d. SseValue v d \<in> set inputs) \<or> PromptReturned (Inr (Some v)) \<in> set inputs"

lemma response_in_Cons: "response_in inputs v \<Longrightarrow> response_in (x # inputs) v"
  by (auto simp: response_in_def)

text \<open>The agent answered the prompt before its stream, its time or its process ended.\<close>

fun ends_wait :: "prompt_input \<Rightarrow> bool" where
  "ends_wait SseClosed \<longleftrightarrow> True"
| "ends_wait (StreamEnded message) \<longleftrightarrow> True"
| "ends_wait WaitTimeout \<longleftrightarrow> True"
| "ends_wait (ChildExited status) \<longleftrightarrow> True"
| "ends_wait _ \<longleftrightarrow> False"

definition answers :: "json \<Rightarrow> prompt_input list \<Rightarrow> bool" where
  "answers v inputs \<longleftrightarrow> is_response_for v 4 \<and>
     (\<exists>d. SseValue v d \<in> set (takeWhile (\<lambda>x. \<not> ends_wait x) inputs))"

lemma answers_Cons: "\<not> ends_wait x \<Longrightarrow> answers v inputs \<Longrightarrow> answers v (x # inputs)"
  by (auto simp: answers_def)

lemma answers_response_in: "answers v inputs \<Longrightarrow> is_response_for v 4 \<and> response_in inputs v"
  by (auto simp: answers_def response_in_def dest: set_takeWhileD)

lemma wait_answers:
  "wait_for_prompt_response as_f64 maximum inputs captured = Some (out, evs, Answered v) \<Longrightarrow> answers v inputs"
proof (induction inputs arbitrary: captured out evs)
  case (Cons x inputs)
  show ?case
  proof (cases x)
    case (SseValue msg delivery)
    obtain out1 evs1 r1 where h: "handle_inbound as_f64 maximum delivery msg captured = (out1, evs1, r1)"
      by (metis prod_cases3)
    show ?thesis
    proof (cases "is_response_for msg 4")
      case True
      then show ?thesis using Cons.prems SseValue by (auto simp: answers_def)
    next
      case False
      then obtain out' evs' where "wait_for_prompt_response as_f64 maximum inputs out1 = Some (out', evs', Answered v)"
        using Cons.prems SseValue h by (cases r1) auto
      then show ?thesis
        using Cons.IH SseValue by (auto intro: answers_Cons)
    qed
  qed (use Cons in \<open>auto intro: answers_Cons\<close>)
qed simp

lemma wait_answered:
  "wait_for_prompt_response as_f64 maximum inputs captured = Some (out, evs, Answered v) \<Longrightarrow>
     is_response_for v 4 \<and> response_in inputs v"
  using wait_answers answers_response_in by blast

text \<open>The answer is missed only when a permission request before it cannot be answered.\<close>

lemma no_permission_no_error:
  "\<not> is_permission_request v \<Longrightarrow> \<exists>captured' evs. handle_inbound as_f64 maximum delivery v captured = (captured', evs, Inr ())"
  by (auto simp: handle_inbound_def Let_def split: option.splits runtime_event.splits)

lemma answers_wait:
  "answers v inputs \<Longrightarrow> (\<And>w d. SseValue w d \<in> set inputs \<Longrightarrow> \<not> is_permission_request w) \<Longrightarrow>
     \<exists>out evs w. wait_for_prompt_response as_f64 maximum inputs captured = Some (out, evs, Answered w)"
proof (induction inputs arbitrary: captured)
  case Nil
  then show ?case by (simp add: answers_def)
next
  case (Cons x inputs)
  have later: "answers v inputs" if "\<nexists>d. x = SseValue v d" "\<not> ends_wait x"
    using Cons.prems(1) that by (auto simp: answers_def)
  show ?case
  proof (cases x)
    case (SseValue msg delivery)
    have "\<not> is_permission_request msg" using Cons.prems(2) SseValue by auto
    from no_permission_no_error [OF this] obtain captured1 evs1 where
      h: "handle_inbound as_f64 maximum delivery msg captured = (captured1, evs1, Inr ())" by blast
    show ?thesis
    proof (cases "is_response_for msg 4")
      case True
      then show ?thesis using SseValue by simp
    next
      case False
      then have "answers v inputs"
        using later SseValue Cons.prems(1) by (cases "msg = v") (auto simp: answers_def)
      then obtain o' e' w where "wait_for_prompt_response as_f64 maximum inputs captured1 = Some (o', e', Answered w)"
        using Cons.IH Cons.prems(2) by (meson list.set_intros(2))
      then show ?thesis using SseValue h False by simp
    qed
  qed (use Cons later in \<open>auto simp: answers_def\<close>)
qed

text \<open>What every way of ending a run has in common.\<close>

definition run_ok :: "nat \<Rightarrow> prompt_input list \<Rightarrow> string \<Rightarrow> runtime_event list \<Rightarrow> (string + runtime_event) \<Rightarrow> bool" where
  "run_ok maximum inputs captured evs res \<longleftrightarrow>
     (\<forall>e \<in> set evs. \<not> terminal_event e) \<and>
     (\<forall>c. res = Inr c \<longrightarrow> terminal_event c) \<and>
     (\<forall>o'. res = Inr (RunCompleted o') \<longrightarrow> streamed maximum captured o' evs \<and>
        (\<exists>v. response_in inputs v \<and> successful v))"

lemma run_okI_terminal:
  "\<forall>e \<in> set evs. \<not> terminal_event e \<Longrightarrow> terminal_event c \<Longrightarrow> (\<And>o'. c \<noteq> RunCompleted o') \<Longrightarrow>
     run_ok maximum inputs captured evs (Inr c)"
  by (auto simp: run_ok_def)

lemma stop_and_wait_run_ok:
  assumes "stop_and_wait as_f64 maximum delivery inputs captured confirmed unconfirmed undelivered = Some (evs, res)"
    and "\<And>e. terminal_event confirmed \<and> terminal_event (unconfirmed e) \<and> terminal_event (undelivered e)"
    and "\<And>e o'. confirmed \<noteq> RunCompleted o' \<and> unconfirmed e \<noteq> RunCompleted o' \<and> undelivered e \<noteq> RunCompleted o'"
  shows "run_ok maximum inputs' captured evs res"
proof (cases delivery)
  case (Some e)
  then show ?thesis
    using assms by (auto simp: stop_and_wait_def run_ok_def)
next
  case None
  then obtain out w where w: "wait_for_prompt_response as_f64 maximum inputs captured = Some (out, evs, w)"
    and res: "res = (case w of Answered _ \<Rightarrow> Inr confirmed | Unanswered e \<Rightarrow> Inr (unconfirmed e)
      | ChildGone status \<Rightarrow> Inl (child_error status))"
    using assms(1) by (auto simp: stop_and_wait_def)
  have "\<forall>e \<in> set evs. \<not> terminal_event e"
    using wait_streamed [OF w] by (simp add: streamed_def)
  then show ?thesis
    using assms(2,3) by (cases w) (auto simp: res run_ok_def)
qed

lemma run_ok_Cons:
  assumes run: "run_ok maximum inputs out1 evs' res" and str: "streamed maximum captured out1 evs"
  shows "run_ok maximum (x # inputs) captured (evs @ evs') res"
proof -
  have "\<exists>v. response_in (x # inputs) v \<and> successful v" if "\<exists>v. response_in inputs v \<and> successful v"
    using that response_in_Cons by blast
  moreover have "\<forall>e \<in> set (evs @ evs'). \<not> terminal_event e"
    using run str by (auto simp: run_ok_def streamed_def)
  ultimately show ?thesis
    using run streamed_trans [OF str] unfolding run_ok_def by blast
qed

lemma run_ok_skip: "run_ok maximum inputs captured evs res \<Longrightarrow> run_ok maximum (x # inputs) captured evs res"
  using run_ok_Cons [OF _ streamed_refl] by fastforce

lemma run_ok_error: "\<forall>e \<in> set evs. \<not> terminal_event e \<Longrightarrow> run_ok maximum inputs captured evs (Inl e)"
  by (simp add: run_ok_def)

lemma run_ok_completion:
  assumes "is_response_for v 4" and "response_in inputs v" and "streamed maximum captured out evs"
  shows "run_ok maximum inputs captured evs (Inr (completion_from_response render v out))"
  using assms completion_terminal completion_RunCompleted [OF _ assms(1), of render out]
  by (auto simp: run_ok_def streamed_def)

lemma run_ok_prompt_returned:
  assumes w: "wait_for_prompt_response as_f64 maximum inputs captured = Some (out, evs, w)"
    and response: "is_response_for response 4"
  shows "run_ok maximum (PromptReturned (Inr (Some response)) # inputs) captured evs (case w of
      Answered v \<Rightarrow> Inr (completion_from_response render v out)
    | Unanswered _ \<Rightarrow> Inr (completion_from_response render response out)
    | ChildGone status \<Rightarrow> Inl (child_error status))"
proof (cases w)
  case (Answered v)
  then have "is_response_for v 4" "response_in inputs v"
    using wait_answered w by blast+
  then show ?thesis
    using run_ok_completion [OF _ _ wait_streamed [OF w]] Answered by (simp add: response_in_Cons)
next
  case (Unanswered e)
  then show ?thesis
    using run_ok_completion [OF response _ wait_streamed [OF w]] by (simp add: response_in_def)
next
  case (ChildGone status)
  then show ?thesis
    using wait_streamed [OF w] by (simp add: run_ok_error streamed_def)
qed

lemma run_ok_inbound:
  assumes h: "handle_inbound as_f64 maximum delivery msg captured = (out1, evs1, r1)"
    and no: "\<not> is_response_for msg 4"
    and drive: "drive_prompt render as_f64 maximum posted (SseValue msg delivery # inputs) captured = Some (evs, res)"
    and rest: "\<And>evs' res'. drive_prompt render as_f64 maximum posted inputs out1 = Some (evs', res') \<Longrightarrow>
      run_ok maximum inputs out1 evs' res'"
  shows "run_ok maximum (SseValue msg delivery # inputs) captured evs res"
proof -
  note s1 = handle_inbound_streamed [OF h]
  then have nt: "\<forall>e \<in> set evs1. \<not> terminal_event e" by (simp add: streamed_def)
  show ?thesis
  proof (cases "(\<exists>e. r1 = Inl e) \<or> is_business_question msg")
    case True
    then show ?thesis
      using drive no h nt
      by (cases r1) (auto simp: run_ok_def terminal_event_def)
  next
    case False
    then obtain u where u: "r1 = Inr u" "\<not> is_business_question msg"
      by (cases r1) auto
    then obtain evs' where "drive_prompt render as_f64 maximum posted inputs out1 = Some (evs', res)"
      "evs = evs1 @ evs'"
      using drive no h by auto
    then show ?thesis
      using run_ok_Cons [OF rest s1] by simp
  qed
qed

lemma drive_prompt_run_ok:
  "drive_prompt render as_f64 maximum posted inputs captured = Some (evs, res) \<Longrightarrow>
     run_ok maximum inputs captured evs res"
proof (induction inputs arbitrary: posted captured evs res)
  case (Cons x inputs)
  show ?case
  proof (cases x)
    case (CancelChanged wanted delivery)
    then show ?thesis
      using Cons by (cases wanted) (auto elim!: stop_and_wait_run_ok intro: run_ok_skip simp: terminal_event_def)
  next
    case (SseValue msg delivery)
    obtain out1 evs1 r1 where h: "handle_inbound as_f64 maximum delivery msg captured = (out1, evs1, r1)"
      by (metis prod_cases3)
    show ?thesis
    proof (cases "is_response_for msg 4")
      case True
      then show ?thesis
        using Cons.prems SseValue run_ok_completion [OF True, of inputs maximum captured captured "[]"]
        by (auto simp: response_in_def intro!: run_ok_completion)
    next
      case False
      show ?thesis
        unfolding SseValue
      proof (rule run_ok_inbound [OF h False])
        show "drive_prompt render as_f64 maximum posted (SseValue msg delivery # inputs) captured = Some (evs, res)"
          using Cons.prems SseValue by simp
      qed (rule Cons.IH)
    qed
  next
    case (PromptReturned reply)
    consider "posted" | "\<not> posted" "\<exists>e. reply = Inl e" | "\<not> posted" "reply = Inr None"
      | response where "\<not> posted" "reply = Inr (Some response)"
      by (cases reply) (metis option.exhaust)+
    then show ?thesis
    proof cases
      case 4
      then show ?thesis
        using Cons.prems PromptReturned run_ok_prompt_returned
        by (auto simp: run_ok_error split: if_splits)
    qed (use Cons PromptReturned in \<open>auto simp: run_ok_error intro: run_ok_skip\<close>)
  next
    case (RunDeadline delivery)
    then show ?thesis
      using Cons.prems by (auto elim!: stop_and_wait_run_ok)
  next
    case (IdleDeadline delivery)
    then show ?thesis
      using Cons.prems by (auto elim!: stop_and_wait_run_ok)
  next
    case WaitTimeout
    then show ?thesis
      using Cons by (auto intro: run_ok_skip)
  qed (use Cons.prems in \<open>auto simp: run_ok_def\<close>)
qed simp

section \<open>Runs\<close>

lemma prepare_not_terminal:
  "prepare_session render env request = (evs, res) \<Longrightarrow> \<forall>e \<in> set evs. \<not> terminal_event e \<and> deltas [e] = []"
  by (auto simp: prepare_session_def terminal_event_def split: if_splits sum.splits)

lemma prepare_deltas: "prepare_session render env request = (evs, res) \<Longrightarrow> deltas evs = []"
  by (auto simp: prepare_session_def split: if_splits sum.splits)

lemma run_runtime_cases:
  assumes "run_runtime render as_f64 env inputs request = Some (evs, res)"
    and "se_launch_error env = None" and "se_client_error env = None"
  obtains (failed) before e where "evs = before @ [RunFailed (classify_error e) e]" "res = Inr ()"
      "\<forall>e \<in> set before. \<not> terminal_event e"
  | (lost) before e where "evs = before @ [RunUncertain (classify_error e) e]" "res = Inl e"
      "\<forall>e \<in> set before. \<not> terminal_event e"
  | (driven) evs0 evs' c where "evs = evs0 @ evs' @ [c]" "res = Inr ()"
      "run_ok (rq_max_output_bytes request) inputs [] evs' (Inr c)"
      "\<forall>e \<in> set evs0. \<not> terminal_event e" "deltas evs0 = []"
  | (outlived) evs0 evs' c child where
      "evs = evs0 @ evs' @ [c, RunUncertain (classify_error (child_error child)) (child_error child)]"
      "res = Inl (child_error child)" "se_shutdown env = GoneAfterReport child"
      "run_ok (rq_max_output_bytes request) inputs [] evs' (Inr c)"
      "\<forall>e \<in> set evs0. \<not> terminal_event e" "deltas evs0 = []"
proof -
  obtain evs0 session where prep: "prepare_session render env request = (evs0, session)"
    by (metis prod.exhaust)
  note nt = prepare_not_terminal [OF prep]
  show thesis
  proof (cases "se_child_gone env")
    case (Some gone)
    obtain sent child where "gone = (sent, child)" by fastforce
    then show ?thesis
      using assms prep Some nt lost [of "take sent evs0" "child_error child"]
      by (auto simp: run_runtime_def run_error_def dest: in_set_takeD)
  next
    case None
    show ?thesis
    proof (cases session)
      case (Inl e)
      then show ?thesis using assms prep None nt failed by (auto simp: run_runtime_def)
    next
      case (Inr session_id)
      then obtain evs' r where d:
        "drive_prompt render as_f64 (rq_max_output_bytes request) False inputs [] = Some (evs', r)"
        and out: "(case r of Inr completion \<Rightarrow> finish_prompt (se_shutdown env) (evs0 @ evs') completion
            | Inl e \<Rightarrow> run_error (evs0 @ evs') e) = (evs, res)"
        using assms prep None by (auto simp: run_runtime_def)
      note ok = drive_prompt_run_ok [OF d]
      show ?thesis
      proof (cases r)
        case (Inl e)
        then show ?thesis
          using out ok nt lost [of "evs0 @ evs'" e] by (auto simp: run_error_def run_ok_def)
      next
        case (Inr c)
        have quiet: "\<forall>e \<in> set evs'. \<not> terminal_event e"
          using ok by (simp add: run_ok_def)
        show ?thesis
        proof (cases "se_shutdown env")
          case SessionDeleted
          then show ?thesis
            using out Inr ok nt driven [of evs0 evs' c] prepare_deltas [OF prep] by (simp add: finish_prompt_def)
        next
          case (GoneBeforeReport child)
          then show ?thesis
            using out Inr nt quiet lost [of "evs0 @ evs'" "child_error child"]
            by (auto simp: finish_prompt_def run_error_def)
        next
          case (GoneAfterReport child)
          then show ?thesis
            using out Inr ok nt outlived [of evs0 evs' c child] prepare_deltas [OF prep]
            by (simp add: finish_prompt_def run_error_def)
        qed
      qed
    qed
  qed
qed


definition demo_session :: session_env where
  "demo_session = \<lparr>se_launch_error = None, se_client_error = None, se_child_gone = None, se_healthy = True,
     se_agents = Inr (JObject [(''id'', JString ''codex'')]),
     se_initialize = Replied (JObject []), se_subscribed = Inr (),
     se_new_session = Replied (JObject [(''result'', JObject [(''sessionId'', JString ''s'')])]),
     se_set_model = Replied (JObject []), se_shutdown = SessionDeleted\<rparr>"

definition demo_run :: runtime_run_request where
  "demo_run = \<lparr>rq_sandbox_agent_path = ''/a'', rq_adapter = ''codex'', rq_cwd = ''/workspace'',
     rq_prompt = ''hi'', rq_model = None, rq_run_timeout_seconds = 60,
     rq_idle_timeout_seconds = 60, rq_max_output_bytes = 5\<rparr>"

definition demo_chunk :: "string \<Rightarrow> json" where
  "demo_chunk text = JObject [(''params'', JObject [(''update'', JObject
     [(''sessionUpdate'', JString ''agent_message_chunk''),
      (''content'', JObject [(''text'', JString text)])])])]"

definition demo_answer :: json where
  "demo_answer = JObject [(''id'', JInt 4), (''result'', JObject [(''stopReason'', JString ''end_turn'')])]"

definition demo_inputs :: "prompt_input list" where
  "demo_inputs = [SseValue (demo_chunk ''abcd'') None, SseValue (demo_chunk ''efg'') None,
     SseValue demo_answer None]"

lemma demo_run_events:
  "run_runtime (\<lambda>_. []) (\<lambda>_. None) demo_session demo_inputs demo_run =
     Some ([Started None, MessageDelta ''abcd'', MessageDelta ''e'', RunCompleted ''abcde''], Inr ())"
  "se_launch_error demo_session = None" "se_client_error demo_session = None"
  by code_simp+

text \<open>The server exits while it is asked to delete the session.\<close>

lemma demo_run_outlived:
  "run_runtime (\<lambda>_. []) (\<lambda>_. None) (demo_session\<lparr>se_shutdown := GoneAfterReport (ExitedWith ''0'')\<rparr>)
     demo_inputs demo_run =
   Some ([Started None, MessageDelta ''abcd'', MessageDelta ''e'', RunCompleted ''abcde'',
     RunUncertain ''runtime_unavailable'' ''Sandbox Agent exited unexpectedly with 0''],
     Inl ''Sandbox Agent exited unexpectedly with 0'')"
  by code_simp




section \<open>Duplicate frames\<close>

lemma subscribe_increasing:
  "subscribe_sse from_str seen frames = (vals, res) \<Longrightarrow>
     sorted_wrt (<) (List.map_filter fst vals) \<and>
     (\<forall>l. seen = Some l \<longrightarrow> (\<forall>i \<in> set (List.map_filter fst vals). l < i))"
proof (induction frames arbitrary: seen vals res)
  case Nil
  then show ?case by (simp add: map_filter_simps)
next
  case (Cons frame frames)
  obtain event_id data where f: "frame = (event_id, data)" by fastforce
  show ?case
  proof (cases "data = [] \<or> (case (event_id, seen) of (Some i, Some l) \<Rightarrow> i \<le> l | _ \<Rightarrow> False)")
    case True
    then have "subscribe_sse from_str seen frames = (vals, res)"
      using Cons.prems f by (cases "data = []") auto
    then show ?thesis by (rule Cons.IH)
  next
    case False
    show ?thesis
    proof (cases "from_str data")
      case None
      then show ?thesis using Cons.prems f False by (simp add: map_filter_simps)
    next
      case (Some v)
      obtain vs where vs: "subscribe_sse from_str (case event_id of None \<Rightarrow> seen | Some i \<Rightarrow> Some i) frames = (vs, res)"
        and all: "vals = (event_id, v) # vs"
        using Cons.prems f False Some by (auto split: prod.splits)
      show ?thesis
        using Cons.IH [OF vs] False
        by (auto simp: all map_filter_simps not_le split: option.splits)
    qed
  qed
qed

text \<open>
  C18: the frames of the agent's event stream that carry an id are delivered with strictly
  increasing ids, also across reconnects: a frame replayed after a reconnect is dropped.
\<close>

theorem frames_delivered_once:
  assumes "subscribe_sse from_str seen frames = (vals, res)"
  shows "sorted_wrt (<) (List.map_filter fst vals) \<and>
    (\<forall>l. seen = Some l \<longrightarrow> (\<forall>i \<in> set (List.map_filter fst vals). l < i))"
  by (rule subscribe_increasing [OF assms])

lemma frames_delivered_once_witness:
  "subscribe_sse (\<lambda>d. Some (JString d)) None
     [(Some 1, ''a''), (Some 2, ''b''), (Some 1, ''a''), (Some 2, ''b''), (Some 3, ''c'')] =
     ([(Some 1, JString ''a''), (Some 2, JString ''b''), (Some 3, JString ''c'')], Inr ()) \<and>
   sorted_wrt (<) [1, 2, 3 :: u64]"
proof -
  have run: "subscribe_sse (\<lambda>d. Some (JString d)) None
     [(Some 1, ''a''), (Some 2, ''b''), (Some 1, ''a''), (Some 2, ''b''), (Some 3, ''c'')] =
     ([(Some 1, JString ''a''), (Some 2, JString ''b''), (Some 3, JString ''c'')], Inr ())"
    by code_simp
  from frames_delivered_once [OF run] have "sorted_wrt (<) [1, 2, 3 :: u64]"
    by (simp add: map_filter_simps)
  with run show ?thesis by blast
qed

section \<open>Stopping\<close>

lemma stop_and_wait_results:
  assumes "stop_and_wait as_f64 maximum delivery inputs captured confirmed unconfirmed undelivered = Some (evs, Inr c)"
  shows "c = confirmed \<and> delivery = None \<and> (\<exists>v. answers v inputs) \<or> (\<exists>e. c = unconfirmed e) \<or>
    (\<exists>e. c = undelivered e \<and> delivery = Some e)"
    and "delivery = None \<Longrightarrow> answers v inputs \<Longrightarrow> (\<And>w d. SseValue w d \<in> set inputs \<Longrightarrow> \<not> is_permission_request w) \<Longrightarrow>
      c = confirmed"
proof -
  show "c = confirmed \<and> delivery = None \<and> (\<exists>v. answers v inputs) \<or> (\<exists>e. c = unconfirmed e) \<or>
      (\<exists>e. c = undelivered e \<and> delivery = Some e)"
  proof (cases delivery)
    case None
    then obtain out w where run: "wait_for_prompt_response as_f64 maximum inputs captured = Some (out, evs, w)"
      "Inr c = (case w of Answered _ \<Rightarrow> Inr confirmed | Unanswered e \<Rightarrow> Inr (unconfirmed e)
        | ChildGone status \<Rightarrow> Inl (child_error status))"
      using assms by (auto simp: stop_and_wait_def)
    then show ?thesis using None by (cases w) (auto dest: wait_answers)
  qed (use assms in \<open>simp add: stop_and_wait_def\<close>)
  assume sent: "delivery = None" and answered: "answers v inputs"
    and quiet: "\<And>w d. SseValue w d \<in> set inputs \<Longrightarrow> \<not> is_permission_request w"
  have "\<exists>out es w. wait_for_prompt_response as_f64 maximum inputs captured = Some (out, es, Answered w)"
    using answers_wait [OF answered] quiet by blast
  then show "c = confirmed"
    using assms sent by (auto simp: stop_and_wait_def)
qed

text \<open>What stops a run, and how it then ends when the stop is confirmed.\<close>

fun stops :: "prompt_input \<Rightarrow> bool" where
  "stops (CancelChanged wanted delivery) \<longleftrightarrow> wanted"
| "stops (RunDeadline delivery) \<longleftrightarrow> True"
| "stops (IdleDeadline delivery) \<longleftrightarrow> True"
| "stops _ \<longleftrightarrow> False"

fun stop_accepted :: "prompt_input \<Rightarrow> bool" where
  "stop_accepted (CancelChanged wanted delivery) \<longleftrightarrow> delivery = None"
| "stop_accepted (RunDeadline delivery) \<longleftrightarrow> delivery = None"
| "stop_accepted (IdleDeadline delivery) \<longleftrightarrow> delivery = None"
| "stop_accepted _ \<longleftrightarrow> False"

fun clean_stop :: "prompt_input \<Rightarrow> runtime_event \<Rightarrow> bool" where
  "clean_stop (CancelChanged wanted delivery) c \<longleftrightarrow> c = RunCancelled"
| "clean_stop _ c \<longleftrightarrow> (\<exists>message. c = RunFailed ''timeout'' message)"

fun unconfirmed_stop :: "prompt_input \<Rightarrow> runtime_event \<Rightarrow> bool" where
  "unconfirmed_stop (CancelChanged wanted delivery) c \<longleftrightarrow> (\<exists>message. c = RunUncertain ''cancellation_unconfirmed'' message)"
| "unconfirmed_stop _ c \<longleftrightarrow> (\<exists>message. c = RunUncertain ''timeout_unconfirmed'' message)"

text \<open>
  C19: once a cancellation is observed, or the run or idle deadline is over, the run ends in one of
  two ways. It ends cleanly - \<open>Cancelled\<close>, or \<open>Failed timeout\<close> - only if the agent accepted the stop
  and answered the prompt afterwards, before its stream closed and before the waiting time was over;
  in every other case it ends as \<open>Uncertain\<close>. Conversely, an accepted and answered stop is reported as
  a clean one when no permission request is among the messages. So a stopped run is never a success,
  and an unconfirmed stop is never reported as a clean one.
\<close>

theorem stopped_runs_never_succeed:
  assumes "drive_prompt render as_f64 maximum posted (x # inputs) out = Some (evs, Inr c)" and "stops x"
  shows "(clean_stop x c \<and> stop_accepted x \<and> (\<exists>v. answers v inputs) \<or> unconfirmed_stop x c) \<and>
    (stop_accepted x \<and> (\<exists>v. answers v inputs) \<and>
      (\<forall>w d. SseValue w d \<in> set inputs \<longrightarrow> \<not> is_permission_request w) \<longrightarrow> clean_stop x c)"
  using assms
  by (cases x) (auto dest: stop_and_wait_results(1), (blast dest: stop_and_wait_results(2))+)

lemma stopped_runs_never_succeed_witness:
  "clean_stop (CancelChanged True None) RunCancelled \<and>
   unconfirmed_stop (RunDeadline None)
     (RunUncertain ''timeout_unconfirmed'' ''run timeout elapsed and Agent stop was not confirmed'')"
proof
  have run: "drive_prompt (\<lambda>_. []) (\<lambda>_. None) 5 False [CancelChanged True None, SseValue demo_answer None] [] =
     Some ([], Inr RunCancelled)"
    by code_simp
  from stopped_runs_never_succeed [OF run] show "clean_stop (CancelChanged True None) RunCancelled" by simp
  have late: "drive_prompt (\<lambda>_. []) (\<lambda>_. None) 5 False [RunDeadline None, WaitTimeout, SseValue demo_answer None] [] =
     Some ([], Inr (RunUncertain ''timeout_unconfirmed'' ''run timeout elapsed and Agent stop was not confirmed''))"
    by code_simp
  from stopped_runs_never_succeed [OF late] show "unconfirmed_stop (RunDeadline None)
     (RunUncertain ''timeout_unconfirmed'' ''run timeout elapsed and Agent stop was not confirmed'')"
    by simp
qed

section \<open>The runtime binary\<close>

lemma download_bound:
  "download sofar stored parts = Inr contents \<Longrightarrow> length stored = sofar \<Longrightarrow> sofar \<le> MAX_RUNTIME_DOWNLOAD_BYTES \<Longrightarrow>
     length contents \<le> MAX_RUNTIME_DOWNLOAD_BYTES"
proof (induction parts arbitrary: sofar stored)
  case (Cons c parts)
  then show ?case by (cases c) (auto split: if_splits)
qed simp

text \<open>
  C20: \<open>ensure_binary\<close> never leaves an unverified binary at its destination: when it succeeds,
  the file there has the expected digest and, if it was downloaded, at most the size bound; when
  it fails, the destination is as it was (a half or wrong download is not installed).
\<close>

theorem installed_binary_verified:
  assumes "ensure_binary sha256 expected allowed response destination = (destination', res)"
  shows "(res = Inr () \<longrightarrow> (\<exists>contents. destination' = Some contents \<and> sha256 contents = expected \<and>
      (destination = None \<longrightarrow> length contents \<le> MAX_RUNTIME_DOWNLOAD_BYTES))) \<and>
    (res \<noteq> Inr () \<longrightarrow> destination' = destination) \<and>
    (destination \<noteq> None \<longrightarrow> destination' = destination)"
  using assms
  by (auto simp: ensure_binary_def verify_sha256_def bail_if_def
      split: option.splits if_splits sum.splits prod.splits dest: download_bound)

lemma installed_binary_verified_witness:
  "ensure_binary (\<lambda>c. c) ''ab'' True (Some (None, [Some ''a'', Some ''b''])) None = (Some ''ab'', Inr ()) \<and>
   (\<exists>contents. Some ''ab'' = Some contents \<and> contents = ''ab'')"
proof -
  have run: "ensure_binary (\<lambda>c. c) ''ab'' True (Some (None, [Some ''a'', Some ''b''])) None = (Some ''ab'', Inr ())"
    by (simp add: ensure_binary_def MAX_RUNTIME_DOWNLOAD_BYTES_def verify_sha256_def bail_if_def)
  from installed_binary_verified [OF run] run show ?thesis by simp
qed

section \<open>Permission requests\<close>

lemma find_first: "find P xs = Some x \<Longrightarrow> x \<in> set xs \<and> P x"
  by (auto simp: find_Some_iff)

text \<open>
  The answer to a permission request is one of the options offered: the first that allows
  once (or plainly allows) when there is one, and otherwise the first option whatever its kind -
  also one that rejects or allows for good.
\<close>

theorem permission_selects_offered_option:
  assumes "selected_option request = Inr chosen"
  shows "\<exists>options offer. permission_options request = Some options \<and> offer \<in> set options \<and>
    option_id offer = Some (JString chosen) \<and>
    (allows offer \<or> (\<forall>x \<in> set options. \<not> allows x) \<and> offer = hd options)"
proof -
  from assms obtain options where opts: "permission_options request = Some options"
    by (auto simp: selected_option_def result_simps)
  show ?thesis
  proof (cases "find allows options")
    case (Some x)
    then show ?thesis
      using assms opts find_first [OF Some]
      by (auto simp: selected_option_def result_simps bind_eq_Some_conv)
  next
    case None
    have "\<forall>x \<in> set options. \<not> allows x"
      using None by (simp add: find_None_iff)
    moreover obtain x xs where "options = x # xs" "option_id x = Some (JString chosen)"
      using assms opts None
      by (cases options) (auto simp: selected_option_def result_simps bind_eq_Some_conv)
    ultimately show ?thesis
      using opts by auto
  qed
qed

definition demo_permission :: "(string \<times> string) list \<Rightarrow> json" where
  "demo_permission options = JObject [(''id'', JInt 7), (''params'', JObject [(''options'',
     JArray (map (\<lambda>(i, k). JObject [(''optionId'', JString i), (''kind'', JString k)]) options))])]"

lemma permission_selects_offered_option_witness:
  "selected_option (demo_permission [(''always'', ''allow_always''), (''no'', ''reject_once'')]) = Inr ''always'' \<and>
   (\<exists>options. permission_options (demo_permission [(''always'', ''allow_always''), (''no'', ''reject_once'')])
     = Some options)"
proof -
  have run: "selected_option (demo_permission [(''always'', ''allow_always''), (''no'', ''reject_once'')]) = Inr ''always''"
    by code_simp
  from permission_selects_offered_option [OF run] run show ?thesis by blast
qed

section \<open>The error text limit\<close>

text \<open>
  \<open>truncate\<close> keeps a string of more than \<open>max\<close> bytes whole when byte \<open>max\<close> is inside a
  character: the limit of 512 bytes on error texts is not a bound; when it is a boundary, the
  result is the prefix of \<open>max\<close> bytes.
\<close>

theorem truncate_keeps_whole_string:
  assumes "maximum < length value"
  shows "truncate_text value maximum =
    (if continuation (value ! maximum) \<and> 0 < maximum then value else take maximum value)"
  using assms by (auto simp: truncate_text_def is_char_boundary_def)

lemma truncate_keeps_whole_string_witness:
  "truncate_text [CHR ''a'', CHR 0xC3, CHR 0xA9, CHR ''b''] 2 = [CHR ''a'', CHR 0xC3, CHR 0xA9, CHR ''b'']"
proof -
  let ?s = "[CHR ''a'', CHR 0xC3, CHR 0xA9, CHR ''b'']"
  have "continuation (?s ! 2)" by code_simp
  then show ?thesis
    using truncate_keeps_whole_string [of 2 ?s] by simp
qed

end
