(* ===== verification/Runner.thy ===== *)
theory Runner
  imports RuntimeProps Paths
begin

text \<open>
  \<open>crates/runner/src/lib.rs\<close>: the three process roles of a local runner.

  \<^item> \<open>execute\<close> (in the daemon), \<open>supervisor\<close> (on the host) and \<open>worker\<close> (in the sandbox) are
    loops over \<open>select!\<close>; each consumes a list of inputs, one per branch taken, and yields what
    it wrote and how it ended (\<open>None\<close>: still running).
  \<^item> The bubblewrap command line is the list of its arguments, built as the code builds it;
    \<open>canonicalize\<close>, the host environment and file digests are parameters, and writing the
    scratch files is assumed to succeed.
\<close>

record credential_mount =
  cm_host_path :: string
  cm_sandbox_path :: string

record runner_request =
  rn_attempt_id :: string
  rn_sandbox_agent_path :: string
  rn_sandbox_agent_sha256 :: string
  rn_adapter :: string
  rn_agent_path :: string
  rn_agent_sha256 :: string
  rn_agent_process_path :: "string option"
  rn_agent_process_sha256 :: "string option"
  rn_bubblewrap_path :: string
  rn_workspace_path :: "string option"
  rn_workspace_writable :: bool
  rn_network_enabled :: bool
  rn_credential_mounts :: "credential_mount list"
  rn_inherit_proxy_environment :: "string list"
  rn_prompt :: string
  rn_model :: "string option"
  rn_run_timeout_seconds :: u64
  rn_idle_timeout_seconds :: u64
  rn_max_output_bytes :: u64

datatype control_message = ControlStart runner_request | ControlCancel

section \<open>The daemon side\<close>

text \<open>The exit of the runner process within ten seconds: timed out, an error, or a status.\<close>

datatype exit_result = ExitTimeout | ExitError | ExitStatus bool string

datatype execute_input =
    CancelSignal bool "string option"
  | ForcedDeadline
  | RunnerLine string exit_result
  | RunnerClosed string
  | ReadFailure

text \<open>
  Result of \<open>execute\<close>: the events forwarded, the control messages written after the start, and
  \<open>Ok\<close> or the error. A line carries how the process would exit if the line is terminal.
\<close>

fun execute_loop ::
  "(string \<Rightarrow> runtime_event option) \<Rightarrow> bool \<Rightarrow> execute_input list \<Rightarrow>
     (runtime_event list \<times> control_message list \<times> (string + unit)) option" where
  "execute_loop from_str cancelling [] = None"
| "execute_loop from_str cancelling (CancelSignal wanted write_error # inputs) =
     (if \<not> wanted then execute_loop from_str cancelling inputs
      else case write_error of
        Some e \<Rightarrow> Some ([], [], Inl e)
      | None \<Rightarrow> map_option (\<lambda>(evs, ctl, res). (evs, ControlCancel # ctl, res))
          (execute_loop from_str True inputs))"
| "execute_loop from_str cancelling (ForcedDeadline # inputs) =
     (if cancelling
      then Some ([RunUncertain ''runner_lost'' ''runner cancellation exceeded its confirmation deadline''],
        [], Inr ())
      else execute_loop from_str cancelling inputs)"
| "execute_loop from_str cancelling (RunnerLine line exit # inputs) =
     (case from_str line of
        None \<Rightarrow> Some ([], [], Inl ''decode runner event'')
      | Some event \<Rightarrow>
          if terminal_event event then
            (case exit of
               ExitTimeout \<Rightarrow> Some ([], [], Inl ''runner exit timeout'')
             | ExitError \<Rightarrow> Some ([], [], Inl ''wait for runner'')
             | ExitStatus success status \<Rightarrow>
                 if \<not> success
                 then Some ([RunUncertain ''runner_lost''
                   (''runner exited with '' @ status @ '' after reporting a terminal event'')], [], Inr ())
                 else Some ([event], [], Inr ()))
          else map_option (\<lambda>(evs, ctl, res). (event # evs, ctl, res))
            (execute_loop from_str cancelling inputs))"
| "execute_loop from_str cancelling (RunnerClosed status # inputs) =
     Some ([], [], Inl (''runner exited before a terminal event: '' @ status))"
| "execute_loop from_str cancelling (ReadFailure # inputs) =
     Some ([], [], Inl ''read runner event'')"

text \<open>\<open>execute\<close>: the start message first; \<open>started\<close> is the error of spawning or writing it.\<close>

definition execute ::
  "(string \<Rightarrow> runtime_event option) \<Rightarrow> string option \<Rightarrow> runner_request \<Rightarrow> execute_input list \<Rightarrow>
     (runtime_event list \<times> control_message list \<times> (string + unit)) option" where
  "execute from_str started request inputs =
     (case started of
        Some e \<Rightarrow> Some ([], [], Inl e)
      | None \<Rightarrow> map_option (\<lambda>(evs, ctl, res). (evs, ControlStart request # ctl, res))
          (execute_loop from_str False inputs))"

section \<open>The host side\<close>

definition bin_dir :: string where
  "bin_dir = ''/opt/thieving-eyes/bin/''"

text \<open>\<open>digest_of\<close>: the digest of the file at a path, \<open>None\<close> when it cannot be read.\<close>

definition verify_file :: "(string \<Rightarrow> string option) \<Rightarrow> string \<Rightarrow> string \<Rightarrow> string + unit" where
  "verify_file digest_of path expected =
     try_bind (ok_or (''open '' @ path) (digest_of path)) (\<lambda>actual.
     bail_if (actual \<noteq> expected) (''digest mismatch for '' @ path))"

definition check_request :: "(string \<Rightarrow> string option) \<Rightarrow> runner_request \<Rightarrow> string + unit" where
  "check_request digest_of request =
     (if rn_adapter request \<noteq> ''codex'' \<and> rn_adapter request \<noteq> ''opencode''
      then Inl (''unsupported Agent adapter '' @ rn_adapter request)
      else
        try_bind (verify_file digest_of (rn_sandbox_agent_path request) (rn_sandbox_agent_sha256 request)) (\<lambda>_.
        try_bind (verify_file digest_of (rn_agent_path request) (rn_agent_sha256 request)) (\<lambda>_.
        (case (rn_agent_process_path request, rn_agent_process_sha256 request) of
           (Some path, Some digest) \<Rightarrow> verify_file digest_of path digest
         | (None, None) \<Rightarrow> Inr ()
         | _ \<Rightarrow> Inl ''Agent process path and digest must be configured together''))))"

definition worker_request :: "runner_request \<Rightarrow> runner_request" where
  "worker_request request = request\<lparr>
     rn_sandbox_agent_path := bin_dir @ ''sandbox-agent'',
     rn_agent_path := bin_dir @ rn_adapter request,
     rn_agent_process_path := map_option (\<lambda>_. bin_dir @ rn_adapter request @ ''-acp'')
       (rn_agent_process_path request),
     rn_bubblewrap_path := [],
     rn_workspace_path := Some ''/workspace'',
     rn_credential_mounts := [],
     rn_inherit_proxy_environment := []\<rparr>"

datatype supervisor_input =
    HostControl "control_message option"
  | HostClosed
  | WorkerLine string
  | WorkerClosed exit_result
  | PipeFailure string

text \<open>
  The forwarding loop. \<open>HostControl None\<close> is an undecodable control line; end of input is
  passed over; only a cancel is forwarded. Result: lines written out, controls sent to the
  worker, and the end.
\<close>

fun supervise ::
  "supervisor_input list \<Rightarrow> (string list \<times> control_message list \<times> (string + unit)) option" where
  "supervise [] = None"
| "supervise (HostControl control # inputs) =
     (case control of
        None \<Rightarrow> Some ([], [], Inl ''decode supervisor control'')
      | Some (ControlStart r) \<Rightarrow> supervise inputs
      | Some ControlCancel \<Rightarrow> map_option (\<lambda>(lines, ctl, res). (lines, ControlCancel # ctl, res))
          (supervise inputs))"
| "supervise (HostClosed # inputs) = supervise inputs"
| "supervise (WorkerLine line # inputs) =
     map_option (\<lambda>(lines, ctl, res). (line # lines, ctl, res)) (supervise inputs)"
| "supervise (WorkerClosed exit # inputs) =
     Some ([], [], case exit of
         ExitStatus success status \<Rightarrow>
           if success then Inr () else Inl (''sandbox worker exited with '' @ status)
       | _ \<Rightarrow> Inl ''wait for sandbox worker'')"
| "supervise (PipeFailure e # inputs) = Some ([], [], Inl e)"

definition supervisor ::
  "(string \<Rightarrow> string option) \<Rightarrow> (runner_request \<Rightarrow> string + string list) \<Rightarrow> control_message option option \<Rightarrow>
     supervisor_input list \<Rightarrow> (string list \<times> control_message list \<times> (string + unit)) option" where
  "supervisor digest_of spawn_worker first inputs =
     (case first of
        None \<Rightarrow> Some ([], [], Inl ''supervisor input closed before start'')
      | Some None \<Rightarrow> Some ([], [], Inl ''decode runner request'')
      | Some (Some ControlCancel) \<Rightarrow> Some ([], [], Inl ''first supervisor message must be start'')
      | Some (Some (ControlStart request)) \<Rightarrow>
          (case try_bind (check_request digest_of request) (\<lambda>_. spawn_worker request) of
             Inl e \<Rightarrow> Some ([], [], Inl e)
           | Inr _ \<Rightarrow> map_option (\<lambda>(lines, ctl, res).
                 (lines, ControlStart (worker_request request) # ctl, res)) (supervise inputs)))"

section \<open>The sandbox side\<close>

definition runtime_request :: "runner_request \<Rightarrow> runtime_run_request" where
  "runtime_request request = \<lparr>rq_sandbox_agent_path = rn_sandbox_agent_path request,
     rq_adapter = rn_adapter request, rq_cwd = ''/workspace'', rq_prompt = rn_prompt request,
     rq_model = rn_model request, rq_run_timeout_seconds = rn_run_timeout_seconds request,
     rq_idle_timeout_seconds = rn_idle_timeout_seconds request,
     rq_max_output_bytes = unat (rn_max_output_bytes request)\<rparr>"

text \<open>Draining the channel after the runtime task returned.\<close>

fun drain_events :: "runtime_event list \<Rightarrow> runtime_event list \<times> (string + unit)" where
  "drain_events [] = ([], Inl ''runtime ended without a terminal event'')"
| "drain_events (event # evs) =
     (if terminal_event event then ([event], Inr ())
      else case drain_events evs of (out, res) \<Rightarrow> (event # out, res))"

datatype worker_input =
    WorkerControl "control_message option" bool
  | WorkerInputClosed
  | RuntimeSent runtime_event
  | RuntimeReturned "string + unit" "runtime_event list"

text \<open>
  The worker loop: events written out, and whether a cancellation was signalled (which fails
  when the runtime task has dropped its receiver). When the runtime task is seen to have failed first, the events still queued (the second component of
  \<open>RuntimeReturned\<close>) are lost.
\<close>

fun worker_loop :: "worker_input list \<Rightarrow> (runtime_event list \<times> bool \<times> (string + unit)) option" where
  "worker_loop [] = None"
| "worker_loop (WorkerControl control receiver_alive # inputs) =
     (case control of
        None \<Rightarrow> Some ([], False, Inl ''decode worker control'')
      | Some (ControlStart r) \<Rightarrow> worker_loop inputs
      | Some ControlCancel \<Rightarrow>
          if \<not> receiver_alive then Some ([], False, Inl ''signal runtime cancellation'')
          else map_option (\<lambda>(out, c, res). (out, True, res)) (worker_loop inputs))"
| "worker_loop (WorkerInputClosed # inputs) = worker_loop inputs"
| "worker_loop (RuntimeSent event # inputs) =
     (if terminal_event event then Some ([event], False, Inr ())
      else map_option (\<lambda>(out, c, res). (event # out, c, res)) (worker_loop inputs))"
| "worker_loop (RuntimeReturned result pending # inputs) =
     (case result of
        Inl e \<Rightarrow> Some ([], False, Inl e)
      | Inr _ \<Rightarrow> (case drain_events pending of (out, res) \<Rightarrow> Some (out, False, res)))"

definition worker ::
  "control_message option option \<Rightarrow> worker_input list \<Rightarrow>
     (runtime_run_request option \<times> runtime_event list \<times> bool \<times> (string + unit)) option" where
  "worker first inputs =
     (case first of
        None \<Rightarrow> Some (None, [], False, Inl ''worker input closed before start'')
      | Some None \<Rightarrow> Some (None, [], False, Inl ''decode worker request'')
      | Some (Some ControlCancel) \<Rightarrow> Some (None, [], False, Inl ''first worker message must be start'')
      | Some (Some (ControlStart request)) \<Rightarrow>
          map_option (\<lambda>r. (Some (runtime_request request), r)) (worker_loop inputs))"

section \<open>The sandbox\<close>

record sandbox_paths =
  sp_home :: string
  sp_adapter :: string
  sp_agent_wrapper :: "string option"
  sp_runner :: string
  sp_workspace :: string
  sp_runtime :: string
  sp_agent :: string
  sp_agent_process :: "string option"

definition validate_sandbox_relative :: "string \<Rightarrow> string + unit" where
  "validate_sandbox_relative path =
     bail_if (is_absolute path \<or> list_ex escaping_component (path_components path))
       ''credential destination escapes sandbox HOME''"

definition runner_allows_environment :: "string \<Rightarrow> bool" where
  "runner_allows_environment name \<longleftrightarrow>
     name \<in> {''HTTP_PROXY'', ''HTTPS_PROXY'', ''ALL_PROXY'', ''NO_PROXY'',
       ''http_proxy'', ''https_proxy'', ''all_proxy'', ''no_proxy''}"

definition canonical ::
  "(string \<Rightarrow> string option) \<Rightarrow> string \<Rightarrow> string + string" where
  "canonical canonicalize path = ok_or (''canonicalize '' @ path) (canonicalize path)"

definition sandbox_workspace ::
  "(string \<Rightarrow> string option) \<Rightarrow> string \<Rightarrow> runner_request \<Rightarrow> string + string" where
  "sandbox_workspace canonicalize scratch request =
     (case rn_workspace_path request of
        None \<Rightarrow> Inr (path_join scratch ''workspace'')
      | Some path \<Rightarrow>
          try_bind (canonical canonicalize path) (\<lambda>found.
          if path_components found \<noteq> path_components path
          then Inl (''workspace identity changed after submission acceptance: '' @ path)
          else Inr found))"

text \<open>\<open>current_exe\<close> is the runner's own path, \<open>scratch\<close> the temporary directory.\<close>

definition prepare_sandbox_paths ::
  "(string \<Rightarrow> string option) \<Rightarrow> string \<Rightarrow> string \<Rightarrow> runner_request \<Rightarrow> string + sandbox_paths" where
  "prepare_sandbox_paths canonicalize current_exe scratch request =
     try_bind (check_all (\<lambda>mount. validate_sandbox_relative (cm_sandbox_path mount))
       (rn_credential_mounts request)) (\<lambda>_.
     try_bind (sandbox_workspace canonicalize scratch request) (\<lambda>workspace.
     try_bind (canonical canonicalize (rn_sandbox_agent_path request)) (\<lambda>runtime.
     try_bind (canonical canonicalize (rn_agent_path request)) (\<lambda>agent.
     try_bind (case rn_agent_process_path request of
         None \<Rightarrow> Inr None
       | Some path \<Rightarrow> try_bind (canonical canonicalize path) (\<lambda>p. Inr (Some p))) (\<lambda>process.
     Inr \<lparr>sp_home = path_join scratch ''home'', sp_adapter = rn_adapter request,
       sp_agent_wrapper = (if rn_adapter request = ''opencode''
         then Some (path_join scratch ''opencode'') else None),
       sp_runner = current_exe, sp_workspace = workspace, sp_runtime = runtime,
       sp_agent = agent, sp_agent_process = process\<rparr>)))))"

definition configure_base_bubblewrap :: "sandbox_paths \<Rightarrow> bool \<Rightarrow> string list" where
  "configure_base_bubblewrap paths network_enabled =
     [''--die-with-parent'', ''--new-session'', ''--unshare-all''] @
     (if network_enabled then [''--share-net''] else []) @
     [''--ro-bind'', ''/usr'', ''/usr'',
      ''--symlink'', ''usr/bin'', ''/bin'', ''--symlink'', ''usr/sbin'', ''/sbin'',
      ''--symlink'', ''usr/lib'', ''/lib'', ''--symlink'', ''usr/lib64'', ''/lib64'',
      ''--ro-bind'', ''/etc'', ''/etc'', ''--proc'', ''/proc'', ''--dev'', ''/dev'', ''--tmpfs'', ''/tmp'',
      ''--dir'', ''/opt'', ''--dir'', ''/opt/thieving-eyes'', ''--dir'', ''/opt/thieving-eyes/bin'',
      ''--ro-bind'', sp_runner paths, bin_dir @ ''thieving-eyes-runner'',
      ''--ro-bind'', sp_runtime paths, bin_dir @ ''sandbox-agent''] @
     (if sp_adapter paths = ''opencode'' then
        (case sp_agent_wrapper paths of
           None \<Rightarrow> []
         | Some wrapper \<Rightarrow>
             [''--ro-bind'', sp_agent paths, bin_dir @ ''opencode-real'',
              ''--ro-bind'', wrapper, bin_dir @ ''opencode''])
      else [''--ro-bind'', sp_agent paths, path_join ''/opt/thieving-eyes/bin'' (sp_adapter paths)]) @
     (case sp_agent_process paths of
        None \<Rightarrow> []
      | Some process \<Rightarrow>
          [''--ro-bind'', process, path_join ''/opt/thieving-eyes/bin'' (sp_adapter paths @ ''-acp'')]) @
     [''--bind'', sp_home paths, ''/home/agent'']"

definition mount_args :: "(string \<Rightarrow> string option) \<Rightarrow> credential_mount \<Rightarrow> string + string list" where
  "mount_args canonicalize mount =
     try_bind (canonical canonicalize (cm_host_path mount)) (\<lambda>host.
     Inr [''--ro-bind'', host, path_join ''/home/agent'' (cm_sandbox_path mount)])"

definition inherited_environment ::
  "(string \<Rightarrow> string option) \<Rightarrow> runner_request \<Rightarrow> string + (string \<times> string) list" where
  "inherited_environment var_os request =
     (if \<not> rn_network_enabled request then Inr []
      else try_bind (check_all (\<lambda>name. bail_if (\<not> runner_allows_environment name)
          (''runner rejected inherited environment variable '' @ name))
          (rn_inherit_proxy_environment request)) (\<lambda>_.
        Inr (List.map_filter (\<lambda>name. map_option (\<lambda>v. (name, v)) (var_os name))
          (rn_inherit_proxy_environment request))))"

definition worker_command :: "string \<Rightarrow> string list" where
  "worker_command adapter =
     (if adapter = ''codex''
      then [''--setenv'', ''CODEX_PATH'', bin_dir @ ''codex'',
            ''--setenv'', ''CODEX_HOME'', ''/home/agent/.codex'']
      else []) @
     [''--setenv'', ''HOME'', ''/home/agent'',
      ''--setenv'', ''XDG_CONFIG_HOME'', ''/home/agent/.config'',
      ''--setenv'', ''XDG_DATA_HOME'', ''/home/agent/.local/share'',
      ''--setenv'', ''XDG_STATE_HOME'', ''/home/agent/.local/state'',
      ''--setenv'', ''PATH'', ''/opt/thieving-eyes/bin:/usr/bin:/bin'',
      ''--chdir'', ''/workspace'',
      bin_dir @ ''thieving-eyes-runner'', ''worker'']"

text \<open>The environment of the bubblewrap process and its arguments.\<close>

definition spawn_bubblewrap_worker ::
  "(string \<Rightarrow> string option) \<Rightarrow> (string \<Rightarrow> string option) \<Rightarrow> string \<Rightarrow> string \<Rightarrow> runner_request \<Rightarrow>
     string + ((string \<times> string) list \<times> string list)" where
  "spawn_bubblewrap_worker canonicalize var_os current_exe scratch request =
     try_bind (prepare_sandbox_paths canonicalize current_exe scratch request) (\<lambda>paths.
     try_bind (inherited_environment var_os request) (\<lambda>env.
     try_bind (traverse (mount_args canonicalize) (rn_credential_mounts request)) (\<lambda>mounts.
     Inr (env,
       configure_base_bubblewrap paths (rn_network_enabled request) @
       [if rn_workspace_writable request then ''--bind'' else ''--ro-bind'',
        sp_workspace paths, ''/workspace''] @
       concat mounts @
       worker_command (rn_adapter request)))))"

end
