(* ===== verification/RunnerProps.thy ===== *)
theory RunnerProps
  imports Runner
begin

text \<open>
  Properties of the local runner: what a terminal report means to the daemon, and what the
  bubblewrap command line exposes to the sandbox.
\<close>

section \<open>Terminal reports\<close>

definition confirmed_by ::
  "(string \<Rightarrow> runtime_event option) \<Rightarrow> execute_input list \<Rightarrow> runtime_event \<Rightarrow> bool" where
  "confirmed_by from_str inputs e \<longleftrightarrow> (\<exists>line status.
     RunnerLine line (ExitStatus True status) \<in> set inputs \<and> from_str line = Some e)"

lemma confirmed_by_Cons: "confirmed_by from_str inputs e \<Longrightarrow> confirmed_by from_str (x # inputs) e"
  by (auto simp: confirmed_by_def)

lemma confirmed_by_here:
  "from_str line = Some e \<Longrightarrow> confirmed_by from_str (RunnerLine line (ExitStatus True status) # inputs) e"
  by (auto simp: confirmed_by_def)

definition report_ok ::
  "(string \<Rightarrow> runtime_event option) \<Rightarrow> execute_input list \<Rightarrow> runtime_event list \<Rightarrow> (string + unit) \<Rightarrow> bool" where
  "report_ok from_str inputs evs res \<longleftrightarrow>
     (\<forall>e \<in> set (butlast evs). \<not> terminal_event e) \<and>
     (res = Inr () \<longleftrightarrow> evs \<noteq> [] \<and> terminal_event (last evs)) \<and>
     (\<forall>t. RunCompleted t \<in> set evs \<longrightarrow> confirmed_by from_str inputs (RunCompleted t))"

lemma report_ok_skip: "report_ok from_str inputs evs res \<Longrightarrow> report_ok from_str (x # inputs) evs res"
  using confirmed_by_Cons by (fastforce simp: report_ok_def)

lemma report_ok_event:
  "report_ok from_str inputs evs res \<Longrightarrow> \<not> terminal_event e \<Longrightarrow> report_ok from_str (x # inputs) (e # evs) res"
  using confirmed_by_Cons by (cases "evs = []") (fastforce simp: report_ok_def)+

lemma execute_loop_shape:
  "execute_loop from_str cancelling inputs = Some (evs, ctl, res) \<Longrightarrow> report_ok from_str inputs evs res"
proof (induction inputs arbitrary: cancelling evs ctl res)
  case (Cons x inputs)
  show ?case
  proof (cases x)
    case (CancelSignal wanted write_error)
    show ?thesis
    proof (cases "wanted \<and> write_error \<noteq> None")
      case True
      then show ?thesis using Cons.prems CancelSignal by (auto simp: report_ok_def)
    next
      case False
      then show ?thesis
        using Cons.prems CancelSignal by (cases wanted) (auto intro: report_ok_skip Cons.IH)
    qed
  next
    case (RunnerLine line exit)
    show ?thesis
    proof (cases "from_str line")
      case None
      then show ?thesis using Cons.prems RunnerLine by (auto simp: report_ok_def)
    next
      case (Some event)
      show ?thesis
      proof (cases "terminal_event event")
        case True
        then show ?thesis
          using Cons.prems RunnerLine Some
          by (cases exit) (auto simp: report_ok_def confirmed_by_here split: if_splits)
      next
        case False
        then show ?thesis
          using Cons.prems RunnerLine Some by (auto intro: report_ok_event Cons.IH)
      qed
    qed
  next
    case ForcedDeadline
    then show ?thesis
      using Cons.prems by (cases cancelling) (auto intro: report_ok_skip Cons.IH, auto simp: report_ok_def)
  qed (use Cons.prems in \<open>auto simp: report_ok_def\<close>)
qed simp

text \<open>
  What one input forwards, and what decides the outcome: a terminal report with the exit of the runner
  after it, or the confirmation deadline of a cancellation.
\<close>

fun forwards :: "(string \<Rightarrow> runtime_event option) \<Rightarrow> execute_input \<Rightarrow> runtime_event list" where
  "forwards from_str (RunnerLine line exit) = (case from_str line of None \<Rightarrow> [] | Some e \<Rightarrow> [e])"
| "forwards from_str _ = []"

fun verdict :: "(string \<Rightarrow> runtime_event option) \<Rightarrow> execute_input \<Rightarrow> runtime_event \<Rightarrow> bool" where
  "verdict from_str (RunnerLine line (ExitStatus success status)) c \<longleftrightarrow>
     (\<exists>reported. from_str line = Some reported \<and> terminal_event reported \<and>
       (if success then c = reported
        else c = RunUncertain ''runner_lost''
          (''runner exited with '' @ status @ '' after reporting a terminal event'')))"
| "verdict from_str ForcedDeadline c \<longleftrightarrow>
     c = RunUncertain ''runner_lost'' ''runner cancellation exceeded its confirmation deadline''"
| "verdict from_str _ c \<longleftrightarrow> False"

definition decided ::
  "(string \<Rightarrow> runtime_event option) \<Rightarrow> bool \<Rightarrow> execute_input list \<Rightarrow> runtime_event list \<Rightarrow> bool" where
  "decided from_str cancelling inputs evs \<longleftrightarrow> (\<exists>before x rest c.
     inputs = before @ x # rest \<and> verdict from_str x c \<and>
     evs = concat (map (forwards from_str) before) @ [c] \<and>
     (\<forall>e \<in> set (concat (map (forwards from_str) before)). \<not> terminal_event e) \<and>
     (x = ForcedDeadline \<longrightarrow> cancelling \<or> CancelSignal True None \<in> set before))"

lemma decided_here:
  "verdict from_str x c \<Longrightarrow> (x = ForcedDeadline \<Longrightarrow> cancelling) \<Longrightarrow> decided from_str cancelling (x # inputs) [c]"
  unfolding decided_def by (rule exI [of _ "[]"]) simp

lemma decided_later:
  assumes "decided from_str cancelling' inputs evs" and "\<forall>e \<in> set (forwards from_str y). \<not> terminal_event e"
    and "cancelling' \<Longrightarrow> cancelling \<or> y = CancelSignal True None"
  shows "decided from_str cancelling (y # inputs) (forwards from_str y @ evs)"
proof -
  from assms(1) obtain before x rest c where parts: "inputs = before @ x # rest" "verdict from_str x c"
    "evs = concat (map (forwards from_str) before) @ [c]"
    "\<forall>e \<in> set (concat (map (forwards from_str) before)). \<not> terminal_event e"
    "x = ForcedDeadline \<longrightarrow> cancelling' \<or> CancelSignal True None \<in> set before"
    unfolding decided_def by blast
  show ?thesis
    unfolding decided_def
    by (rule exI [of _ "y # before"], rule exI [of _ x], rule exI [of _ rest], rule exI [of _ c])
      (use parts assms(2,3) in auto)
qed

lemma execute_loop_decided:
  "execute_loop from_str cancelling inputs = Some (evs, ctl, Inr ()) \<Longrightarrow> decided from_str cancelling inputs evs"
proof (induction inputs arbitrary: cancelling evs ctl)
  case (Cons x inputs)
  note later = decided_later [where y = x and cancelling = cancelling and inputs = inputs]
  show ?case
  proof (cases x)
    case (CancelSignal wanted write_error)
    then show ?thesis
      using Cons later [where cancelling' = True] later [where cancelling' = cancelling]
      by (cases wanted; cases write_error) fastforce+
  next
    case ForcedDeadline
    then show ?thesis
      using Cons later [where cancelling' = cancelling]
      by (cases cancelling) (fastforce intro: decided_here)+
  next
    case (RunnerLine line exit)
    show ?thesis
    proof (cases "from_str line")
      case (Some event)
      show ?thesis
      proof (cases "terminal_event event")
        case True
        then show ?thesis
          using Cons.prems RunnerLine Some
          by (cases exit) (auto intro!: decided_here split: if_splits)
      next
        case False
        then obtain evs' ctl' where "execute_loop from_str cancelling inputs = Some (evs', ctl', Inr ())"
          "evs = event # evs'"
          using Cons.prems RunnerLine Some by auto
        then show ?thesis
          using later [OF Cons.IH] RunnerLine Some False by fastforce
      qed
    qed (use Cons.prems RunnerLine in simp)
  qed (use Cons.prems in simp_all)
qed simp

text \<open>
  C23: what the daemon is told of an attempt: at most one terminal event, as the last one,
  exactly when \<open>execute\<close> ends without an error. A \<open>Completed\<close> comes only from a runner that reported
  it and then exited with success. In general the last event is the runner's report if the runner
  exits with success after it; a runner that fails after its report, or is killed at the deadline of a
  cancellation it was sent, is reported as \<open>Uncertain\<close>, whatever it had reported; and the events
  before it are those of the lines read, in order.
\<close>

theorem terminal_report_confirmed:
  assumes "execute from_str started request inputs = Some (evs, ctl, res)"
  shows "(\<forall>e \<in> set (butlast evs). \<not> terminal_event e) \<and>
    (res = Inr () \<longleftrightarrow> evs \<noteq> [] \<and> terminal_event (last evs)) \<and>
    (\<forall>t. RunCompleted t \<in> set evs \<longrightarrow> (\<exists>line status. RunnerLine line (ExitStatus True status) \<in> set inputs \<and>
       from_str line = Some (RunCompleted t))) \<and>
    (res = Inr () \<longrightarrow> (\<exists>before x rest. inputs = before @ x # rest \<and> verdict from_str x (last evs) \<and>
       butlast evs = concat (map (forwards from_str) before) \<and>
       (x = ForcedDeadline \<longrightarrow> CancelSignal True None \<in> set before)))"
proof (cases started)
  case None
  then obtain ctl' where run: "execute_loop from_str False inputs = Some (evs, ctl', res)"
    using assms by (auto simp: execute_def)
  have "\<exists>before x rest. inputs = before @ x # rest \<and> verdict from_str x (last evs) \<and>
      butlast evs = concat (map (forwards from_str) before) \<and>
      (x = ForcedDeadline \<longrightarrow> CancelSignal True None \<in> set before)" if "res = Inr ()"
    using execute_loop_decided [OF run [unfolded that]] unfolding decided_def by fastforce
  with execute_loop_shape [OF run] show ?thesis by (simp add: report_ok_def confirmed_by_def)
qed (use assms in \<open>auto simp: execute_def\<close>)

text \<open>
  The worker side: of what the runtime sends, it writes out what comes up to the first terminal
  event - so the second report of a run whose server exits during the shutdown is dropped.
\<close>

lemma drain_first_terminal:
  "\<forall>e \<in> set before. \<not> terminal_event e \<Longrightarrow> terminal_event final \<Longrightarrow>
     drain_events (before @ final # rest) = (before @ [final], Inr ())"
  by (induction before) simp_all

lemma worker_reports_first_terminal:
  "\<forall>e \<in> set before. \<not> terminal_event e \<Longrightarrow> terminal_event final \<Longrightarrow>
     worker_loop (map RuntimeSent before @ RuntimeSent final # inputs) = Some (before @ [final], False, Inr ())"
  by (induction before) simp_all

definition demo_request_line :: "string \<Rightarrow> runtime_event option" where
  "demo_request_line line = (if line = ''done'' then Some (RunCompleted ''ok'') else Some (MessageDelta line))"

definition demo_runner_request :: runner_request where
  "demo_runner_request = \<lparr>rn_attempt_id = ''att_1'', rn_sandbox_agent_path = ''/host/sa'',
     rn_sandbox_agent_sha256 = ''s'', rn_adapter = ''codex'', rn_agent_path = ''/host/codex'',
     rn_agent_sha256 = ''c'', rn_agent_process_path = None, rn_agent_process_sha256 = None,
     rn_bubblewrap_path = ''/usr/bin/bwrap'', rn_workspace_path = Some ''/w'',
     rn_workspace_writable = True, rn_network_enabled = True,
     rn_credential_mounts = [\<lparr>cm_host_path = ''/secret'', cm_sandbox_path = ''.codex/auth.json''\<rparr>],
     rn_inherit_proxy_environment = [''HTTP_PROXY''], rn_prompt = ''hi'', rn_model = None,
     rn_run_timeout_seconds = 60, rn_idle_timeout_seconds = 30, rn_max_output_bytes = 100\<rparr>"

lemma terminal_report_confirmed_witness:
  "\<exists>evs. execute demo_request_line None demo_runner_request
     [RunnerLine ''hi'' ExitTimeout, RunnerLine ''done'' (ExitStatus False ''1'')] =
     Some (evs, [ControlStart demo_runner_request], Inr ()) \<and> evs \<noteq> [] \<and> terminal_event (last evs)"
proof -
  have run: "execute demo_request_line None demo_runner_request
     [RunnerLine ''hi'' ExitTimeout, RunnerLine ''done'' (ExitStatus False ''1'')] =
     Some ([MessageDelta ''hi'', RunUncertain ''runner_lost''
       ''runner exited with 1 after reporting a terminal event''], [ControlStart demo_runner_request], Inr ())"
    by (simp add: execute_def demo_request_line_def)
  from terminal_report_confirmed [OF run] run show ?thesis by blast
qed

section \<open>Reading a bubblewrap command line\<close>

text \<open>How bubblewrap splits its arguments: the options the code uses with their operands.\<close>

definition option_arity :: "string \<Rightarrow> nat option" where
  "option_arity name =
     (if name \<in> {''--die-with-parent'', ''--new-session'', ''--unshare-all'', ''--share-net''} then Some 0
      else if name \<in> {''--proc'', ''--dev'', ''--tmpfs'', ''--dir'', ''--chdir''} then Some 1
      else if name \<in> {''--ro-bind'', ''--bind'', ''--symlink'', ''--setenv''} then Some 2
      else None)"

fun bwrap_options :: "string list \<Rightarrow> (string \<times> string list) list" where
  "bwrap_options [] = []"
| "bwrap_options (name # rest) =
     (case option_arity name of
        None \<Rightarrow> []
      | Some k \<Rightarrow> (name, take k rest) # bwrap_options (drop k rest))"

lemma option_arity_simps [simp]:
  "option_arity ''--die-with-parent'' = Some 0" "option_arity ''--new-session'' = Some 0"
  "option_arity ''--unshare-all'' = Some 0" "option_arity ''--share-net'' = Some 0"
  "option_arity ''--proc'' = Some 1" "option_arity ''--dev'' = Some 1"
  "option_arity ''--tmpfs'' = Some 1" "option_arity ''--dir'' = Some 1"
  "option_arity ''--chdir'' = Some 1" "option_arity ''--ro-bind'' = Some 2"
  "option_arity ''--bind'' = Some 2" "option_arity ''--symlink'' = Some 2"
  "option_arity ''--setenv'' = Some 2"
  by (simp_all add: option_arity_def)

lemma bwrap_options_mounts:
  "list_all2 (\<lambda>m args. mount_args canonicalize m = Inr args) ms mounts \<Longrightarrow>
     bwrap_options (concat mounts @ rest) =
       map (\<lambda>args. (''--ro-bind'', tl args)) mounts @ bwrap_options rest"
proof (induction rule: list_all2_induct)
  case (Cons m ms args mounts)
  then obtain host where "args = [''--ro-bind'', host, path_join ''/home/agent'' (cm_sandbox_path m)]"
    by (auto simp: mount_args_def result_simps)
  with Cons show ?case by simp
qed simp

lemma bwrap_options_base:
  "bwrap_options (configure_base_bubblewrap paths network @ rest) =
     bwrap_options (configure_base_bubblewrap paths network) @ bwrap_options rest"
  by (simp add: configure_base_bubblewrap_def split: option.split)

lemma spawn_Inr:
  assumes "spawn_bubblewrap_worker canonicalize var_os exe scratch request = Inr (env, args)"
  obtains paths mounts where "prepare_sandbox_paths canonicalize exe scratch request = Inr paths"
    and "inherited_environment var_os request = Inr env"
    and "list_all2 (\<lambda>m args. mount_args canonicalize m = Inr args) (rn_credential_mounts request) mounts"
    and "bwrap_options args =
      bwrap_options (configure_base_bubblewrap paths (rn_network_enabled request)) @
      (if rn_workspace_writable request then ''--bind'' else ''--ro-bind'', [sp_workspace paths, ''/workspace'']) #
      map (\<lambda>args. (''--ro-bind'', tl args)) mounts @
      bwrap_options (worker_command (rn_adapter request))"
proof -
  from assms obtain paths mounts where parts:
    "prepare_sandbox_paths canonicalize exe scratch request = Inr paths"
    "inherited_environment var_os request = Inr env"
    "list_all2 (\<lambda>m args. mount_args canonicalize m = Inr args) (rn_credential_mounts request) mounts"
    and args: "args = configure_base_bubblewrap paths (rn_network_enabled request) @
       [if rn_workspace_writable request then ''--bind'' else ''--ro-bind'', sp_workspace paths, ''/workspace''] @
       concat mounts @ worker_command (rn_adapter request)"
    by (auto simp: spawn_bubblewrap_worker_def result_simps)
  show thesis
    by (rule that [OF parts])
      (simp add: args bwrap_options_base bwrap_options_mounts [OF parts(3)])
qed

lemma base_options:
  "(''--bind'', ops) \<in> set (bwrap_options (configure_base_bubblewrap paths network)) \<longleftrightarrow>
     ops = [sp_home paths, ''/home/agent'']"
  "(''--share-net'', ops) \<in> set (bwrap_options (configure_base_bubblewrap paths network)) \<longleftrightarrow>
     network \<and> ops = []"
  by (auto simp: configure_base_bubblewrap_def split: option.splits)

lemma worker_command_options:
  "(''--bind'', ops) \<notin> set (bwrap_options (worker_command adapter))"
  "(''--ro-bind'', ops) \<notin> set (bwrap_options (worker_command adapter))"
  "(''--share-net'', ops) \<notin> set (bwrap_options (worker_command adapter))"
  by (auto simp: worker_command_def bin_dir_def option_arity_def)

lemma inherited_environment_ok:
  assumes "inherited_environment var_os request = Inr env"
  shows "\<forall>(name, v) \<in> set env. runner_allows_environment name \<and> var_os name = Some v"
    and "\<not> rn_network_enabled request \<longrightarrow> env = []"
proof -
  have "\<forall>name \<in> set (rn_inherit_proxy_environment request). runner_allows_environment name"
    if "rn_network_enabled request"
    using assms that by (auto simp: inherited_environment_def result_simps)
  then show "\<forall>(name, v) \<in> set env. runner_allows_environment name \<and> var_os name = Some v"
    using assms by (auto simp: inherited_environment_def result_simps List.map_filter_def split: if_splits)
  show "\<not> rn_network_enabled request \<longrightarrow> env = []"
    using assms by (auto simp: inherited_environment_def)
qed

lemma prepared_workspace:
  assumes "prepare_sandbox_paths canonicalize exe scratch request = Inr paths"
  shows "sp_home paths = path_join scratch ''home''"
    and "case rn_workspace_path request of
        None \<Rightarrow> sp_workspace paths = path_join scratch ''workspace''
      | Some path \<Rightarrow> canonicalize path = Some (sp_workspace paths) \<and>
          path_components (sp_workspace paths) = path_components path"
    and "\<forall>m \<in> set (rn_credential_mounts request). safe_relative (cm_sandbox_path m)"
  using assms
  by (auto simp: prepare_sandbox_paths_def result_simps sandbox_workspace_def canonical_def
      validate_sandbox_relative_def safe_relative_def split: option.splits if_splits)

section \<open>What the sandbox sees\<close>

text \<open>
  C24: the sandbox can write to its scratch home and, only if the workspace was requested
  writable, to the workspace; every credential is mounted read-only; the network is shared only
  when the profile allows it; and of the host's environment only allow-listed proxy variables
  are passed on, none without the network. The mounted workspace is the path that was accepted,
  not what a changed symbolic link would lead to.
\<close>

theorem sandbox_exposure:
  assumes "spawn_bubblewrap_worker canonicalize var_os exe scratch request = Inr (env, args)"
  shows "\<exists>workspace.
    (\<forall>ops. (''--bind'', ops) \<in> set (bwrap_options args) \<longleftrightarrow>
      ops = [path_join scratch ''home'', ''/home/agent''] \<or>
      rn_workspace_writable request \<and> ops = [workspace, ''/workspace'']) \<and>
    (\<forall>path. rn_workspace_path request = Some path \<longrightarrow> canonicalize path = Some workspace \<and>
      path_components workspace = path_components path) \<and>
    (rn_workspace_path request = None \<longrightarrow> workspace = path_join scratch ''workspace'') \<and>
    ((''--share-net'', []) \<in> set (bwrap_options args) \<longleftrightarrow> rn_network_enabled request) \<and>
    (\<forall>(name, v) \<in> set env. runner_allows_environment name \<and> rn_network_enabled request)"
proof (rule spawn_Inr [OF assms])
  fix paths mounts
  assume paths: "prepare_sandbox_paths canonicalize exe scratch request = Inr paths"
    and env: "inherited_environment var_os request = Inr env"
    and opts: "bwrap_options args =
      bwrap_options (configure_base_bubblewrap paths (rn_network_enabled request)) @
      (if rn_workspace_writable request then ''--bind'' else ''--ro-bind'', [sp_workspace paths, ''/workspace'']) #
      map (\<lambda>args. (''--ro-bind'', tl args)) mounts @
      bwrap_options (worker_command (rn_adapter request))"
  note home = prepared_workspace(1) [OF paths]
  have binds: "(''--bind'', ops) \<in> set (bwrap_options args) \<longleftrightarrow>
      ops = [path_join scratch ''home'', ''/home/agent''] \<or>
      rn_workspace_writable request \<and> ops = [sp_workspace paths, ''/workspace'']" for ops
    by (auto simp: opts base_options worker_command_options home)
  have net: "(''--share-net'', []) \<in> set (bwrap_options args) \<longleftrightarrow> rn_network_enabled request"
    by (auto simp: opts base_options worker_command_options)
  show ?thesis
    using binds net prepared_workspace(2) [OF paths] inherited_environment_ok [OF env]
    by (intro exI [of _ "sp_workspace paths"]) (auto split: option.splits)
qed

lemma sandbox_exposure_witness:
  "\<exists>env args. spawn_bubblewrap_worker Some (\<lambda>_. Some ''p'') ''/r'' ''/tmp/x'' demo_runner_request = Inr (env, args) \<and>
    ((''--share-net'', []) \<in> set (bwrap_options args) \<longleftrightarrow> rn_network_enabled demo_runner_request)"
proof -
  have "case spawn_bubblewrap_worker Some (\<lambda>_. Some ''p'') ''/r'' ''/tmp/x'' demo_runner_request of
      Inl _ \<Rightarrow> False | Inr _ \<Rightarrow> True"
    by code_simp
  then obtain env args where run:
    "spawn_bubblewrap_worker Some (\<lambda>_. Some ''p'') ''/r'' ''/tmp/x'' demo_runner_request = Inr (env, args)"
    by (auto split: sum.splits)
  from sandbox_exposure [OF run] run show ?thesis by blast
qed

text \<open>
  C25: a credential is mounted inside the sandbox home and nowhere else: an accepted mount
  resolves, \<open>..\<close> and root components included, to a path below \<open>/home/agent\<close>, and is read-only.
\<close>

theorem credentials_stay_in_home:
  assumes "spawn_bubblewrap_worker canonicalize var_os exe scratch request = Inr (env, args)"
    and "m \<in> set (rn_credential_mounts request)"
  shows "\<exists>host. canonicalize (cm_host_path m) = Some host \<and>
    (''--ro-bind'', [host, path_join ''/home/agent'' (cm_sandbox_path m)]) \<in> set (bwrap_options args) \<and>
    path_starts_with (path_join ''/home/agent'' (cm_sandbox_path m)) ''/home/agent'' \<and>
    prefix d (lexical_resolve d (path_components (cm_sandbox_path m)))"
proof (rule spawn_Inr [OF assms(1)])
  fix paths mounts
  assume paths: "prepare_sandbox_paths canonicalize exe scratch request = Inr paths"
    and mounts: "list_all2 (\<lambda>m args. mount_args canonicalize m = Inr args) (rn_credential_mounts request) mounts"
    and opts: "bwrap_options args =
      bwrap_options (configure_base_bubblewrap paths (rn_network_enabled request)) @
      (if rn_workspace_writable request then ''--bind'' else ''--ro-bind'', [sp_workspace paths, ''/workspace'']) #
      map (\<lambda>args. (''--ro-bind'', tl args)) mounts @
      bwrap_options (worker_command (rn_adapter request))"
  obtain margs where margs: "margs \<in> set mounts" "mount_args canonicalize m = Inr margs"
    using list_all2_setD1 [OF mounts assms(2)] by blast
  then obtain host where host: "canonicalize (cm_host_path m) = Some host"
    and shape: "margs = [''--ro-bind'', host, path_join ''/home/agent'' (cm_sandbox_path m)]"
    by (auto simp: mount_args_def canonical_def result_simps)
  have safe: "safe_relative (cm_sandbox_path m)"
    using prepared_workspace(3) [OF paths] assms(2) by blast
  have "(''--ro-bind'', [host, path_join ''/home/agent'' (cm_sandbox_path m)]) \<in> set (bwrap_options args)"
    using margs(1) shape by (auto simp: opts image_iff intro!: bexI [of _ margs])
  moreover have "path_starts_with (path_join ''/home/agent'' (cm_sandbox_path m)) ''/home/agent''"
    using safe by (intro join_starts_with) (simp_all add: safe_relative_def is_absolute_def)
  ultimately show ?thesis
    using host safe_relative_stays_below [OF safe] by blast
qed

lemma credentials_stay_in_home_witness:
  "prefix [''home'', ''agent''] (lexical_resolve [''home'', ''agent''] (path_components ''.codex/auth.json''))"
proof -
  have "case spawn_bubblewrap_worker Some (\<lambda>_. Some ''p'') ''/r'' ''/tmp/x'' demo_runner_request of
      Inl _ \<Rightarrow> False | Inr _ \<Rightarrow> True"
    by code_simp
  then obtain env args where run:
    "spawn_bubblewrap_worker Some (\<lambda>_. Some ''p'') ''/r'' ''/tmp/x'' demo_runner_request = Inr (env, args)"
    by (auto split: sum.splits)
  have "\<lparr>cm_host_path = ''/secret'', cm_sandbox_path = ''.codex/auth.json''\<rparr> \<in>
      set (rn_credential_mounts demo_runner_request)"
    by (simp add: demo_runner_request_def)
  from credentials_stay_in_home [OF run this, of "[''home'', ''agent'']"] show ?thesis by auto
qed

end
