(* ===== verification/Scheduler.thy ===== *)
theory Scheduler
  imports Capacity Runner
begin

text \<open>
  \<open>crates/service/src/scheduler.rs\<close>: the loop that dispatches queued Submissions and the task
  that carries one attempt to its outcome.

  \<^item> One iteration is \<open>scheduler_iteration\<close>: refresh capacity, read the queue, then one
    \<open>scheduler_turn\<close> per queued Submission in dispatch order. The readings of the clock, fresh
    ULIDs and the stamps of the events are arguments, one record per turn.
  \<^item> Other tasks (attempts, API handlers) work on the same store in between: a turn applies
    \<open>tn_before\<close>, \<open>tn_between\<close> and \<open>tn_after\<close> where it awaits, and an attempt applies
    \<open>ee_between\<close> before each event. What they may do is the properties' hypothesis.
  \<^item> \<open>cancellations\<close> maps a running Submission to the value of its watch channel.
  \<^item> The sort evaluates the priorities at one instant; the source reads the clock again at
    every comparison. The choice of a source (\<open>select_dispatch\<close>) sees one store and one instant; in
    the source it is several queries and clock readings.
\<close>

type_synonym cancellations = "string \<rightharpoonup> bool"

section \<open>Priority and output\<close>

definition effective_priority :: "time \<Rightarrow> queued_submission \<Rightarrow> u16" where
  "effective_priority now item =
     (let age_minutes = max (num_minutes (now - q_created_at item)) 0;
          age = min (case try_from_int age_minutes of None \<Rightarrow> - 1 | Some a \<Rightarrow> a) (50 :: u16)
      in min (saturating_add (ucast (q_priority item)) age) 100)"

definition truncate_output :: "string \<Rightarrow> nat \<Rightarrow> string \<times> bool" where
  "truncate_output text max_bytes =
     (if length text \<le> max_bytes then (text, False)
      else (take (boundary_down text max_bytes) text, True))"

text \<open>\<open>sort_by_key(Reverse(effective_priority))\<close>, a stable sort.\<close>

definition dispatch_order :: "time \<Rightarrow> queued_submission list \<Rightarrow> queued_submission list" where
  "dispatch_order now items = sort_key (\<lambda>item. - int (unat (effective_priority now item))) items"

section \<open>Choosing a route and a source\<close>

record dispatch =
  dp_route_id :: string
  dp_adapter :: string
  dp_source_id :: string
  dp_source_label :: string
  dp_model :: "string option"
  dp_target_id :: string

datatype dispatch_decision = Blocked string | Ready dispatch

text \<open>The two loops; the flag is \<open>saw_unknown\<close>.\<close>

fun try_sources ::
  "time \<Rightarrow> config \<Rightarrow> observations \<Rightarrow> store \<Rightarrow> route_config \<Rightarrow> string option \<Rightarrow> string list \<Rightarrow> bool \<Rightarrow>
     store_error + (dispatch option \<times> bool)" where
  "try_sources now config obs s route model [] unknown = Inr (None, unknown)"
| "try_sources now config obs s route model (source_id # source_ids) unknown =
     (case config_source config source_id of
        None \<Rightarrow> try_sources now config obs s route model source_ids True
      | Some source \<Rightarrow>
          try_bind (active_for_source source_id s) (\<lambda>active.
          case available now obs source active of
            None \<Rightarrow> try_sources now config obs s route model source_ids True
          | Some n \<Rightarrow>
              if 0 < n
              then Inr (Some \<lparr>dp_route_id = ro_id route, dp_adapter = ro_adapter route,
                  dp_source_id = so_id source, dp_source_label = so_label source,
                  dp_model = model, dp_target_id = ro_target_id route\<rparr>, unknown)
              else try_sources now config obs s route model source_ids unknown))"

definition route_model :: "string option \<Rightarrow> route_config \<Rightarrow> string option" where
  "route_model requested_model route =
     (case requested_model of
        Some m \<Rightarrow> Some m
      | None \<Rightarrow> if ro_model route \<noteq> [] then Some (ro_model route) else None)"

fun try_routes ::
  "time \<Rightarrow> config \<Rightarrow> observations \<Rightarrow> store \<Rightarrow> string option \<Rightarrow> route_config list \<Rightarrow> bool \<Rightarrow>
     store_error + (dispatch option \<times> bool)" where
  "try_routes now config obs s requested_model [] unknown = Inr (None, unknown)"
| "try_routes now config obs s requested_model (route # routes) unknown =
     try_bind (try_sources now config obs s route (route_model requested_model route)
         (ro_source_ids route) unknown)
        (\<lambda>(found, unknown').
          case found of
            Some d \<Rightarrow> Inr (Some d, unknown')
          | None \<Rightarrow> try_routes now config obs s requested_model routes unknown')"

definition select_dispatch ::
  "time \<Rightarrow> config \<Rightarrow> observations \<Rightarrow> store \<Rightarrow> queued_submission \<Rightarrow> store_error + dispatch_decision" where
  "select_dispatch now config obs s submission =
     (let routes = filter (\<lambda>route. ro_target_id route = ''local'') (q_routes submission) in
      try_bind (try_routes now config obs s (Option.bind (sc_agent (q_request submission)) ag_model)
          routes False)
        (\<lambda>(found, saw_unknown). Inr (case found of
            Some d \<Rightarrow> Ready d
          | None \<Rightarrow> Blocked (if routes = [] then ''route_unsatisfied''
              else if saw_unknown then ''capacity_unknown'' else ''capacity_unavailable''))))"

section \<open>A turn\<close>

record turn_env =
  tn_deadline_now :: time
  tn_not_before_now :: time
  tn_capacity_now :: time
  tn_before :: "store \<Rightarrow> store"
  tn_between :: "store \<Rightarrow> store"
  tn_after :: "store \<Rightarrow> store"
  tn_ulid :: string
  tn_now :: time
  tn_stamp1 :: stamp
  tn_stamp2 :: stamp

datatype turn_outcome =
    TurnExpired
  | TurnBlocked string
  | TurnStarted dispatch string bool
  | TurnSkipped

definition claim_of :: "queued_submission \<Rightarrow> dispatch \<Rightarrow> string \<Rightarrow> claim_spec" where
  "claim_of submission d attempt_id =
     \<lparr>cl_submission_id = q_submission_id submission, cl_attempt_id = attempt_id,
      cl_route_id = dp_route_id d, cl_adapter = dp_adapter d,
      cl_model = (case dp_model d of None \<Rightarrow> ''agent_default'' | Some m \<Rightarrow> m),
      cl_target_id = dp_target_id d, cl_source_id = dp_source_id d,
      cl_source_label = dp_source_label d, cl_sandbox_profile = pr_id (q_profile submission),
      cl_runtime = \<lparr>rt_name = ''sandbox-agent'', rt_version = SANDBOX_AGENT_VERSION,
        rt_digest = ''sha256:'' @ SANDBOX_AGENT_SHA256\<rparr>\<rparr>"

definition block_turn ::
  "turn_env \<Rightarrow> string \<Rightarrow> string \<Rightarrow> store \<Rightarrow> store \<times> (store_error + turn_outcome)" where
  "block_turn env submission_id code s =
     (case set_blocker (tn_now env) (tn_stamp1 env) submission_id code None s of
        (s', Inl e) \<Rightarrow> (s', Inl e)
      | (s', Inr _) \<Rightarrow> (s', Inr (TurnBlocked code)))"

text \<open>
  A \<open>Ready\<close> decision: claim, register the channel, then look whether a cancellation was
  requested before the channel was there; an error of that look-up counts as a request.
\<close>

definition start_turn ::
  "turn_env \<Rightarrow> queued_submission \<Rightarrow> dispatch \<Rightarrow> store \<times> cancellations \<Rightarrow>
     (store \<times> cancellations) \<times> (store_error + turn_outcome)" where
  "start_turn env submission d st =
     (case st of (s, cancels) \<Rightarrow>
      let i = q_submission_id submission; attempt_id = ''att_'' @ tn_ulid env in
      case claim (tn_now env) (tn_stamp1 env) (tn_stamp2 env) (claim_of submission d attempt_id) s of
        (s1, Inr _) \<Rightarrow>
          let registered = cancels(i \<mapsto> False);
              s2 = tn_after env s1;
              signalled = (case cancellation_requested i s2 of Inr requested \<Rightarrow> requested | Inl _ \<Rightarrow> True)
          in ((s2, if signalled then registered(i \<mapsto> True) else registered),
              Inr (TurnStarted d attempt_id signalled))
      | (s1, Inl WorkspaceBusy) \<Rightarrow>
          (case block_turn env i ''workspace_busy'' s1 of (s2, res) \<Rightarrow> ((s2, cancels), res))
      | (s1, Inl NotQueued) \<Rightarrow> ((s1, cancels), Inr TurnSkipped)
      | (s1, Inl e) \<Rightarrow> ((s1, cancels), Inl e))"

definition scheduler_turn ::
  "config \<Rightarrow> observations \<Rightarrow> turn_env \<Rightarrow> queued_submission \<Rightarrow> store \<times> cancellations \<Rightarrow>
     (store \<times> cancellations) \<times> (store_error + turn_outcome)" where
  "scheduler_turn config obs env submission st =
     (case st of (s, cancels) \<Rightarrow>
      let i = q_submission_id submission; s0 = tn_before env s in
      if (case q_start_deadline submission of None \<Rightarrow> False | Some d \<Rightarrow> d \<le> tn_deadline_now env)
      then (case expire (tn_now env) (tn_stamp1 env) i s0 of
          (s1, Inl e) \<Rightarrow> ((s1, cancels), Inl e)
        | (s1, Inr _) \<Rightarrow> ((s1, cancels), Inr TurnExpired))
      else if (case q_not_before submission of None \<Rightarrow> False | Some b \<Rightarrow> tn_not_before_now env < b)
      then (case block_turn env i ''not_before'' s0 of (s1, res) \<Rightarrow> ((s1, cancels), res))
      else (case select_dispatch (tn_capacity_now env) config obs s0 submission of
          Inl e \<Rightarrow> ((s0, cancels), Inl e)
        | Inr (Blocked code) \<Rightarrow>
            (case block_turn env i code (tn_between env s0) of (s1, res) \<Rightarrow> ((s1, cancels), res))
        | Inr (Ready d) \<Rightarrow> start_turn env submission d (tn_between env s0, cancels)))"

text \<open>The turns of one iteration; an error ends the scheduler.\<close>

fun scheduler_pass ::
  "config \<Rightarrow> observations \<Rightarrow> (string \<Rightarrow> turn_env) \<Rightarrow> queued_submission list \<Rightarrow>
     store \<times> cancellations \<Rightarrow> (store \<times> cancellations) \<times> (store_error + turn_outcome list)" where
  "scheduler_pass config obs env [] st = (st, Inr [])"
| "scheduler_pass config obs env (submission # items) st =
     (case scheduler_turn config obs (env (q_submission_id submission)) submission st of
        (st', Inl e) \<Rightarrow> (st', Inl e)
      | (st', Inr outcome) \<Rightarrow>
          (case scheduler_pass config obs env items st' of
             (st'', Inl e) \<Rightarrow> (st'', Inl e)
           | (st'', Inr outcomes) \<Rightarrow> (st'', Inr (outcome # outcomes))))"

definition scheduler_iteration ::
  "(string \<Rightarrow> capacity_probe_response option) \<Rightarrow> (string \<Rightarrow> probe_env) \<Rightarrow> config \<Rightarrow> time \<Rightarrow>
     (string \<Rightarrow> turn_env) \<Rightarrow> observations \<times> store \<times> cancellations \<Rightarrow>
     (observations \<times> store \<times> cancellations) \<times> (store_error + turn_outcome list)" where
  "scheduler_iteration from_slice probes config now env st =
     (case st of (obs, s, cancels) \<Rightarrow>
      case refresh_due from_slice probes (cfg_sources config) (obs, s) of (obs', s1) \<Rightarrow>
      case queued s1 of
        Inl e \<Rightarrow> ((obs', s1, cancels), Inl e)
      | Inr items \<Rightarrow>
          (case scheduler_pass config obs' env (dispatch_order now items) (s1, cancels) of
             (st', res) \<Rightarrow> ((obs', st'), res)))"

text \<open>Before the loop, and after it: every running attempt is told to cancel.\<close>

definition scheduler_start ::
  "time \<Rightarrow> time \<Rightarrow> (string \<Rightarrow> time \<times> stamp) \<Rightarrow> (string \<Rightarrow> time \<times> stamp \<times> stamp) \<Rightarrow> config \<Rightarrow> store \<Rightarrow>
     (observations \<times> store) \<times> (store_error + unit)" where
  "scheduler_start now instant reject_env recover_env config s =
     (let obs = initialize now instant (cfg_sources config) Map.empty in
      case reject_unfrozen_queued reject_env s of
        (s1, Inl e) \<Rightarrow> ((obs, s1), Inl e)
      | (s1, Inr rejected) \<Rightarrow>
          (case recover_running_as_uncertain recover_env s1 of
             (s2, Inl e) \<Rightarrow> ((obs, s2), Inl e)
           | (s2, Inr recovered) \<Rightarrow> ((obs, s2), Inr ())))"

definition cancel_all :: "cancellations \<Rightarrow> cancellations" where
  "cancel_all cancels = (\<lambda>i. map_option (\<lambda>_. True) (cancels i))"

section \<open>An attempt\<close>

definition attempt_prompt :: "submission_create \<Rightarrow> string" where
  "attempt_prompt request =
     join_with [CHR 0x0A, CHR 0x0A]
       (List.map_filter (\<lambda>part. case part of PartText text \<Rightarrow> Some text | _ \<Rightarrow> None)
         (inp_parts (sc_input request)))"

definition limited :: "(limits \<Rightarrow> u64 option) \<Rightarrow> submission_create \<Rightarrow> u64 \<Rightarrow> u64" where
  "limited field request policy_limit =
     min (case Option.bind (sc_limits request) field of None \<Rightarrow> policy_limit | Some n \<Rightarrow> n) policy_limit"

definition attempt_request ::
  "config \<Rightarrow> queued_submission \<Rightarrow> string \<Rightarrow> dispatch \<Rightarrow> string + runner_request" where
  "attempt_request config submission attempt_id d =
     try_bind (ok_or (''missing frozen Agent binary for '' @ dp_adapter d)
       (agent_binary config (dp_adapter d))) (\<lambda>binary.
     Inr \<lparr>rn_attempt_id = attempt_id,
       rn_sandbox_agent_path = sandbox_agent_path config,
       rn_sandbox_agent_sha256 = SANDBOX_AGENT_SHA256,
       rn_adapter = dp_adapter d, rn_agent_path = ab_binary binary, rn_agent_sha256 = ab_sha256 binary,
       rn_agent_process_path = ab_agent_process_binary binary,
       rn_agent_process_sha256 = ab_agent_process_sha256 binary,
       rn_bubblewrap_path = lr_bubblewrap_binary (cfg_local_runner config),
       rn_workspace_path = q_workspace_key submission,
       rn_workspace_writable = (q_workspace_access submission = Some ''writable''),
       rn_network_enabled = (pr_network (q_profile submission) = NetInherited),
       rn_credential_mounts = map (\<lambda>m. \<lparr>cm_host_path = cf_host_path m, cm_sandbox_path = cf_sandbox_path m\<rparr>)
         (filter (\<lambda>m. cf_source_id m = dp_source_id d) (lr_credential_files (cfg_local_runner config))),
       rn_inherit_proxy_environment = (case local_source_binding config (dp_source_id d) of
           None \<Rightarrow> [] | Some b \<Rightarrow> sb_inherit_proxy_environment b),
       rn_prompt = attempt_prompt (q_request submission), rn_model = dp_model d,
       rn_run_timeout_seconds =
         limited lim_run_timeout_seconds (q_request submission) (po_run_timeout_seconds (q_policy submission)),
       rn_idle_timeout_seconds =
         limited lim_idle_timeout_seconds (q_request submission) (po_idle_timeout_seconds (q_policy submission)),
       rn_max_output_bytes = saturating_add (dc_max_inline_output_bytes (cfg_daemon config)) 4\<rparr>)"

definition plan_entry_json :: "plan_entry \<Rightarrow> json" where
  "plan_entry_json e = JObject [(''content'', JString (pe_content e)),
     (''priority'', json_opt JString (pe_priority e)), (''status'', json_opt JString (pe_status e))]"

definition usage_cost_json :: "usage_cost \<Rightarrow> json" where
  "usage_cost_json k = JObject [(''amount'', JFloat (uc_amount k)), (''currency'', JString (uc_currency k))]"

definition attempt_error :: "string \<Rightarrow> string \<Rightarrow> error_detail" where
  "attempt_error code message =
     \<lparr>ed_code = code, ed_message = message, ed_retryable = False, ed_scope = ScopeAttempt,
      ed_retry_after_seconds = None, ed_field = None\<rparr>"

definition finish_as ::
  "string \<Rightarrow> string \<Rightarrow> submission_state \<Rightarrow> string option \<Rightarrow> bool \<Rightarrow> error_detail option \<Rightarrow> finish_spec" where
  "finish_as submission_id attempt_id state text was_cut err =
     \<lparr>fin_submission_id = submission_id, fin_attempt_id = attempt_id, fin_state = state,
      fin_output = text, fin_truncated = was_cut, fin_error = err, fin_agent_version = None\<rparr>"

text \<open>How a terminal event ends the Submission.\<close>

definition terminal_spec :: "nat \<Rightarrow> string \<Rightarrow> string \<Rightarrow> runtime_event \<Rightarrow> finish_spec option" where
  "terminal_spec max_bytes submission_id attempt_id event =
     (case event of
        RunCompleted text \<Rightarrow>
          (case truncate_output text max_bytes of (text', was_cut) \<Rightarrow>
             Some (finish_as submission_id attempt_id Completed (Some text') was_cut None))
      | RunCancelled \<Rightarrow> Some (finish_as submission_id attempt_id Cancelled None False None)
      | RunFailed code message \<Rightarrow>
          Some (finish_as submission_id attempt_id Failed None False (Some (attempt_error code message)))
      | RunUncertain code message \<Rightarrow>
          Some (finish_as submission_id attempt_id Uncertain None False (Some (attempt_error code message)))
      | _ \<Rightarrow> None)"

text \<open>How any other event is logged.\<close>

definition event_record :: "runtime_event \<Rightarrow> (string \<times> json) option" where
  "event_record event =
     (case event of
        Started version \<Rightarrow> Some (''diagnostic.warning'',
          JObject [(''agent_version'', json_opt JString version), (''runtime'', JString ''ready'')])
      | MessageDelta text \<Rightarrow> Some (''agent.message'', JObject [(''delta'', JString text)])
      | Tool title progress_text \<Rightarrow> Some (''agent.tool'',
          JObject [(''status'', JString progress_text), (''title'', JString title)])
      | Plan entries \<Rightarrow> Some (''agent.plan'', JObject [(''entries'', JArray (map plan_entry_json entries))])
      | Usage used window cost \<Rightarrow> Some (''agent.usage'',
          JObject [(''cost'', json_opt usage_cost_json cost), (''size'', JInt (uint window)),
            (''used'', JInt (uint used))])
      | _ \<Rightarrow> None)"

record event_env =
  ee_between :: "store \<Rightarrow> store"
  ee_now :: time
  ee_stamp1 :: stamp
  ee_stamp2 :: stamp

text \<open>One event: whether it was terminal, or the error that ends the attempt task.\<close>

definition log_event ::
  "string \<Rightarrow> string \<Rightarrow> stamp \<Rightarrow> runtime_event \<Rightarrow> store \<Rightarrow> store \<times> (store_error + bool)" where
  "log_event submission_id attempt_id st event s =
     (case event_record event of
        None \<Rightarrow> (s, Inr False)
      | Some (event_type, data) \<Rightarrow>
          (case append_agent_event st submission_id attempt_id event_type data s of
             (s', Inl e) \<Rightarrow> (s', Inl e)
           | (s', Inr _) \<Rightarrow> (s', Inr False)))"

definition handle_event ::
  "nat \<Rightarrow> string \<Rightarrow> string \<Rightarrow> event_env \<Rightarrow> runtime_event \<Rightarrow> store \<Rightarrow> store \<times> (store_error + bool)" where
  "handle_event max_bytes submission_id attempt_id env event s =
     (case terminal_spec max_bytes submission_id attempt_id event of
        Some spec \<Rightarrow>
          (case finish (ee_now env) (ee_stamp1 env) (ee_stamp2 env) spec s of
             (s', Inl e) \<Rightarrow> (s', Inl e)
           | (s', Inr _) \<Rightarrow> (s', Inr True))
      | None \<Rightarrow>
          (case event of
             Started version \<Rightarrow>
               (case mark_attempt_running (ee_stamp1 env) submission_id attempt_id version s of
                  (s', Inl e) \<Rightarrow> (s', Inl e)
                | (s', Inr _) \<Rightarrow> log_event submission_id attempt_id (ee_stamp2 env) event s')
           | _ \<Rightarrow> log_event submission_id attempt_id (ee_stamp1 env) event s))"

text \<open>The events received until the channel closes; the result says whether one was terminal.\<close>

fun attempt_loop ::
  "nat \<Rightarrow> string \<Rightarrow> string \<Rightarrow> (runtime_event \<times> event_env) list \<Rightarrow> store \<Rightarrow> store \<times> (store_error + bool)" where
  "attempt_loop max_bytes submission_id attempt_id [] s = (s, Inr False)"
| "attempt_loop max_bytes submission_id attempt_id ((event, env) # evs) s =
     (case handle_event max_bytes submission_id attempt_id env event (ee_between env s) of
        (s', Inl e) \<Rightarrow> (s', Inl e)
      | (s', Inr True) \<Rightarrow> (s', Inr True)
      | (s', Inr False) \<Rightarrow> attempt_loop max_bytes submission_id attempt_id evs s')"

datatype attempt_failure = RequestFailure string | StoreFailure store_error

text \<open>\<open>runner\<close>: the events \<open>execute\<close> sends for a request, with what happens around each.\<close>

definition run_attempt ::
  "config \<Rightarrow> queued_submission \<Rightarrow> string \<Rightarrow> dispatch \<Rightarrow>
     (runner_request \<Rightarrow> (runtime_event \<times> event_env) list) \<Rightarrow> event_env \<Rightarrow> store \<Rightarrow>
     store \<times> (attempt_failure + unit)" where
  "run_attempt config submission attempt_id d runner closing s =
     (case attempt_request config submission attempt_id d of
        Inl e \<Rightarrow> (s, Inl (RequestFailure e))
      | Inr request \<Rightarrow>
          (case attempt_loop (unat (dc_max_inline_output_bytes (cfg_daemon config)))
              (q_submission_id submission) attempt_id (runner request) s of
             (s1, Inl e) \<Rightarrow> (s1, Inl (StoreFailure e))
           | (s1, Inr True) \<Rightarrow> (s1, Inr ())
           | (s1, Inr False) \<Rightarrow>
               (case finish (ee_now closing) (ee_stamp1 closing) (ee_stamp2 closing)
                   (finish_as (q_submission_id submission) attempt_id Uncertain None False
                     (Some (attempt_error ''runner_lost'' ''local runner exited without a terminal report'')))
                   (ee_between closing s1) of
                  (s2, Inl e) \<Rightarrow> (s2, Inl (StoreFailure e))
                | (s2, Inr _) \<Rightarrow> (s2, Inr ()))))"

text \<open>The spawned task: a failure of the attempt's control is itself recorded as \<open>Uncertain\<close>.\<close>

definition attempt_task ::
  "config \<Rightarrow> queued_submission \<Rightarrow> string \<Rightarrow> dispatch \<Rightarrow>
     (runner_request \<Rightarrow> (runtime_event \<times> event_env) list) \<Rightarrow> event_env \<Rightarrow> event_env \<Rightarrow>
     store \<times> cancellations \<Rightarrow> store \<times> cancellations" where
  "attempt_task config submission attempt_id d runner closing failing st =
     (case st of (s, cancels) \<Rightarrow>
      case run_attempt config submission attempt_id d runner closing s of
        (s1, Inr _) \<Rightarrow> (s1, cancels(q_submission_id submission := None))
      | (s1, Inl _) \<Rightarrow>
          (fst (finish (ee_now failing) (ee_stamp1 failing) (ee_stamp2 failing)
             (finish_as (q_submission_id submission) attempt_id Uncertain None False
               (Some (attempt_error ''runner_lost'' ''attempt control failed before a terminal report'')))
             (ee_between failing s1)),
           cancels(q_submission_id submission := None)))"

end
