(* ===== verification/SchedulerProps.thy ===== *)
theory SchedulerProps
  imports Scheduler Demo "HOL-Library.Multiset"
begin

text \<open>
  Properties of the scheduler: the order of dispatch, the captured output, the capacity bound
  under interference by the other tasks, and the outcome of an attempt.
\<close>

section \<open>Priority\<close>

lemma unat_ucast_u8: "unat (ucast (p :: u8) :: u16) = unat p"
  using unsigned_less [of p, where 'a = nat] by (simp add: unsigned_ucast_eq take_bit_nat_eq_self)

lemma age_bound:
  assumes "0 \<le> m"
  shows "unat (min (case try_from_int m of None \<Rightarrow> - 1 | Some a \<Rightarrow> a) (50 :: u16)) = min (nat m) 50"
proof (cases "m < 2 ^ 16")
  case True
  then have "try_from_int m = Some (word_of_int m :: u16)" "unat (word_of_int m :: u16) = nat m"
    using assms by (simp_all add: try_from_int_def unat_eq_nat_uint uint_word_of_int_in_range del: of_int_eq_numeral_iff)
  then show ?thesis
    by (simp add: min_def word_le_nat_alt)
next
  case False
  then have "try_from_int m = (None :: u16 option)"
    by (simp add: try_from_int_def)
  moreover have "unat (- 1 :: u16) = 65535"
    by (simp add: unsigned_minus_1_eq_mask mask_eq_exp_minus_1)
  ultimately show ?thesis
    using False by (simp add: min_def word_le_nat_alt)
qed

lemma effective_priority_value:
  "unat (effective_priority now q) =
     min (unat (q_priority q) + min (nat (max (num_minutes (now - q_created_at q)) 0)) 50) 100"
proof -
  let ?m = "max (num_minutes (now - q_created_at q)) 0"
  let ?age = "min (case try_from_int ?m of None \<Rightarrow> - 1 | Some a \<Rightarrow> a) (50 :: u16)"
  have age: "unat ?age = min (nat ?m) 50"
    by (rule age_bound) simp
  have "unat (q_priority q) < 256"
    using unsigned_less [of "q_priority q", where 'a = nat] by simp
  then have "unat (saturating_add (ucast (q_priority q)) ?age) = unat (q_priority q) + min (nat ?m) 50"
    by (simp add: rust_arith unat_ucast_u8 age)
  then show ?thesis
    by (simp add: effective_priority_def Let_def min_def word_le_nat_alt)
qed

lemma dispatch_order_stable:
  "filter (\<lambda>q. effective_priority now q = p) (dispatch_order now items) =
     filter (\<lambda>q. effective_priority now q = p) items"
proof -
  have "effective_priority now q = p \<longleftrightarrow> - int (unat (effective_priority now q)) = - int (unat p)" for q
    by (simp add: word_eq_iff_unsigned [where 'a = int])
  then show ?thesis
    unfolding dispatch_order_def by (simp only: sort_key_stable)
qed

text \<open>
  C26: the order of dispatch: the same Submissions, by descending effective priority, equal
  priorities in the order of the queue; and the effective priority is the requested one plus a
  point per minute waited, fifty at most, never above one hundred.
\<close>

theorem dispatch_order_ages:
  "mset (dispatch_order now items) = mset items \<and>
   sorted_wrt (\<lambda>a b. effective_priority now b \<le> effective_priority now a) (dispatch_order now items) \<and>
   filter (\<lambda>q. effective_priority now q = p) (dispatch_order now items) =
     filter (\<lambda>q. effective_priority now q = p) items \<and>
   unat (effective_priority now q) =
     min (unat (q_priority q) + min (nat (max (num_minutes (now - q_created_at q)) 0)) 50) 100"
proof -
  have "sorted (map (\<lambda>q. - int (unat (effective_priority now q))) (dispatch_order now items))"
    by (simp add: dispatch_order_def)
  then have "sorted_wrt (\<lambda>a b. effective_priority now b \<le> effective_priority now a) (dispatch_order now items)"
    by (simp add: sorted_map word_le_def)
  moreover have "mset (dispatch_order now items) = mset items"
    by (simp add: dispatch_order_def)
  ultimately show ?thesis
    using dispatch_order_stable effective_priority_value by blast
qed

section \<open>Captured output\<close>

lemma truncate_output_eq: "truncate_output text n = (truncate_to_bytes text n, n < length text)"
  by (simp add: truncate_output_def truncate_to_bytes_def)

definition delta_text :: "(json \<Rightarrow> u64 option) \<Rightarrow> json \<Rightarrow> string" where
  "delta_text as_f64 msg = (case normalize_event as_f64 msg of Some (MessageDelta t) \<Rightarrow> t | _ \<Rightarrow> [])"

definition captured :: "(json \<Rightarrow> u64 option) \<Rightarrow> nat \<Rightarrow> json list \<Rightarrow> string \<Rightarrow> string" where
  "captured as_f64 limit msgs text = foldl (\<lambda>out msg. fst (handle_inbound as_f64 limit None msg out)) text msgs"

lemma handle_inbound_text:
  "fst (handle_inbound as_f64 limit delivery msg out) =
     out @ truncate_to_bytes (delta_text as_f64 msg) (limit - length out)"
  by (auto simp: handle_inbound_def delta_text_def Let_def truncate_to_bytes_def
      split: option.splits runtime_event.splits)

text \<open>What the capture and the whole text have in common: all of it, or the first bytes.\<close>

definition agree :: "nat \<Rightarrow> string \<Rightarrow> string \<Rightarrow> bool" where
  "agree n out whole \<longleftrightarrow> out = whole \<and> length out \<le> n + 4 \<or>
     n < length out \<and> n < length whole \<and> take (Suc n) out = take (Suc n) whole"

lemma agree_step:
  assumes "agree n out whole" and "utf8 t"
  shows "agree n (out @ truncate_to_bytes t (n + 4 - length out)) (whole @ t)"
proof (cases "out = whole \<and> length out \<le> n + 4")
  case True
  let ?add = "truncate_to_bytes t (n + 4 - length out)"
  show ?thesis
  proof (cases "length t \<le> n + 4 - length out")
    case True
    then show ?thesis
      using \<open>out = whole \<and> length out \<le> n + 4\<close> by (auto simp: agree_def capture.cut_short)
  next
    case False
    then have "n + 4 - length out \<le> length ?add + 3"
      using capture.cut_near [OF assms(2)] by simp
    then have long: "n < length (out @ ?add)" using True by simp
    moreover obtain u where "t = ?add @ u"
      using capture.cut_prefix prefixE by blast
    then have "whole @ t = (out @ ?add) @ u" using True by simp
    ultimately show ?thesis
      by (simp add: agree_def del: append_assoc)
  qed
next
  case False
  then show ?thesis using assms(1) by (auto simp: agree_def)
qed

lemma captured_agree:
  "agree n out whole \<Longrightarrow> \<forall>msg \<in> set msgs. utf8 (delta_text as_f64 msg) \<Longrightarrow>
     agree n (captured as_f64 (n + 4) msgs out) (whole @ concat (map (delta_text as_f64) msgs))"
proof (induction msgs arbitrary: out whole)
  case (Cons msg msgs)
  have "agree n (out @ truncate_to_bytes (delta_text as_f64 msg) (n + 4 - length out))
      (whole @ delta_text as_f64 msg)"
    using Cons.prems by (intro agree_step) simp_all
  from Cons.IH [OF this] Cons.prems(2) show ?case
    by (simp add: captured_def handle_inbound_text)
qed (simp add: captured_def)

lemma agree_truncated: "agree n out whole \<Longrightarrow> truncate_output out n = truncate_output whole n"
  by (auto simp: agree_def truncate_output_eq intro: capture.cut_cong)

text \<open>
  C27: the runtime captures four bytes more than the scheduler keeps, and that is enough:
  whatever deltas the agent streamed, cut at whatever characters, the recorded output and its
  \<open>truncated\<close> flag are those of truncating the whole text - and on its own the capture loop
  is not exact, since a short delta is appended after a longer one was cut.
\<close>

theorem recorded_output_exact:
  assumes "\<forall>msg \<in> set msgs. utf8 (delta_text as_f64 msg)"
  shows "truncate_output (captured as_f64 (n + 4) msgs []) n =
    truncate_output (concat (map (delta_text as_f64) msgs)) n"
  using captured_agree [of n "[]" "[]" msgs as_f64] assms
  by (simp add: agree_truncated agree_def)

definition say :: "string \<Rightarrow> json" where
  "say text = JObject [(''params'', JObject [(''sessionUpdate'', JString ''agent_message_chunk''),
     (''content'', JObject [(''text'', JString text)])])]"

lemma recorded_output_exact_witness:
  "captured (\<lambda>_. None) 6 [say ''abcd'', say [CHR 0xE4, CHR 0xBD, CHR 0xA0], say ''x'', say ''y''] [] = ''abcdxy'' \<and>
   truncate_output ''abcdxy'' 2 = (''ab'', True) \<and>
   truncate_output (captured (\<lambda>_. None) (2 + 4) [say ''abcd'', say [CHR 0xE4, CHR 0xBD, CHR 0xA0], say ''x'', say ''y''] []) 2 =
     truncate_output (concat (map (delta_text (\<lambda>_. None)) [say ''abcd'', say [CHR 0xE4, CHR 0xBD, CHR 0xA0], say ''x'', say ''y''])) 2"
proof (intro conjI)
  show "captured (\<lambda>_. None) 6 [say ''abcd'', say [CHR 0xE4, CHR 0xBD, CHR 0xA0], say ''x'', say ''y''] [] = ''abcdxy''"
    "truncate_output ''abcdxy'' 2 = (''ab'', True)"
    by code_simp+
  show "truncate_output (captured (\<lambda>_. None) (2 + 4) [say ''abcd'', say [CHR 0xE4, CHR 0xBD, CHR 0xA0], say ''x'', say ''y''] []) 2 =
     truncate_output (concat (map (delta_text (\<lambda>_. None)) [say ''abcd'', say [CHR 0xE4, CHR 0xBD, CHR 0xA0], say ''x'', say ''y''])) 2"
    by (rule recorded_output_exact) code_simp
qed

end
