(* ===== verification/Dispatch.thy ===== *)
theory Dispatch
  imports Scheduler Demo
begin

text \<open>
  The capacity bound of the scheduler. Between the capacity decision and the claim other tasks
  work on the store; \<open>other_step\<close> is what they may do - any call of the store but a claim - and
  such a step never takes capacity. The decision itself is an instance of the contract
  \<open>capacity_provider\<close> of the capacity manager.
\<close>

section \<open>Held capacity\<close>

definition held :: "string \<Rightarrow> store \<Rightarrow> nat" where
  "held source_id s = count_where (\<lambda>a. a_source_id a = source_id \<and> a_capacity_held a) (attempts s)"

definition other_step :: "store \<Rightarrow> store \<Rightarrow> bool" where
  "other_step s s' \<longleftrightarrow> store_step s s' \<and> length (attempts s') = length (attempts s)"

definition attempts_kept :: "store \<Rightarrow> store \<Rightarrow> bool" where
  "attempts_kept s s' \<longleftrightarrow> (\<exists>g. attempts s' = map g (attempts s) \<and>
     (\<forall>a \<in> set (attempts s). a_source_id (g a) = a_source_id a \<and>
        (a_capacity_held (g a) \<longrightarrow> a_capacity_held a)))"

lemma attempts_kept_same: "attempts s' = attempts s \<Longrightarrow> attempts_kept s s'"
  unfolding attempts_kept_def by (intro exI [of _ "\<lambda>a. a"]) simp

lemma attempts_kept_update:
  assumes "attempts s' = update_where p f (attempts s)"
    and "\<And>a. a \<in> set (attempts s) \<Longrightarrow> p a \<Longrightarrow> a_source_id (f a) = a_source_id a \<and>
      (a_capacity_held (f a) \<longrightarrow> a_capacity_held a)"
  shows "attempts_kept s s'"
  unfolding attempts_kept_def
  by (intro exI [of _ "\<lambda>a. if p a then f a else a"]) (use assms in \<open>auto simp: update_where_def\<close>)

lemma attempts_kept_finish:
  assumes wf: "wf_store s" and fin: "finish_tx now st1 st2 spec s = Inr (s', u)"
  shows "attempts_kept s s'"
proof -
  obtain name where name: "attempts s' =
      update_where (finishing_attempt_row spec) (finish_attempt now name spec) (attempts s)"
    by (rule attempts_after_finish [OF fin])
  show ?thesis
  proof (rule attempts_kept_update [OF name])
    fix a
    assume "a \<in> set (attempts s)" "finishing_attempt_row spec a"
    then have "a_capacity_held a"
      using wf by (auto simp: wf_store_def core_ok_def lease_ok_def attempt_ok_def holding_state_def
          active_attempt_def)
    then show "a_source_id (finish_attempt now name spec a) = a_source_id a \<and>
        (a_capacity_held (finish_attempt now name spec a) \<longrightarrow> a_capacity_held a)"
      by (simp add: finish_attempt_def)
  qed
qed

lemma attempts_kept_mark: "mark_attempt_running_tx st sid aid version s = Inr (s', u) \<Longrightarrow> attempts_kept s s'"
  by (erule mark_attempt_running_tx_Inr)
    (auto simp: append_event_tx_parts mark_row_def intro: attempts_kept_same attempts_kept_update)

lemma other_step_kept: "store_step s s' \<Longrightarrow> wf_store s \<longrightarrow> length (attempts s') = length (attempts s) \<longrightarrow> attempts_kept s s'"
proof (erule store_step_committed, goal_cases)
  case (3 now st1 st2 spec x)
  then show ?case by (auto simp: attempts_after_claim)
next
  case (4 st sid aid version x)
  then show ?case by (blast intro: attempts_kept_mark)
next
  case (6 now st1 st2 spec x)
  then show ?case by (blast intro: attempts_kept_finish)
qed (auto simp: append_event_tx_parts intro!: attempts_kept_same
    elim!: accept_tx_Inr set_blocker_tx_Inr finish_queued_tx_Inr cancel_tx_Inr patch_scheduling_tx_Inr
      reject_one_tx_Inr)

lemma held_kept: "attempts_kept s s' \<Longrightarrow> held i s' \<le> held i s"
proof -
  assume "attempts_kept s s'"
  then obtain g where g: "attempts s' = map g (attempts s)"
    "\<forall>a \<in> set (attempts s). a_source_id (g a) = a_source_id a \<and> (a_capacity_held (g a) \<longrightarrow> a_capacity_held a)"
    by (auto simp: attempts_kept_def)
  have "count_where p (map g as) = count_where (\<lambda>a. p (g a)) as" for p as
    by (induction as) (simp_all add: table_simps)
  then show ?thesis
    unfolding held_def g(1) using g(2) by (auto intro: count_where_mono)
qed

lemma other_steps_held: "other_step\<^sup>*\<^sup>* s s' \<Longrightarrow> wf_store s \<Longrightarrow> wf_store s' \<and> held i s' \<le> held i s"
proof (induction rule: rtranclp_induct)
  case (step s1 s2)
  then have wf: "wf_store s1" and step1: "store_step s1 s2" "length (attempts s2) = length (attempts s1)"
    by (simp_all add: other_step_def)
  have "held i s2 \<le> held i s1"
    using other_step_kept [OF step1(1)] wf step1(2) by (blast intro: held_kept)
  with step wf_step [OF step1(1) wf] show ?case by simp
qed simp

lemma other_stepI:
  "store_step s s' \<Longrightarrow> attempts s' = attempts s \<Longrightarrow> other_step s s'"
  by (simp add: other_step_def)

section \<open>Selecting a source\<close>

text \<open>What the two loops are about: the answer for a source id, and the dispatch it leads to.\<close>

definition source_answer :: "time \<Rightarrow> config \<Rightarrow> observations \<Rightarrow> store \<Rightarrow> string \<Rightarrow> u32 option" where
  "source_answer now config obs s i =
     Option.bind (config_source config i) (\<lambda>source.
     case active_for_source i s of Inl _ \<Rightarrow> None | Inr active \<Rightarrow> available now obs source active)"

definition admits :: "time \<Rightarrow> config \<Rightarrow> observations \<Rightarrow> store \<Rightarrow> string \<Rightarrow> bool" where
  "admits now config obs s i \<longleftrightarrow> (\<exists>n. source_answer now config obs s i = Some n \<and> 0 < n)"

definition dispatch_to :: "route_config \<Rightarrow> string option \<Rightarrow> string \<Rightarrow> dispatch \<Rightarrow> bool" where
  "dispatch_to route model i d \<longleftrightarrow> dp_route_id d = ro_id route \<and> dp_adapter d = ro_adapter route \<and>
     dp_source_id d = i \<and> dp_model d = model \<and> dp_target_id d = ro_target_id route"

lemma config_source_id: "config_source config i = Some source \<Longrightarrow> so_id source = i"
  by (auto simp: config_source_def find_Some_iff)

lemma try_sources_spec:
  "try_sources now config obs s route model ids unknown = Inr (found, unknown') \<Longrightarrow>
     (case found of
        Some d \<Rightarrow> \<exists>i \<in> set ids. admits now config obs s i \<and> dispatch_to route model i d
      | None \<Rightarrow> (\<forall>i \<in> set ids. \<not> admits now config obs s i) \<and>
          unknown' = (unknown \<or> (\<exists>i \<in> set ids. source_answer now config obs s i = None)))"
proof (induction ids arbitrary: unknown)
  case (Cons i ids)
  show ?case
  proof (cases "config_source config i")
    case None
    then have "\<not> admits now config obs s i" "source_answer now config obs s i = None"
      by (simp_all add: admits_def source_answer_def)
    then show ?thesis
      using Cons.IH [of True] Cons.prems None by (auto split: option.splits)
  next
    case (Some source)
    then obtain active where active: "active_for_source i s = Inr active"
      using Cons.prems by (auto simp: result_simps)
    then have answer: "source_answer now config obs s i = available now obs source active"
      using Some by (simp add: source_answer_def)
    show ?thesis
    proof (cases "available now obs source active")
      case None
      then show ?thesis
        using Cons.IH [of True] Cons.prems Some active answer
        by (auto simp: admits_def split: option.splits)
    next
      case (Some n)
      then show ?thesis
        using Cons.IH [of unknown] Cons.prems \<open>config_source config i = Some source\<close> active answer
        by (auto simp: admits_def dispatch_to_def config_source_id split: option.splits if_splits)
    qed
  qed
qed simp

lemma try_routes_spec:
  "try_routes now config obs s requested routes unknown = Inr (found, unknown') \<Longrightarrow>
     (case found of
        Some d \<Rightarrow> \<exists>route \<in> set routes. \<exists>i \<in> set (ro_source_ids route). admits now config obs s i \<and>
          dispatch_to route (route_model requested route) i d
      | None \<Rightarrow> (\<forall>route \<in> set routes. \<forall>i \<in> set (ro_source_ids route). \<not> admits now config obs s i) \<and>
          unknown' = (unknown \<or> (\<exists>route \<in> set routes. \<exists>i \<in> set (ro_source_ids route).
            source_answer now config obs s i = None)))"
proof (induction routes arbitrary: unknown)
  case (Cons route routes)
  obtain found1 unknown1 where one:
    "try_sources now config obs s route (route_model requested route) (ro_source_ids route) unknown
       = Inr (found1, unknown1)"
    using Cons.prems by (auto simp: result_simps)
  note spec = try_sources_spec [OF one]
  show ?case
  proof (cases found1)
    case None
    then have "try_routes now config obs s requested routes unknown1 = Inr (found, unknown')"
      using Cons.prems one by simp
    from Cons.IH [OF this] spec None show ?thesis
      by (auto split: option.splits)
  next
    case (Some d)
    then show ?thesis
      using Cons.prems one spec by auto
  qed
qed simp

lemma select_ready:
  assumes "select_dispatch now config obs s q = Inr (Ready d)"
  obtains route i where "route \<in> set (q_routes q)" "ro_target_id route = ''local''"
    "i \<in> set (ro_source_ids route)" "admits now config obs s i"
    "dispatch_to route (route_model (Option.bind (sc_agent (q_request q)) ag_model) route) i d"
proof -
  obtain unknown where "try_routes now config obs s (Option.bind (sc_agent (q_request q)) ag_model)
      (filter (\<lambda>route. ro_target_id route = ''local'') (q_routes q)) False = Inr (Some d, unknown)"
    using assms by (auto simp: select_dispatch_def Let_def result_simps split: option.splits)
  from try_routes_spec [OF this] show ?thesis
    using that by auto
qed

text \<open>
  C28: what the scheduler decides for a queued Submission: it is dispatched only along one of
  its own local routes, to a source of that route that admits another attempt, with the
  requested model before the route's; and it is blocked only when no source of any local route
  admits one - with the reason \<open>route_unsatisfied\<close> if it has no local route at all,
  \<open>capacity_unknown\<close> if some source could not be judged, \<open>capacity_unavailable\<close> otherwise.
\<close>

theorem dispatch_decision_correct:
  assumes "select_dispatch now config obs s q = Inr decision"
  shows "case decision of
      Ready d \<Rightarrow> (\<exists>route \<in> set (q_routes q). ro_target_id route = ''local'' \<and>
        (\<exists>i \<in> set (ro_source_ids route). admits now config obs s i \<and>
          dispatch_to route (route_model (Option.bind (sc_agent (q_request q)) ag_model) route) i d))
    | Blocked code \<Rightarrow>
        (\<forall>route \<in> set (q_routes q). ro_target_id route = ''local'' \<longrightarrow>
          (\<forall>i \<in> set (ro_source_ids route). \<not> admits now config obs s i)) \<and>
        code = (if \<forall>route \<in> set (q_routes q). ro_target_id route \<noteq> ''local'' then ''route_unsatisfied''
          else if \<exists>route \<in> set (q_routes q). ro_target_id route = ''local'' \<and>
            (\<exists>i \<in> set (ro_source_ids route). source_answer now config obs s i = None)
          then ''capacity_unknown'' else ''capacity_unavailable'')"
proof -
  let ?routes = "filter (\<lambda>route. ro_target_id route = ''local'') (q_routes q)"
  obtain found unknown where tried: "try_routes now config obs s
      (Option.bind (sc_agent (q_request q)) ag_model) ?routes False = Inr (found, unknown)"
    and decision: "decision = (case found of Some d \<Rightarrow> Ready d
      | None \<Rightarrow> Blocked (if ?routes = [] then ''route_unsatisfied''
          else if unknown then ''capacity_unknown'' else ''capacity_unavailable''))"
    using assms by (auto simp: select_dispatch_def Let_def result_simps)
  from try_routes_spec [OF tried] show ?thesis
  proof (cases found)
    case None
    then show ?thesis
      using try_routes_spec [OF tried] unfolding decision
      by (auto simp: filter_empty_conv)
  next
    case (Some d)
    then show ?thesis
      using try_routes_spec [OF tried] unfolding decision by auto
  qed
qed

definition demo_observations :: observations where
  "demo_observations = initialize 0 0 [demo_static_source] Map.empty"

definition demo_item :: queued_submission where
  "demo_item = \<lparr>q_submission_id = ''sub_1'', q_request = demo_request, q_priority = 50,
     q_created_at = 0, q_not_before = None, q_start_deadline = None, q_workspace_key = Some ''/w'',
     q_workspace_access = Some ''writable'', q_profile = demo_profile, q_policy = demo_policy,
     q_routes = [demo_route]\<rparr>"

lemma dispatch_decision_correct_witness:
  "(\<exists>d. select_dispatch 5 demo_config demo_observations demo_queued demo_item = Inr (Ready d)) \<and>
   admits 5 demo_config demo_observations demo_queued ''src'' \<and>
   select_dispatch 5 demo_config Map.empty demo_queued demo_item = Inr (Blocked ''capacity_unknown'') \<and>
   select_dispatch 5 demo_config demo_observations demo_running demo_item = Inr (Blocked ''capacity_unavailable'')"
proof (intro conjI)
  obtain d where ready: "select_dispatch 5 demo_config demo_observations demo_queued demo_item = Inr (Ready d)"
  proof -
    have "case select_dispatch 5 demo_config demo_observations demo_queued demo_item of
        Inr (Ready d) \<Rightarrow> True | _ \<Rightarrow> False"
      by code_simp
    then show thesis
      using that by (auto split: sum.splits dispatch_decision.splits)
  qed
  then show "\<exists>d. select_dispatch 5 demo_config demo_observations demo_queued demo_item = Inr (Ready d)" ..
  have "q_routes demo_item = [demo_route]" "ro_source_ids demo_route = [''src'']"
    by (simp_all add: demo_item_def demo_route_def)
  then show "admits 5 demo_config demo_observations demo_queued ''src''"
    using dispatch_decision_correct [OF ready] by simp
qed code_simp+

section \<open>The capacity bound\<close>

text \<open>How many attempts the configuration lets a source hold at once.\<close>

definition source_room :: "config \<Rightarrow> string \<Rightarrow> nat" where
  "source_room config i = (case config_source config i of
       None \<Rightarrow> 0
     | Some source \<Rightarrow> unat (so_concurrency_limit source) - unat (so_safety_reserve source))"

text \<open>The other tasks, whenever they run during a turn, make no claim.\<close>

definition considerate :: "turn_env \<Rightarrow> bool" where
  "considerate env \<longleftrightarrow> (\<forall>s. other_step\<^sup>*\<^sup>* s (tn_before env s) \<and> other_step\<^sup>*\<^sup>* s (tn_between env s) \<and>
     other_step\<^sup>*\<^sup>* s (tn_after env s))"

definition bounded_from :: "config \<Rightarrow> store \<Rightarrow> store \<Rightarrow> bool" where
  "bounded_from config s s' \<longleftrightarrow> wf_store s' \<and> (\<forall>i. held i s' \<le> max (held i s) (source_room config i))"

lemma bounded_refl: "wf_store s \<Longrightarrow> bounded_from config s s"
  by (simp add: bounded_from_def)

lemma bounded_trans:
  assumes "bounded_from config s s1" and "bounded_from config s1 s2"
  shows "bounded_from config s s2"
proof -
  have "held i s2 \<le> max (held i s) (source_room config i)" for i
  proof -
    have "held i s1 \<le> max (held i s) (source_room config i)"
      "held i s2 \<le> max (held i s1) (source_room config i)"
      using assms by (simp_all add: bounded_from_def)
    then show ?thesis by linarith
  qed
  then show ?thesis using assms(2) by (simp add: bounded_from_def)
qed

lemma bounded_others: "other_step\<^sup>*\<^sup>* s s' \<Longrightarrow> wf_store s \<Longrightarrow> bounded_from config s s'"
  using other_steps_held [of s s'] by (auto simp: bounded_from_def le_max_iff_disj)

lemma bounded_other: "other_step s s' \<Longrightarrow> wf_store s \<Longrightarrow> bounded_from config s s'"
  by (blast intro: bounded_others)

lemma set_blocker_other: "set_blocker now st sid code detail s = (s', res) \<Longrightarrow> other_step s s'"
  by (rule other_stepI, erule store_step.blocking, unfold set_blocker_def, erule transact_cases)
    (auto elim!: set_blocker_tx_Inr simp: append_event_tx_parts)

lemma expire_other: "expire now st sid s = (s', res) \<Longrightarrow> other_step s s'"
  by (rule other_stepI, erule store_step.expiring, unfold expire_def, erule transact_cases)
    (auto elim!: finish_queued_tx_Inr simp: append_event_tx_parts)

lemma block_turn_bounded:
  "block_turn env sid code s = (s', res) \<Longrightarrow> wf_store s \<Longrightarrow> bounded_from config s s'"
  by (auto simp: block_turn_def split: prod.splits sum.splits dest!: set_blocker_other intro: bounded_other)

lemma active_for_source_held:
  assumes "active_for_source i s = Inr active"
  shows "unat active = held i s"
proof -
  have "try_from_int (int (held i s)) = Some active"
    using assms by (simp add: active_for_source_def held_def result_simps)
  then have "active = word_of_int (int (held i s))" "int (held i s) < 2 ^ LENGTH(32)"
    by (simp_all only: try_from_int_Some)
  then have "uint active = int (held i s)"
    using uint_word_of_int_in_range [of "int (held i s)", where 'a = 32] by (simp only: of_nat_0_le_iff)
  then show ?thesis by (simp add: unat_eq_nat_uint)
qed

lemma admits_room:
  assumes "admits now config obs s i"
  shows "held i s + 1 \<le> source_room config i"
proof -
  from assms obtain n where n: "source_answer now config obs s i = Some n" "0 < n"
    by (auto simp: admits_def)
  then obtain source where source: "config_source config i = Some source"
    and answer: "(case active_for_source i s of Inl _ \<Rightarrow> None
      | Inr active \<Rightarrow> available now obs source active) = Some n"
    by (auto simp: source_answer_def bind_eq_Some_conv)
  from answer obtain active where active: "active_for_source i s = Inr active"
    and available: "available now obs source active = Some n"
    by (cases "active_for_source i s") auto
  show ?thesis
    using manager.one_more [OF available n(2)] active_for_source_held [OF active] source
    by (simp add: source_room_def)
qed

lemma ready_room:
  assumes "select_dispatch now config obs s q = Inr (Ready d)"
  shows "held (dp_source_id d) s + 1 \<le> source_room config (dp_source_id d)"
proof -
  obtain unknown where
    tried: "try_routes now config obs s (Option.bind (sc_agent (q_request q)) ag_model)
       (filter (\<lambda>route. ro_target_id route = ''local'') (q_routes q)) False = Inr (Some d, unknown)"
    using assms by (auto simp: select_dispatch_def Let_def result_simps split: option.splits)
  have "admits now config obs s (dp_source_id d)"
    using try_routes_spec [OF tried] by (auto simp: dispatch_to_def)
  then show ?thesis by (rule admits_room)
qed

lemma held_claim:
  assumes wf: "wf_store s" and claim: "claim now st1 st2 spec s = (s', res)"
  shows "wf_store s' \<and> held i s' \<le> held i s + (if i = cl_source_id spec then 1 else 0)"
proof -
  have "wf_store s'"
    using wf_step [OF store_step.claiming [OF claim] wf] .
  moreover have "attempts s' = attempts s \<or> attempts s' = attempts s @ [new_attempt now 1 spec]"
    using claim_result [OF wf claim] by (cases res) auto
  ultimately show ?thesis
    by (auto simp: held_def table_simps new_attempt_def)
qed

lemma start_turn_bounded:
  assumes turn: "start_turn env q d (s, cancels) = ((s', cancels'), res)"
    and quiet: "considerate env" and wf: "wf_store s"
    and room: "held (dp_source_id d) s + 1 \<le> source_room config (dp_source_id d)"
  shows "bounded_from config s s'"
proof -
  let ?spec = "claim_of q d (''att_'' @ tn_ulid env)"
  obtain s1 r where claim: "claim (tn_now env) (tn_stamp1 env) (tn_stamp2 env) ?spec s = (s1, r)"
    by fastforce
  have "held i s1 \<le> max (held i s) (source_room config i)" for i
    using held_claim [OF wf claim, of i] room by (auto simp: claim_of_def split: if_splits)
  then have one: "bounded_from config s s1"
    using held_claim [OF wf claim] by (simp add: bounded_from_def)
  then have wf1: "wf_store s1" by (simp add: bounded_from_def)
  have after: "bounded_from config s1 (tn_after env s1)"
    using quiet wf1 by (simp add: considerate_def bounded_others)
  show ?thesis
  proof (cases r)
    case (Inl e)
    show ?thesis
    proof (cases "e = WorkspaceBusy")
      case True
      then have "bounded_from config s1 s'"
        using turn claim Inl wf1
        by (auto simp: start_turn_def Let_def split: prod.splits intro: block_turn_bounded)
      then show ?thesis by (rule bounded_trans [OF one])
    next
      case False
      then have "s' = s1"
        using turn claim Inl by (cases e) (auto simp: start_turn_def Let_def)
      then show ?thesis using one by simp
    qed
  next
    case (Inr att)
    then have "s' = tn_after env s1"
      using turn claim by (auto simp: start_turn_def Let_def)
    then show ?thesis using bounded_trans [OF one after] by simp
  qed
qed

lemma scheduler_turn_bounded:
  assumes turn: "scheduler_turn config obs env q (s, cancels) = ((s', cancels'), res)"
    and quiet: "considerate env" and wf: "wf_store s"
  shows "bounded_from config s s'"
proof -
  let ?s0 = "tn_before env s"
  have zero: "bounded_from config s ?s0"
    using quiet wf by (simp add: considerate_def bounded_others)
  then have wf0: "wf_store ?s0" by (simp add: bounded_from_def)
  have between: "other_step\<^sup>*\<^sup>* ?s0 (tn_between env ?s0)"
    using quiet by (simp add: considerate_def)
  note one = bounded_others [OF between wf0, of config]
  then have wf1: "wf_store (tn_between env ?s0)" by (simp add: bounded_from_def)
  have "bounded_from config ?s0 s'"
  proof (cases "case q_start_deadline q of None \<Rightarrow> False | Some d \<Rightarrow> d \<le> tn_deadline_now env")
    case True
    then show ?thesis
      using turn wf0
      by (auto simp: scheduler_turn_def Let_def split: prod.splits sum.splits
          dest!: expire_other intro: bounded_other)
  next
    case no_deadline: False
    show ?thesis
    proof (cases "case q_not_before q of None \<Rightarrow> False | Some b \<Rightarrow> tn_not_before_now env < b")
      case True
      then show ?thesis
        using turn wf0 no_deadline
        by (auto simp: scheduler_turn_def Let_def split: prod.splits intro: block_turn_bounded)
    next
      case False
      show ?thesis
      proof (cases "select_dispatch (tn_capacity_now env) config obs ?s0 q")
        case (Inl e)
        then show ?thesis
          using turn no_deadline False bounded_refl [OF wf0] by (simp add: scheduler_turn_def Let_def)
      next
        case (Inr decision)
        show ?thesis
        proof (cases decision)
          case (Blocked code)
          then have "bounded_from config (tn_between env ?s0) s'"
            using turn no_deadline False Inr wf1
            by (auto simp: scheduler_turn_def Let_def split: prod.splits intro: block_turn_bounded)
          then show ?thesis by (rule bounded_trans [OF one])
        next
          case (Ready d)
          have start: "start_turn env q d (tn_between env ?s0, cancels) = ((s', cancels'), res)"
            using turn no_deadline False Inr Ready by (simp add: scheduler_turn_def Let_def)
          have "held (dp_source_id d) (tn_between env ?s0) + 1 \<le> source_room config (dp_source_id d)"
            using ready_room Inr Ready other_steps_held [OF between wf0, of "dp_source_id d"]
            by fastforce
          then show ?thesis
            using bounded_trans [OF one start_turn_bounded [OF start quiet wf1]] by blast
        qed
      qed
    qed
  qed
  then show ?thesis by (rule bounded_trans [OF zero])
qed

lemma scheduler_pass_bounded:
  "scheduler_pass config obs env items (s, cancels) = ((s', cancels'), res) \<Longrightarrow>
     \<forall>i. considerate (env i) \<Longrightarrow> wf_store s \<Longrightarrow> bounded_from config s s'"
proof (induction items arbitrary: s cancels res)
  case (Cons q items)
  obtain s1 c1 r where turn: "scheduler_turn config obs (env (q_submission_id q)) q (s, cancels) = ((s1, c1), r)"
    by (metis prod.collapse)
  have one: "bounded_from config s s1"
    using scheduler_turn_bounded [OF turn] Cons.prems by blast
  show ?case
  proof (cases r)
    case (Inl e)
    then show ?thesis using one turn Cons.prems(1) by simp
  next
    case (Inr outcome)
    obtain r' where "scheduler_pass config obs env items (s1, c1) = ((s', cancels'), r')"
      using Cons.prems(1) turn Inr by (auto split: prod.splits sum.splits)
    from Cons.IH [OF this Cons.prems(2)] one show ?thesis
      using bounded_trans [OF one] by (simp add: bounded_from_def)
  qed
qed (simp add: bounded_refl)

lemma record_capacity_other: "other_step s (record_capacity now i health kind n observed s)"
  by (rule other_stepI, rule store_step.observing, rule refl) (simp add: record_capacity_def Let_def)

lemma refresh_source_other: "refresh_source from_slice env source (obs, s) = (obs', s') \<Longrightarrow> other_step\<^sup>*\<^sup>* s s'"
  by (auto simp: refresh_source_def Let_def record_capacity_other r_into_rtranclp
      split: capacity_monitor_config.splits if_splits sum.splits)

lemma refresh_due_others:
  "refresh_due from_slice env sources (obs, s) = (obs', s') \<Longrightarrow> other_step\<^sup>*\<^sup>* s s'"
proof (induction sources arbitrary: obs s)
  case (Cons source sources)
  obtain obs1 s1 where one: "refresh_source from_slice (env (so_id source)) source (obs, s) = (obs1, s1)"
    by fastforce
  then have "other_step\<^sup>*\<^sup>* s1 s'"
    using Cons by simp
  then show ?case by (rule rtranclp_trans [OF refresh_source_other [OF one]])
qed simp

text \<open>
  An iteration never brings a source over its configured limit less its reserve, however the
  queue, the probes, the clocks and the other tasks behave (they may finish, cancel, accept or log
  anything while it decides, but not claim).
\<close>

lemma scheduler_iteration_bounded:
  assumes "scheduler_iteration from_slice probes config now env (obs, s, cancels) = ((obs', s', cancels'), res)"
    and "\<forall>i. considerate (env i)" and "wf_store s"
  shows "bounded_from config s s'"
proof -
  obtain obs1 s1 where refresh: "refresh_due from_slice probes (cfg_sources config) (obs, s) = (obs1, s1)"
    by fastforce
  have one: "bounded_from config s s1"
    using refresh_due_others [OF refresh] assms(3) by (rule bounded_others)
  then have wf1: "wf_store s1" by (simp add: bounded_from_def)
  have "bounded_from config s1 s'"
  proof (cases "queued s1")
    case (Inl e)
    then show ?thesis
      using assms(1) refresh bounded_refl [OF wf1] by (simp add: scheduler_iteration_def)
  next
    case (Inr items)
    then obtain r where "scheduler_pass config obs1 env (dispatch_order now items) (s1, cancels) = ((s', cancels'), r)"
      using assms(1) refresh by (auto simp: scheduler_iteration_def split: prod.splits)
    then show ?thesis
      using scheduler_pass_bounded assms(2) wf1 by blast
  qed
  with one show ?thesis by (rule bounded_trans)
qed

definition demo_turn :: "string \<Rightarrow> turn_env" where
  "demo_turn i = \<lparr>tn_deadline_now = 5, tn_not_before_now = 5, tn_capacity_now = 5,
     tn_before = (\<lambda>s. s), tn_between = (\<lambda>s. s), tn_after = (\<lambda>s. s), tn_ulid = i, tn_now = 5,
     tn_stamp1 = (i @ ''a'', 5), tn_stamp2 = (i @ ''b'', 5)\<rparr>"

end
