(* ===== verification/Files.thy ===== *)
theory Files
  imports Config Runtime
begin

text \<open>
  The file system the set-up code works on, and computations that change it and may fail.

  \<^item> \<open>exec\<close> is a computation that returns the next state with \<open>Ok\<close> or the error. \<open>growing\<close> and its
    collection \<open>growing_intros\<close> say of a sequence of them that it replaces no file, link or directory;
    what a path read before, it then still reads (\<open>reads_extends\<close>).
  \<^item> A file system maps a path to its node: a file with contents and mode, a directory, a socket, or a
    symbolic link to another path. Links are followed where the call follows them (\<open>metadata\<close>,
    \<open>try_exists\<close>, \<open>open\<close>) and not where it does not (\<open>symlink_metadata\<close>, \<open>rename\<close>,
    \<open>create_new\<close>). Paths are compared as text, and only the last component may be a link.
  \<^item> \<open>machine\<close> is the rest of the operating system: which calls fail, for any reason, the modes of new
    files and directories, and the locks other processes hold. A failing call changes nothing.
  \<^item> SQLite is library code: \<open>mc_sqlite\<close> says what opening and migrating a database makes of its files
    (\<open>database_suffixes\<close>: the database, its write-ahead log, the index of the log, the rollback journal)
    and whether it succeeds; it may have changed them when it fails. \<open>open_database\<close> applies it to these
    files and to no others. \<open>growing_but\<close> is \<open>growing\<close> up to a set of files that may be rewritten.
\<close>

section \<open>Computations\<close>

type_synonym ('s, 'e, 'a) exec = "'s \<Rightarrow> 's \<times> ('e + 'a)"

definition exec_return :: "'a \<Rightarrow> ('s, 'e, 'a) exec" where
  "exec_return x s = (s, Inr x)"

definition exec_lift :: "'e + 'a \<Rightarrow> ('s, 'e, 'a) exec" where
  "exec_lift r s = (s, r)"

definition exec_bind :: "('s, 'e, 'a) exec \<Rightarrow> ('a \<Rightarrow> ('s, 'e, 'b) exec) \<Rightarrow> ('s, 'e, 'b) exec" where
  "exec_bind m f s = (case m s of (s', Inl e) \<Rightarrow> (s', Inl e) | (s', Inr x) \<Rightarrow> f x s')"

lemma exec_bind_Inr [result_simps]:
  "exec_bind m f s = (s', Inr y) \<longleftrightarrow> (\<exists>t x. m s = (t, Inr x) \<and> f x t = (s', Inr y))"
  by (auto simp: exec_bind_def split: prod.splits sum.splits)

lemma exec_bind_after:
  "m s = (t, Inr x) \<Longrightarrow> exec_bind m f s = f x t"
  "m s = (t, Inl e) \<Longrightarrow> exec_bind m f s = (t, Inl e)"
  by (simp_all add: exec_bind_def)

lemma exec_lift_eq [result_simps]: "exec_lift r s = (s', r') \<longleftrightarrow> s' = s \<and> r = r'"
  by (auto simp: exec_lift_def)

lemma exec_return_eq [result_simps]: "exec_return x s = (s', r') \<longleftrightarrow> s' = s \<and> r' = Inr x"
  by (auto simp: exec_return_def)

section \<open>Nodes and calls\<close>

datatype node =
    FileNode string nat
  | DirNode nat
  | SocketNode nat
  | LinkNode string

type_synonym fs = "string \<Rightarrow> node option"

datatype io_op =
    TryExists string
  | CreateDirAll string
  | SetPermissions string nat
  | SymlinkMetadata string
  | OpenFile string
  | CopyFile string string
  | CreateNew string
  | WriteAll string
  | Rename string string
  | RemoveFile string
  | LockFile string
  | OpenDatabase string
  | BindSocket string

record machine =
  mc_fails :: "io_op \<Rightarrow> bool"
  mc_dir_mode :: nat
  mc_file_mode :: nat
  mc_socket_mode :: nat
  mc_locked :: "string \<Rightarrow> bool"
  mc_sha256 :: "string \<Rightarrow> string"
  mc_sqlite :: "(string \<Rightarrow> string option) \<Rightarrow> (string \<Rightarrow> string option) \<times> bool"

datatype setup_error =
    IoFailed io_op
  | InvalidConfig config_error
  | RuntimeFailed install_error
  | MissingAgentBinary string
  | AgentDigest string
  | AgentProcessDigest string
  | AgentProcessPairing string
  | AnotherDaemon string
  | NotASocket string
  | AlreadyExists string
  | NoParent string
  | Unresolved string
  | ConflictingOptions string
  | NotInPath string
  | UnknownAdapter string
  | HomeMissing
  | EncodingFailed
  | SmokeTestFailed string
  | CredentialMissing string
  | NotPrivate string
  | ConfigUnreadable string

text \<open>A call: it fails when the machine says so, or where it does not apply.\<close>

definition io_call ::
  "machine \<Rightarrow> io_op \<Rightarrow> (fs \<Rightarrow> (fs \<times> 'a) option) \<Rightarrow> (fs, setup_error, 'a) exec" where
  "io_call mc op act fs =
     (if mc_fails mc op then (fs, Inl (IoFailed op))
      else (case act fs of None \<Rightarrow> (fs, Inl (IoFailed op)) | Some (fs', x) \<Rightarrow> (fs', Inr x)))"

text \<open>Following links, at most forty.\<close>

fun follow_links :: "nat \<Rightarrow> fs \<Rightarrow> string \<Rightarrow> string option" where
  "follow_links 0 fs p = None"
| "follow_links (Suc n) fs p = (case fs p of Some (LinkNode q) \<Rightarrow> follow_links n fs q | _ \<Rightarrow> Some p)"

definition followed :: "fs \<Rightarrow> string \<Rightarrow> string option" where
  "followed fs p = follow_links 41 fs p"

definition try_exists :: "machine \<Rightarrow> string \<Rightarrow> (fs, setup_error, bool) exec" where
  "try_exists mc p = io_call mc (TryExists p) (\<lambda>fs.
     map_option (\<lambda>q. (fs, fs q \<noteq> None)) (followed fs p))"

definition create_dir_all :: "machine \<Rightarrow> string \<Rightarrow> (fs, setup_error, unit) exec" where
  "create_dir_all mc p = io_call mc (CreateDirAll p) (\<lambda>fs.
     if p = [] then Some (fs, ()) else Option.bind (followed fs p) (\<lambda>q. case fs q of
         None \<Rightarrow> Some (fs(q \<mapsto> DirNode (mc_dir_mode mc)), ())
       | Some (DirNode mode) \<Rightarrow> Some (fs, ())
       | _ \<Rightarrow> None))"

fun with_mode :: "nat \<Rightarrow> node \<Rightarrow> node" where
  "with_mode mode (FileNode contents m) = FileNode contents mode"
| "with_mode mode (DirNode m) = DirNode mode"
| "with_mode mode (SocketNode m) = SocketNode mode"
| "with_mode mode (LinkNode q) = LinkNode q"

definition set_permissions :: "machine \<Rightarrow> nat \<Rightarrow> string \<Rightarrow> (fs, setup_error, unit) exec" where
  "set_permissions mc mode p = io_call mc (SetPermissions p mode) (\<lambda>fs.
     Option.bind (followed fs p) (\<lambda>q.
     map_option (\<lambda>n. (fs(q \<mapsto> with_mode mode n), ())) (fs q)))"

definition symlink_metadata :: "machine \<Rightarrow> string \<Rightarrow> (fs, setup_error, node) exec" where
  "symlink_metadata mc p = io_call mc (SymlinkMetadata p) (\<lambda>fs. map_option (\<lambda>n. (fs, n)) (fs p))"

definition read_file :: "machine \<Rightarrow> string \<Rightarrow> (fs, setup_error, string) exec" where
  "read_file mc p = io_call mc (OpenFile p) (\<lambda>fs.
     Option.bind (followed fs p) (\<lambda>q. case fs q of
         Some (FileNode contents mode) \<Rightarrow> Some (fs, contents)
       | _ \<Rightarrow> None))"

text \<open>\<open>fs::copy\<close> copies the mode too.\<close>

definition copy_file :: "machine \<Rightarrow> string \<Rightarrow> string \<Rightarrow> (fs, setup_error, unit) exec" where
  "copy_file mc a b = io_call mc (CopyFile a b) (\<lambda>fs.
     Option.bind (followed fs a) (\<lambda>p. Option.bind (followed fs b) (\<lambda>q.
       case (fs p, fs q) of
         (Some (FileNode contents mode), None) \<Rightarrow> Some (fs(q \<mapsto> FileNode contents mode), ())
       | (Some (FileNode contents mode), Some (FileNode old m)) \<Rightarrow> Some (fs(q \<mapsto> FileNode contents mode), ())
       | _ \<Rightarrow> None)))"

definition create_new :: "machine \<Rightarrow> string \<Rightarrow> (fs, setup_error, unit) exec" where
  "create_new mc p = io_call mc (CreateNew p) (\<lambda>fs.
     if fs p = None then Some (fs(p \<mapsto> FileNode [] (mc_file_mode mc)), ()) else None)"

definition write_all :: "machine \<Rightarrow> string \<Rightarrow> string \<Rightarrow> (fs, setup_error, unit) exec" where
  "write_all mc p data = io_call mc (WriteAll p) (\<lambda>fs. case fs p of
       Some (FileNode contents mode) \<Rightarrow> Some (fs(p \<mapsto> FileNode (contents @ data) mode), ())
     | _ \<Rightarrow> None)"

definition rename :: "machine \<Rightarrow> string \<Rightarrow> string \<Rightarrow> (fs, setup_error, unit) exec" where
  "rename mc a b = io_call mc (Rename a b) (\<lambda>fs. case (fs a, fs b) of
       (None, _) \<Rightarrow> None
     | (Some n, Some (DirNode mode)) \<Rightarrow> None
     | (Some n, _) \<Rightarrow> Some ((fs(a := None))(b \<mapsto> n), ()))"

definition remove_file :: "machine \<Rightarrow> string \<Rightarrow> (fs, setup_error, unit) exec" where
  "remove_file mc p = io_call mc (RemoveFile p) (\<lambda>fs. case fs p of
       None \<Rightarrow> None
     | Some (DirNode mode) \<Rightarrow> None
     | Some n \<Rightarrow> Some (fs(p := None), ()))"

definition bind_listener :: "machine \<Rightarrow> string \<Rightarrow> (fs, setup_error, unit) exec" where
  "bind_listener mc p = io_call mc (BindSocket p) (\<lambda>fs.
     if fs p = None then Some (fs(p \<mapsto> SocketNode (mc_socket_mode mc)), ()) else None)"

definition open_or_create :: "machine \<Rightarrow> io_op \<Rightarrow> string \<Rightarrow> (fs, setup_error, unit) exec" where
  "open_or_create mc op p = io_call mc op (\<lambda>fs.
     Option.bind (followed fs p) (\<lambda>q. case fs q of
         None \<Rightarrow> Some (fs(q \<mapsto> FileNode [] (mc_file_mode mc)), ())
       | Some (FileNode contents mode) \<Rightarrow> Some (fs, ())
       | _ \<Rightarrow> None))"

definition database_suffixes :: "string list" where
  "database_suffixes = [[], ''-wal'', ''-shm'', ''-journal'']"

definition contents_at :: "fs \<Rightarrow> string \<Rightarrow> string option" where
  "contents_at fs p = (case fs p of Some (FileNode contents mode) \<Rightarrow> Some contents | _ \<Rightarrow> None)"

text \<open>A file gets other contents, is created or is removed; what is not a file stays.\<close>

definition put_file :: "machine \<Rightarrow> string \<Rightarrow> string option \<Rightarrow> fs \<Rightarrow> fs" where
  "put_file mc p contents fs =
     (case (fs p, contents) of
        (None, Some c) \<Rightarrow> fs(p \<mapsto> FileNode c (mc_file_mode mc))
      | (Some (FileNode old mode), Some c) \<Rightarrow> fs(p \<mapsto> FileNode c mode)
      | (Some (FileNode old mode), None) \<Rightarrow> fs(p := None)
      | _ \<Rightarrow> fs)"

text \<open>
  \<open>Store::open\<close>: the file is opened or created, switched to the write-ahead log and migrated. The path
  must lead to a file or to nothing.
\<close>

definition open_database :: "machine \<Rightarrow> string \<Rightarrow> (fs, setup_error, unit) exec" where
  "open_database mc p fs =
     (if mc_fails mc (OpenDatabase p) then (fs, Inl (IoFailed (OpenDatabase p)))
      else (case followed fs p of
        None \<Rightarrow> (fs, Inl (IoFailed (OpenDatabase p)))
      | Some q \<Rightarrow>
          if fs q \<noteq> None \<and> contents_at fs q = None then (fs, Inl (IoFailed (OpenDatabase p)))
          else (case mc_sqlite mc (\<lambda>suffix. contents_at fs (q @ suffix)) of
            (after, ok) \<Rightarrow>
              (fold (\<lambda>suffix. put_file mc (q @ suffix) (after suffix)) database_suffixes fs,
               if ok then Inr () else Inl (IoFailed (OpenDatabase p))))))"

fun exec_for :: "('a \<Rightarrow> ('s, 'e, unit) exec) \<Rightarrow> 'a list \<Rightarrow> ('s, 'e, unit) exec" where
  "exec_for f [] = exec_return ()"
| "exec_for f (x # xs) = exec_bind (f x) (\<lambda>_. exec_for f xs)"

section \<open>Calls that only add\<close>

fun is_socket :: "node \<Rightarrow> bool" where
  "is_socket (SocketNode mode) \<longleftrightarrow> True"
| "is_socket _ \<longleftrightarrow> False"

text \<open>Every node that is not a socket is still there, with at most another mode; no link is new.\<close>

definition extends :: "fs \<Rightarrow> fs \<Rightarrow> bool" where
  "extends fs fs' \<longleftrightarrow> (\<forall>p n. fs p = Some n \<longrightarrow> is_socket n \<or> (\<exists>mode. fs' p = Some (with_mode mode n))) \<and>
     (\<forall>p q. fs' p = Some (LinkNode q) \<longrightarrow> fs p = Some (LinkNode q))"

definition growing :: "(fs, 'e, 'a) exec \<Rightarrow> bool" where
  "growing m \<longleftrightarrow> (\<forall>fs. extends fs (fst (m fs)))"

named_theorems growing_intros

lemma with_mode_twice [simp]: "with_mode a (with_mode b n) = with_mode a n"
  by (cases n) simp_all

lemma is_socket_with_mode [simp]: "is_socket (with_mode mode n) = is_socket n"
  by (cases n) simp_all

lemma with_own_mode: "\<exists>mode. n = with_mode mode n"
proof (cases n)
  case (FileNode c m)
  then show ?thesis by (intro exI [of _ m]) simp
next
  case (DirNode m)
  then show ?thesis by (intro exI [of _ m]) simp
next
  case (SocketNode m)
  then show ?thesis by (intro exI [of _ m]) simp
qed simp

lemma with_mode_link [simp]: "with_mode mode n = LinkNode q \<longleftrightarrow> n = LinkNode q"
  by (cases n) simp_all

lemma extendsD:
  assumes "extends fs fs'" and "fs p = Some n" and "\<not> is_socket n"
  shows "\<exists>mode. fs' p = Some (with_mode mode n)"
  using assms unfolding extends_def by blast

lemma extends_refl [simp]: "extends fs fs"
  using with_own_mode by (auto simp: extends_def)

lemma extends_trans: "extends fs t \<Longrightarrow> extends t u \<Longrightarrow> extends fs u"
  unfolding extends_def by (metis is_socket_with_mode with_mode_twice)

lemma extends_new: "fs p = None \<Longrightarrow> (\<And>q. n \<noteq> LinkNode q) \<Longrightarrow> extends fs (fs(p \<mapsto> n))"
  using with_own_mode by (auto simp: extends_def)

lemma extends_mode: "fs p = Some n \<Longrightarrow> extends fs (fs(p \<mapsto> with_mode mode n))"
  using with_own_mode by (auto simp: extends_def)

lemma extends_socket: "fs p = Some (SocketNode m) \<Longrightarrow> extends fs (fs(p := None))"
  using with_own_mode by (auto simp: extends_def)

text \<open>The same links are followed.\<close>

lemma extends_links: "extends fs fs' \<Longrightarrow> fs' p = Some (LinkNode q) \<longleftrightarrow> fs p = Some (LinkNode q)"
  unfolding extends_def by fastforce

lemma follow_same_links:
  "(\<And>p q. fs' p = Some (LinkNode q) \<longleftrightarrow> fs p = Some (LinkNode q)) \<Longrightarrow> follow_links n fs' p = follow_links n fs p"
proof (induction n arbitrary: p)
  case (Suc n)
  show ?case
  proof (cases "\<exists>q. fs p = Some (LinkNode q)")
    case True
    then obtain q where "fs p = Some (LinkNode q)" "fs' p = Some (LinkNode q)" using Suc.prems by blast
    then show ?thesis using Suc.IH [OF Suc.prems] by simp
  next
    case False
    then have "\<nexists>q. fs' p = Some (LinkNode q)" using Suc.prems by blast
    with False show ?thesis by (auto split: option.split node.split)
  qed
qed simp

lemma extends_followed: "extends fs fs' \<Longrightarrow> followed fs' p = followed fs p"
  unfolding followed_def by (rule follow_same_links) (rule extends_links)

lemma growingD: "growing m \<Longrightarrow> m fs = (fs', r) \<Longrightarrow> extends fs fs'"
  by (metis fst_conv growing_def)

lemma growing_return [growing_intros]: "growing (exec_return x)"
  by (simp add: growing_def exec_return_def)

lemma growing_lift [growing_intros]: "growing (exec_lift r)"
  by (simp add: growing_def exec_lift_def)

lemma growing_bind [growing_intros]:
  "growing m \<Longrightarrow> (\<And>x. growing (f x)) \<Longrightarrow> growing (exec_bind m f)"
  unfolding growing_def exec_bind_def
  by (intro allI, split prod.split, intro allI impI, split sum.split) (metis extends_trans fst_conv)

lemma growing_if [growing_intros]: "(b \<Longrightarrow> growing m) \<Longrightarrow> (\<not> b \<Longrightarrow> growing n) \<Longrightarrow> growing (if b then m else n)"
  by simp

lemma growing_for [growing_intros]: "(\<And>x. growing (f x)) \<Longrightarrow> growing (exec_for f xs)"
  by (induction xs) (auto intro: growing_intros)

lemma io_call_Inr: "io_call mc op act fs = (fs', Inr x) \<longleftrightarrow> \<not> mc_fails mc op \<and> act fs = Some (fs', x)"
  by (auto simp: io_call_def split: option.splits)

lemma growing_io_call:
  assumes "\<And>fs fs' x. act fs = Some (fs', x) \<Longrightarrow> extends fs fs'"
  shows "growing (io_call mc op act)"
  unfolding growing_def io_call_def using assms by (simp split: option.splits)

lemma growing_try_exists [growing_intros]: "growing (try_exists mc p)"
  unfolding try_exists_def by (rule growing_io_call) auto

lemma growing_symlink_metadata [growing_intros]: "growing (symlink_metadata mc p)"
  unfolding symlink_metadata_def by (rule growing_io_call) auto

lemma growing_set_permissions [growing_intros]: "growing (set_permissions mc mode p)"
  unfolding set_permissions_def
  by (rule growing_io_call) (auto simp: bind_eq_Some_conv intro: extends_mode)

lemma growing_create_new [growing_intros]: "growing (create_new mc p)"
  unfolding create_new_def
  by (rule growing_io_call) (auto split: if_split_asm intro: extends_new)

lemma growing_bind_listener [growing_intros]: "growing (bind_listener mc p)"
  unfolding bind_listener_def
  by (rule growing_io_call) (auto split: if_split_asm intro: extends_new)

text \<open>The calls that look at the node behind the links.\<close>

lemma growing_followed:
  assumes "\<And>fs q. (case act fs q of None \<Rightarrow> True | Some (fs', x) \<Rightarrow> extends fs fs')"
  shows "growing (io_call mc op (\<lambda>fs. Option.bind (followed fs p) (act fs)))"
proof (rule growing_io_call)
  fix fs fs' x
  assume "Option.bind (followed fs p) (act fs) = Some (fs', x)"
  then obtain q where "act fs q = Some (fs', x)" by (auto simp: bind_eq_Some_conv)
  then show "extends fs fs'" using assms [of fs q] by simp
qed

lemma growing_read_file [growing_intros]: "growing (read_file mc p)"
  unfolding read_file_def by (rule growing_followed) (simp split: option.split node.split)

lemma growing_open_or_create [growing_intros]: "growing (open_or_create mc op p)"
  unfolding open_or_create_def
  by (rule growing_followed) (simp add: extends_new split: option.split node.split)

lemma growing_create_dir_all [growing_intros]: "growing (create_dir_all mc p)"
proof (cases "p = []")
  case True
  then show ?thesis unfolding create_dir_all_def by (intro growing_io_call) simp
next
  case False
  show ?thesis
    unfolding create_dir_all_def using False
    by (simp only: if_False) (rule growing_followed, simp add: extends_new split: option.split node.split)
qed

section \<open>Calls that rewrite some files\<close>

text \<open>Every node but the sockets and the files of \<open>D\<close> is still there, with at most another mode.\<close>

definition extends_but :: "string set \<Rightarrow> fs \<Rightarrow> fs \<Rightarrow> bool" where
  "extends_but D fs fs' \<longleftrightarrow> (\<forall>p n. fs p = Some n \<longrightarrow> is_socket n \<or> p \<in> D \<and> contents_at fs p \<noteq> None \<or>
     (\<exists>mode. fs' p = Some (with_mode mode n)))"

lemma contents_at_mode: "fs p = Some n \<Longrightarrow> fs' p = Some (with_mode mode n) \<Longrightarrow> contents_at fs' p = contents_at fs p"
  by (cases n) (simp_all add: contents_at_def)

lemma extends_but_extends: "extends fs fs' \<Longrightarrow> extends_but D fs fs'"
  unfolding extends_def extends_but_def by blast

lemma extends_but_refl [simp]: "extends_but D fs fs"
  by (simp add: extends_but_extends)

lemma extends_but_trans:
  assumes "extends_but D fs t" and "extends_but D t u"
  shows "extends_but D fs u"
  unfolding extends_but_def
proof (intro allI impI)
  fix p n
  assume n: "fs p = Some n"
  then consider "is_socket n \<or> p \<in> D \<and> contents_at fs p \<noteq> None"
    | mode where "t p = Some (with_mode mode n)"
    using assms(1) unfolding extends_but_def by blast
  then show "is_socket n \<or> p \<in> D \<and> contents_at fs p \<noteq> None \<or> (\<exists>mode. u p = Some (with_mode mode n))"
  proof cases
    case 2
    then have "is_socket (with_mode mode n) \<or> p \<in> D \<and> contents_at t p \<noteq> None \<or>
        (\<exists>mode'. u p = Some (with_mode mode' (with_mode mode n)))"
      using assms(2) unfolding extends_but_def by blast
    then show ?thesis using contents_at_mode [of fs p n t mode, OF n 2] by auto
  qed blast
qed

lemma put_file_extends: "extends_but {p} fs (put_file mc p contents fs)"
  using with_own_mode
  by (auto simp: extends_but_def put_file_def contents_at_def split: option.split node.split)

lemma extends_but_mono: "extends_but D fs fs' \<Longrightarrow> D \<subseteq> E \<Longrightarrow> extends_but E fs fs'"
  unfolding extends_but_def by blast

definition database_files :: "string \<Rightarrow> string set" where
  "database_files q = (\<lambda>suffix. q @ suffix) ` set database_suffixes"

lemma put_files_extend:
  "extends_but ((\<lambda>suffix. q @ suffix) ` set endings) fs
     (fold (\<lambda>suffix. put_file mc (q @ suffix) (after suffix)) endings fs)"
proof (induction endings arbitrary: fs)
  case (Cons suffix endings)
  have "extends_but ((\<lambda>suffix. q @ suffix) ` set (suffix # endings)) fs (put_file mc (q @ suffix) (after suffix) fs)"
    by (rule extends_but_mono [OF put_file_extends]) simp
  moreover have "extends_but ((\<lambda>suffix. q @ suffix) ` set (suffix # endings)) (put_file mc (q @ suffix) (after suffix) fs)
      (fold (\<lambda>suffix. put_file mc (q @ suffix) (after suffix)) endings (put_file mc (q @ suffix) (after suffix) fs))"
    by (rule extends_but_mono [OF Cons.IH]) auto
  ultimately show ?case using extends_but_trans by fastforce
qed simp

lemma open_database_extends:
  assumes "open_database mc p fs = (fs', res)" and "\<And>q. followed fs p = Some q \<Longrightarrow> database_files q \<subseteq> D"
  shows "extends_but D fs fs'"
proof (cases "fs' = fs")
  case False
  then obtain q after where q: "followed fs p = Some q"
    and fs': "fs' = fold (\<lambda>suffix. put_file mc (q @ suffix) (after suffix)) database_suffixes fs"
    using assms(1) by (auto simp: open_database_def split: if_splits option.splits prod.splits)
  have "extends_but (database_files q) fs fs'"
    unfolding fs' database_files_def by (rule put_files_extend)
  then show ?thesis by (rule extends_but_mono) (rule assms(2) [OF q])
qed simp

section \<open>Reading through links\<close>

text \<open>The contents of the file a path leads to.\<close>

definition reads :: "fs \<Rightarrow> string \<Rightarrow> string \<Rightarrow> bool" where
  "reads fs p contents \<longleftrightarrow> (\<exists>q mode. followed fs p = Some q \<and> fs q = Some (FileNode contents mode))"

lemma followed_here: "(\<And>q. fs p \<noteq> Some (LinkNode q)) \<Longrightarrow> followed fs p = Some p"
proof -
  assume "\<And>q. fs p \<noteq> Some (LinkNode q)"
  then have "follow_links (Suc n) fs p = Some p" for n by (auto split: option.split node.split)
  from this [of 40] show ?thesis by (simp add: followed_def)
qed

lemma reads_contents: "reads fs p c \<longleftrightarrow> (\<exists>q. followed fs p = Some q \<and> contents_at fs q = Some c)"
proof -
  have "contents_at fs q = Some c \<longleftrightarrow> (\<exists>mode. fs q = Some (FileNode c mode))" for q
    by (auto simp: contents_at_def split: option.split node.split)
  then show ?thesis by (simp add: reads_def)
qed

text \<open>A path that leads to a file outside the rewritten ones still does.\<close>

lemma follow_extends_but:
  "extends_but D fs fs' \<Longrightarrow> follow_links n fs p = Some q \<Longrightarrow> fs q = Some (FileNode c mode) \<Longrightarrow> q \<notin> D \<Longrightarrow>
     follow_links n fs' p = Some q"
proof (induction n arbitrary: p)
  case (Suc n)
  have same: "\<exists>mode. fs' r = Some (with_mode mode m)"
    if "fs r = Some m" "\<not> is_socket m" "r \<notin> D \<or> contents_at fs r = None" for r m
    using Suc.prems(1) that unfolding extends_but_def by blast
  show ?case
  proof (cases "fs p")
    case None
    then show ?thesis using Suc.prems by simp
  next
    case (Some node)
    show ?thesis
    proof (cases node)
      case (LinkNode r)
      then show ?thesis
        using Suc.IH Suc.prems Some same [of p node] by (simp add: contents_at_def)
    next
      case (FileNode c' m')
      then show ?thesis
        using Suc.prems Some same [of p node] by auto
    qed (use Suc.prems Some in auto)
  qed
qed simp

lemma reads_extends_but:
  assumes "extends_but D fs fs'" and "reads fs p c" and "\<And>q. followed fs p = Some q \<Longrightarrow> q \<notin> D"
  shows "reads fs' p c"
proof -
  from assms(2) obtain q mode where q: "followed fs p = Some q" "fs q = Some (FileNode c mode)"
    by (auto simp: reads_def)
  then have "followed fs' p = Some q"
    using follow_extends_but [OF assms(1) _ q(2) assms(3)] by (simp add: followed_def)
  moreover have "\<exists>mode'. fs' q = Some (FileNode c mode')"
    using assms(1) q(2) assms(3) [OF q(1)] unfolding extends_but_def by fastforce
  ultimately show ?thesis by (auto simp: reads_def)
qed

lemma reads_extends: "extends fs fs' \<Longrightarrow> reads fs p c \<Longrightarrow> reads fs' p c"
  using reads_extends_but [OF extends_but_extends [where D = "{}"]] by blast

lemma read_file_reads:
  assumes "read_file mc p fs = (fs', Inr c)"
  shows "fs' = fs \<and> reads fs p c"
proof -
  from assms obtain q where q: "followed fs p = Some q"
    and act: "(case fs q of Some (FileNode contents mode) \<Rightarrow> Some (fs, contents) | _ \<Rightarrow> None) = Some (fs', c)"
    by (auto simp: read_file_def io_call_Inr bind_eq_Some_conv)
  then show ?thesis
    by (cases "fs q") (auto simp: reads_def split: node.split_asm)
qed

end
