(* ===== verification/Service.thy ===== *)
theory Service
  imports Files Demo
begin

text \<open>
  \<open>crates/service/src/lib.rs\<close>: what the daemon checks before it serves (\<open>prepare\<close>,
  \<open>verify_configured_agents\<close>), the lock and the socket that make it the only one, and its main
  loop.

  \<^item> \<open>start_daemon\<close> is \<open>run\<close> up to the listening socket; opening the database (\<open>open_database\<close>) may
    create, rewrite and migrate it, and touches nothing but its files.
  \<^item> \<open>serve\<close> is the \<open>select!\<close> loop over a list of what happened, one entry per turn; \<open>None\<close> is a
    daemon that still runs.
\<close>

section \<open>Preparation\<close>

definition create_parent :: "machine \<Rightarrow> string \<Rightarrow> (fs, setup_error, unit) exec" where
  "create_parent mc p = (case path_parent p of None \<Rightarrow> exec_return () | Some d \<Rightarrow> create_dir_all mc d)"

definition verify_installed :: "machine \<Rightarrow> string \<Rightarrow> string \<Rightarrow> (fs, setup_error, unit) exec" where
  "verify_installed mc p expected =
     exec_bind (read_file mc p) (\<lambda>contents.
     exec_lift (map_err RuntimeFailed (verify_sha256 (mc_sha256 mc) contents expected)))"

text \<open>\<open>ensure_binary\<close> at a path: \<open>destination.exists()\<close>, then verify it or install the download.\<close>

definition ensure_runtime ::
  "machine \<Rightarrow> string \<Rightarrow> string \<Rightarrow> bool \<Rightarrow> (nat option \<times> string option list) option \<Rightarrow>
     (fs, setup_error, unit) exec" where
  "ensure_runtime mc p expected allowed response fs =
     (case Option.bind (followed fs p) fs of
        Some n \<Rightarrow> verify_installed mc p expected fs
      | None \<Rightarrow>
          (case ensure_binary (mc_sha256 mc) expected allowed response None of
             (installed, res) \<Rightarrow>
               (case installed of
                  None \<Rightarrow> fs
                | Some contents \<Rightarrow> fs(p \<mapsto> FileNode contents 0x140), map_err RuntimeFailed res)))"

definition verify_agent :: "machine \<Rightarrow> config \<Rightarrow> string \<Rightarrow> (fs, setup_error, unit) exec" where
  "verify_agent mc config adapter =
     exec_bind (exec_lift (ok_or (MissingAgentBinary adapter) (agent_binary config adapter))) (\<lambda>binary.
     exec_bind (verify_installed mc (ab_binary binary) (ab_sha256 binary)) (\<lambda>_.
     case (ab_agent_process_binary binary, ab_agent_process_sha256 binary) of
       (Some p, Some digest) \<Rightarrow> verify_installed mc p digest
     | (None, None) \<Rightarrow> exec_return ()
     | _ \<Rightarrow> exec_lift (Inl (AgentProcessPairing adapter))))"

text \<open>The adapters of the routes: a \<open>BTreeSet\<close> in its order.\<close>

definition route_adapters :: "config \<Rightarrow> string list" where
  "route_adapters config = sort (remdups (map ro_adapter (cfg_routes config)))"

definition verify_configured_agents :: "machine \<Rightarrow> config \<Rightarrow> (fs, setup_error, unit) exec" where
  "verify_configured_agents mc config = exec_for (verify_agent mc config) (route_adapters config)"

definition prepare :: "machine \<Rightarrow> config \<Rightarrow> (fs, setup_error, unit) exec" where
  "prepare mc config =
     exec_bind (exec_lift (map_err InvalidConfig (validate_config config))) (\<lambda>_.
     exec_bind (create_parent mc (dc_database_path (cfg_daemon config))) (\<lambda>_.
     exec_bind (create_parent mc (dc_socket_path (cfg_daemon config))) (\<lambda>_.
     exec_bind (ensure_runtime mc (sandbox_agent_path config) SANDBOX_AGENT_SHA256 False None) (\<lambda>_.
     verify_configured_agents mc config))))"

definition install_runtime ::
  "machine \<Rightarrow> (nat option \<times> string option list) option \<Rightarrow> config \<Rightarrow> (fs, setup_error, unit) exec" where
  "install_runtime mc response config =
     exec_bind (exec_lift (map_err InvalidConfig (validate_config config))) (\<lambda>_.
     ensure_runtime mc (sandbox_agent_path config) SANDBOX_AGENT_SHA256
       (rc_download_if_missing (cfg_runtime config)) response)"

section \<open>The lock and the socket\<close>

definition lock_path :: "string \<Rightarrow> string" where
  "lock_path socket_path = path_with_extension socket_path ''lock''"

definition acquire_daemon_lock :: "machine \<Rightarrow> string \<Rightarrow> (fs, setup_error, unit) exec" where
  "acquire_daemon_lock mc socket_path =
     (let p = lock_path socket_path in
     exec_bind (open_or_create mc (OpenFile p) p) (\<lambda>_.
     exec_bind (exec_lift (bail_if (mc_fails mc (LockFile p) \<or> mc_locked mc p) (AnotherDaemon p))) (\<lambda>_.
     set_permissions mc 0x180 p)))"

definition set_socket_permissions :: "machine \<Rightarrow> string \<Rightarrow> (fs, setup_error, unit) exec" where
  "set_socket_permissions mc p =
     exec_bind (symlink_metadata mc p) (\<lambda>n.
     exec_bind (exec_lift (bail_if (\<not> is_socket n) (NotASocket p))) (\<lambda>_.
     set_permissions mc 0x180 p))"

definition bind_socket :: "machine \<Rightarrow> string \<Rightarrow> (fs, setup_error, unit) exec" where
  "bind_socket mc p =
     exec_bind (try_exists mc p) (\<lambda>exists.
     exec_bind (if exists then
         exec_bind (symlink_metadata mc p) (\<lambda>n.
         exec_bind (exec_lift (bail_if (\<not> is_socket n) (NotASocket p))) (\<lambda>_.
         remove_file mc p))
       else exec_return ()) (\<lambda>_.
     exec_bind (bind_listener mc p) (\<lambda>_.
     set_socket_permissions mc p)))"

definition start_daemon :: "machine \<Rightarrow> config \<Rightarrow> (fs, setup_error, unit) exec" where
  "start_daemon mc config =
     exec_bind (prepare mc config) (\<lambda>_.
     exec_bind (acquire_daemon_lock mc (dc_socket_path (cfg_daemon config))) (\<lambda>_.
     exec_bind (open_database mc (dc_database_path (cfg_daemon config))) (\<lambda>_.
     bind_socket mc (dc_socket_path (cfg_daemon config)))))"

section \<open>Serving\<close>

datatype scheduler_end = SchedulerJoinFailed | SchedulerFailed | SchedulerReturned

datatype serve_input =
    ClientAccepted
  | AcceptFailed
  | ConnectionEnded
  | ShutdownSignal bool
  | SchedulerStopped scheduler_end

datatype serve_error =
    AcceptError
  | SignalError
  | SchedulerError scheduler_end
  | SchedulerUnexpected

text \<open>
  The number of open connections and the outcome. After the signal the scheduler is told to stop and
  waited for: \<open>stopping\<close> is how it then ends.
\<close>

fun serve :: "scheduler_end \<Rightarrow> nat \<Rightarrow> serve_input list \<Rightarrow> nat \<times> (serve_error + unit) option" where
  "serve stopping connections [] = (connections, None)"
| "serve stopping connections (input # inputs) =
     (case input of
        ClientAccepted \<Rightarrow> serve stopping (Suc connections) inputs
      | AcceptFailed \<Rightarrow> (connections, Some (Inl AcceptError))
      | ConnectionEnded \<Rightarrow> serve stopping (connections - 1) inputs
      | ShutdownSignal ok \<Rightarrow>
          if \<not> ok then (connections, Some (Inl SignalError))
          else if stopping \<noteq> SchedulerReturned then (connections, Some (Inl (SchedulerError stopping)))
          else (0, Some (Inr ()))
      | SchedulerStopped ended \<Rightarrow>
          (connections, Some (Inl (if ended = SchedulerReturned then SchedulerUnexpected
            else SchedulerError ended))))"

section \<open>What a started daemon has checked\<close>

lemma growing_verify_installed [growing_intros]: "growing (verify_installed mc p expected)"
  unfolding verify_installed_def by (intro growing_intros)

lemma growing_create_parent [growing_intros]: "growing (create_parent mc p)"
  unfolding create_parent_def by (auto intro: growing_intros split: option.split)

text \<open>Without the download nothing is installed; with it, only where no file was.\<close>

lemma growing_ensure_runtime [growing_intros]: "growing (ensure_runtime mc p expected False response)"
  unfolding growing_def ensure_runtime_def
  using growing_verify_installed by (auto simp: ensure_binary_def growing_def split: option.split)

lemma ensure_runtime_keeps_files:
  assumes "fs q = Some (FileNode c mode)"
  shows "fst (ensure_runtime mc p expected allowed response fs) q = Some (FileNode c mode)"
proof (cases "Option.bind (followed fs p) fs")
  case None
  then have "p \<noteq> q" using assms followed_here [of fs q] by auto
  then show ?thesis
    using assms None by (simp add: ensure_runtime_def split: prod.split option.split)
next
  case (Some n)
  have "fst (verify_installed mc p expected fs) = fs"
    by (auto simp: verify_installed_def exec_bind_def exec_lift_def read_file_def io_call_def bind_eq_Some_conv
        split: prod.split sum.split option.split option.split_asm node.split_asm)
  then show ?thesis using assms Some by (simp add: ensure_runtime_def)
qed

lemma growing_verify_agent [growing_intros]: "growing (verify_agent mc config adapter)"
  unfolding verify_agent_def by (auto intro!: growing_intros split: prod.split option.split)

lemma growing_verify_configured [growing_intros]: "growing (verify_configured_agents mc config)"
  unfolding verify_configured_agents_def by (intro growing_intros)

lemma growing_prepare [growing_intros]: "growing (prepare mc config)"
  unfolding prepare_def by (intro growing_intros)

lemma growing_lock [growing_intros]: "growing (acquire_daemon_lock mc p)"
  unfolding acquire_daemon_lock_def Let_def by (intro growing_intros)

lemma growing_set_socket [growing_intros]: "growing (set_socket_permissions mc p)"
  unfolding set_socket_permissions_def by (intro growing_intros)

text \<open>Removing a socket is the one removal, and it is looked at first.\<close>

lemma growing_clear_socket:
  "growing (exec_bind (symlink_metadata mc p) (\<lambda>n.
     exec_bind (exec_lift (bail_if (\<not> is_socket n) (NotASocket p))) (\<lambda>_. remove_file mc p)))"
  unfolding growing_def
proof
  fix fs
  show "extends fs (fst (exec_bind (symlink_metadata mc p) (\<lambda>n.
      exec_bind (exec_lift (bail_if (\<not> is_socket n) (NotASocket p))) (\<lambda>_. remove_file mc p)) fs))"
  proof (cases "fs p")
    case (Some n)
    then show ?thesis
      by (cases n) (simp_all add: exec_bind_def exec_lift_def symlink_metadata_def remove_file_def io_call_def
          bail_if_def extends_socket)
  qed (simp add: exec_bind_def symlink_metadata_def io_call_def)
qed

lemma growing_bind_socket [growing_intros]: "growing (bind_socket mc p)"
  unfolding bind_socket_def by (intro growing_intros growing_clear_socket)

text \<open>Preparing creates directories and no file.\<close>

lemma create_dir_all_contents: "contents_at (fst (create_dir_all mc p fs)) q = contents_at fs q"
  by (auto simp: create_dir_all_def io_call_def contents_at_def split: option.split node.split bind_split)

lemma create_parent_contents: "create_parent mc p fs = (t, r) \<Longrightarrow> contents_at t = contents_at fs"
proof (cases "path_parent p")
  case (Some d)
  assume "create_parent mc p fs = (t, r)"
  then have "t = fst (create_dir_all mc d fs)" using Some by (simp add: create_parent_def)
  then show ?thesis using create_dir_all_contents by auto
qed (simp add: create_parent_def exec_return_def)

lemma verify_installed_same: "verify_installed mc p digest fs = (t, Inr u) \<Longrightarrow> t = fs"
  by (auto simp: verify_installed_def result_simps dest!: read_file_reads)

lemma verify_agent_same: "verify_agent mc config adapter fs = (t, Inr u) \<Longrightarrow> t = fs"
  by (auto simp: verify_agent_def result_simps split: option.splits dest!: verify_installed_same)

lemma exec_for_same:
  "exec_for f xs fs = (t, Inr u) \<Longrightarrow> (\<And>x s t u. f x s = (t, Inr u) \<Longrightarrow> t = s) \<Longrightarrow> t = fs"
  by (induction xs arbitrary: fs) (auto simp: result_simps)

lemma ensure_runtime_same: "ensure_runtime mc p expected False None fs = (t, Inr u) \<Longrightarrow> t = fs"
  by (auto simp: ensure_runtime_def ensure_binary_def map_err_def split: option.splits dest: verify_installed_same)

lemma prepare_contents:
  assumes "prepare mc config fs = (t, Inr ())"
  shows "contents_at t = contents_at fs"
proof -
  from assms obtain a b c where "create_parent mc (dc_database_path (cfg_daemon config)) fs = (a, Inr ())"
    "create_parent mc (dc_socket_path (cfg_daemon config)) a = (b, Inr ())"
    "ensure_runtime mc (sandbox_agent_path config) SANDBOX_AGENT_SHA256 False None b = (c, Inr ())"
    "verify_configured_agents mc config c = (t, Inr ())"
    by (auto simp: prepare_def result_simps)
  moreover from this(4) have "t = c"
    unfolding verify_configured_agents_def by (rule exec_for_same) (rule verify_agent_same)
  ultimately show ?thesis
    using create_parent_contents ensure_runtime_same by metis
qed

definition verified :: "machine \<Rightarrow> fs \<Rightarrow> string \<Rightarrow> string \<Rightarrow> bool" where
  "verified mc fs p digest \<longleftrightarrow> (\<exists>contents. reads fs p contents \<and> mc_sha256 mc contents = digest)"

definition agent_verified :: "machine \<Rightarrow> config \<Rightarrow> fs \<Rightarrow> string \<Rightarrow> bool" where
  "agent_verified mc config fs adapter \<longleftrightarrow> (\<exists>b. agent_binary config adapter = Some b \<and>
     verified mc fs (ab_binary b) (ab_sha256 b) \<and>
     (case (ab_agent_process_binary b, ab_agent_process_sha256 b) of
        (Some p, Some digest) \<Rightarrow> verified mc fs p digest
      | (None, None) \<Rightarrow> True
      | _ \<Rightarrow> False))"

lemma verified_extends: "extends fs fs' \<Longrightarrow> verified mc fs p digest \<Longrightarrow> verified mc fs' p digest"
  unfolding verified_def using reads_extends by blast

lemma agent_verified_extends: "extends fs fs' \<Longrightarrow> agent_verified mc config fs a \<Longrightarrow> agent_verified mc config fs' a"
  using verified_extends unfolding agent_verified_def by (fastforce split: option.splits)

lemma verify_installed_ok: "verify_installed mc p digest fs = (fs', Inr u) \<Longrightarrow> verified mc fs' p digest"
  by (auto simp: verify_installed_def result_simps verify_sha256_def verified_def map_err_def bail_if_def
      split: if_split_asm dest!: read_file_reads)

lemma verify_agent_ok:
  assumes "verify_agent mc config adapter fs = (fs', Inr u)"
  shows "agent_verified mc config fs' adapter"
proof -
  from assms obtain b t where b: "agent_binary config adapter = Some b"
    and first: "verify_installed mc (ab_binary b) (ab_sha256 b) fs = (t, Inr ())"
    and rest: "(case (ab_agent_process_binary b, ab_agent_process_sha256 b) of
       (Some p, Some digest) \<Rightarrow> verify_installed mc p digest
     | (None, None) \<Rightarrow> exec_return ()
     | _ \<Rightarrow> exec_lift (Inl (AgentProcessPairing adapter))) t = (fs', Inr u)"
    by (auto simp: verify_agent_def result_simps)
  note binary = verify_installed_ok [OF first]
  show ?thesis
  proof (cases "ab_agent_process_binary b"; cases "ab_agent_process_sha256 b")
    fix p digest
    assume pair: "ab_agent_process_binary b = Some p" "ab_agent_process_sha256 b = Some digest"
    with rest have second: "verify_installed mc p digest t = (fs', Inr u)" by simp
    then show ?thesis
      using b pair verify_installed_ok [OF second]
        verified_extends [OF growingD [OF growing_verify_installed second] binary]
      by (auto simp: agent_verified_def)
  qed (use rest b binary in \<open>auto simp: result_simps agent_verified_def\<close>)
qed

lemma exec_for_ok:
  assumes "exec_for f xs fs = (fs', Inr ())" and "\<And>x. growing (f x)"
    and "\<And>x t t'. f x t = (t', Inr ()) \<Longrightarrow> P t' x" and "\<And>x t t'. extends t t' \<Longrightarrow> P t x \<Longrightarrow> P t' x"
  shows "\<forall>x \<in> set xs. P fs' x"
  using assms(1)
proof (induction xs arbitrary: fs)
  case (Cons x xs)
  then obtain t where first: "f x fs = (t, Inr ())" and rest: "exec_for f xs t = (fs', Inr ())"
    by (auto simp: result_simps)
  have "P t x" using first by (rule assms(3))
  moreover have "extends t fs'"
    by (rule growingD [OF growing_for [OF assms(2)] rest])
  ultimately show ?case using Cons.IH [OF rest] assms(4) by auto
qed simp

lemma prepare_ok:
  assumes "prepare mc config fs = (fs', Inr ())"
  shows "validate_config config = Inr ()" "verified mc fs' (sandbox_agent_path config) SANDBOX_AGENT_SHA256"
    "\<forall>route \<in> set (cfg_routes config). agent_verified mc config fs' (ro_adapter route)"
proof -
  from assms obtain t u where valid: "validate_config config = Inr ()"
    and run: "ensure_runtime mc (sandbox_agent_path config) SANDBOX_AGENT_SHA256 False None t = (u, Inr ())"
    and agents: "verify_configured_agents mc config u = (fs', Inr ())"
    by (auto simp: prepare_def result_simps)
  show "validate_config config = Inr ()" by (rule valid)
  have "verified mc u (sandbox_agent_path config) SANDBOX_AGENT_SHA256"
    using run verify_installed_ok
    by (auto simp: ensure_runtime_def ensure_binary_def map_err_def split: option.splits)
  then show "verified mc fs' (sandbox_agent_path config) SANDBOX_AGENT_SHA256"
    by (rule verified_extends [OF growingD [OF growing_verify_configured agents]])
  have "\<forall>a \<in> set (route_adapters config). agent_verified mc config fs' a"
    using agents unfolding verify_configured_agents_def
    by (rule exec_for_ok) (auto intro: growing_intros verify_agent_ok agent_verified_extends)
  then show "\<forall>route \<in> set (cfg_routes config). agent_verified mc config fs' (ro_adapter route)"
    by (auto simp: route_adapters_def)
qed

lemma bind_socket_ok:
  assumes "bind_socket mc p fs = (fs', Inr ())"
  shows "fs' p = Some (SocketNode 0x180) \<and> (fs p = None \<or> (\<exists>n. fs p = Some n \<and> is_socket n))"
proof -
  from assms obtain exists t u v where found: "try_exists mc p fs = (t, Inr exists)"
    and clear: "(if exists then exec_bind (symlink_metadata mc p) (\<lambda>n.
         exec_bind (exec_lift (bail_if (\<not> is_socket n) (NotASocket p))) (\<lambda>_. remove_file mc p))
       else exec_return ()) t = (u, Inr ())"
    and listen: "bind_listener mc p u = (v, Inr ())" and perm: "set_socket_permissions mc p v = (fs', Inr ())"
    by (auto simp: bind_socket_def result_simps)
  have t: "t = fs" using found by (auto simp: try_exists_def io_call_Inr)
  have v: "u p = None" "v p = Some (SocketNode (mc_socket_mode mc))"
    using listen by (auto simp: bind_listener_def io_call_Inr split: if_split_asm)
  then have "followed v p = Some p" by (intro followed_here) simp
  then have "fs' p = Some (SocketNode 0x180)"
    using perm v(2) by (auto simp: set_socket_permissions_def result_simps symlink_metadata_def set_permissions_def
        io_call_Inr)
  moreover have "fs p = None \<or> (\<exists>n. fs p = Some n \<and> is_socket n)"
    using clear v(1) t
    by (cases exists) (auto simp: result_simps symlink_metadata_def io_call_Inr)
  ultimately show ?thesis by blast
qed

lemma verified_before:
  assumes "prepare mc config fs = (t, Inr ())" and "verified mc t p digest"
  shows "verified mc fs p digest"
  using assms(2) prepare_contents [OF assms(1)] extends_followed [OF growingD [OF growing_prepare assms(1)]]
  by (simp add: verified_def reads_contents)

lemma agent_verified_before:
  assumes "prepare mc config fs = (t, Inr ())" and "agent_verified mc config t adapter"
  shows "agent_verified mc config fs adapter"
  using assms(2) verified_before [OF assms(1)] unfolding agent_verified_def by (fastforce split: option.splits)

text \<open>The files of the database a configuration names.\<close>

definition own_database :: "config \<Rightarrow> fs \<Rightarrow> string set" where
  "own_database config fs =
     (case followed fs (dc_database_path (cfg_daemon config)) of None \<Rightarrow> {} | Some q \<Rightarrow> database_files q)"

lemma start_daemon_stages:
  assumes "start_daemon mc config fs = (fs', res)"
  shows "extends_but (own_database config fs) fs fs'"
proof -
  let ?socket = "dc_socket_path (cfg_daemon config)" and ?db = "dc_database_path (cfg_daemon config)"
  obtain t r where prep: "prepare mc config fs = (t, r)" by fastforce
  note one = growingD [OF growing_prepare prep]
  obtain u r1 where lock: "acquire_daemon_lock mc ?socket t = (u, r1)" by fastforce
  note two = extends_trans [OF one growingD [OF growing_lock lock]]
  obtain v r2 where db: "open_database mc ?db u = (v, r2)" by fastforce
  have three: "extends_but (own_database config fs) fs v"
  proof (rule extends_but_trans [OF extends_but_extends [OF two]])
    show "extends_but (own_database config fs) u v"
      by (rule open_database_extends [OF db]) (simp add: own_database_def extends_followed [OF two])
  qed
  obtain w r3 where sock: "bind_socket mc ?socket v = (w, r3)" by fastforce
  have "extends_but (own_database config fs) fs w"
    using extends_but_trans [OF three extends_but_extends [OF growingD [OF growing_bind_socket sock]]] .
  then show ?thesis
    using assms prep lock db sock extends_but_extends [OF one] extends_but_extends [OF two] three
    by (auto simp: start_daemon_def exec_bind_def split: sum.splits)
qed

lemma start_daemon_ok:
  assumes "start_daemon mc config fs = (fs', Inr ())"
  shows "config_ok config \<and> \<not> mc_locked mc (lock_path (dc_socket_path (cfg_daemon config))) \<and>
       verified mc fs (sandbox_agent_path config) SANDBOX_AGENT_SHA256 \<and>
       (\<forall>route \<in> set (cfg_routes config). agent_verified mc config fs (ro_adapter route)) \<and>
       fs' (dc_socket_path (cfg_daemon config)) = Some (SocketNode 0x180) \<and>
       (\<forall>n. fs (dc_socket_path (cfg_daemon config)) = Some n \<longrightarrow>
         is_socket n \<or> dc_socket_path (cfg_daemon config) \<in> own_database config fs)"
proof -
  let ?socket = "dc_socket_path (cfg_daemon config)" and ?db = "dc_database_path (cfg_daemon config)"
  obtain t u v where prep: "prepare mc config fs = (t, Inr ())"
    and lock: "acquire_daemon_lock mc ?socket t = (u, Inr ())"
    and db: "open_database mc ?db u = (v, Inr ())"
    and sock: "bind_socket mc ?socket v = (fs', Inr ())"
    using assms by (auto simp: start_daemon_def result_simps)
  note before = extends_trans [OF growingD [OF growing_prepare prep] growingD [OF growing_lock lock]]
  have "extends_but (own_database config fs) u v"
    by (rule open_database_extends [OF db]) (simp add: own_database_def extends_followed [OF before])
  then have upto: "extends_but (own_database config fs) fs v"
    using extends_but_trans [OF extends_but_extends [OF before]] by blast
  have "is_socket n \<or> ?socket \<in> own_database config fs" if here: "fs ?socket = Some n" for n
  proof -
    consider "is_socket n \<or> ?socket \<in> own_database config fs" | mode where "v ?socket = Some (with_mode mode n)"
      using upto here unfolding extends_but_def by blast
    then show ?thesis
      by cases (use bind_socket_ok [OF sock] in auto)
  qed
  moreover have "\<not> mc_locked mc (lock_path ?socket)"
    using lock by (auto simp: acquire_daemon_lock_def Let_def result_simps)
  ultimately show ?thesis
    using bind_socket_ok [OF sock] prepare_ok [OF prep] verified_before [OF prep] agent_verified_before [OF prep]
    by (simp add: validate_config_ok_iff)
qed

text \<open>
  C21: the daemon only starts on what it has verified, and starting replaces nothing but its own
  database. However the start ends, every file, link and directory is still there with its contents,
  except the files of the configured database (with its log, index and journal), which opening may
  migrate; so every path that read some contents still does, unless it leads to one of these. When the
  start succeeds, the configuration is valid, the installed runtime had the pinned digest and the Agent
  binaries of every route the configured digests before anything was changed, no other daemon held the
  lock, and the socket is private and took the place of a socket, of nothing or of a file of the database.
\<close>

theorem daemon_starts_verified:
  assumes "start_daemon mc config fs = (fs', res)"
  shows "extends_but (own_database config fs) fs fs' \<and>
    (\<forall>p q c. followed fs p = Some q \<and> q \<notin> own_database config fs \<and> reads fs p c \<longrightarrow> reads fs' p c) \<and>
    (res = Inr () \<longrightarrow> config_ok config \<and> \<not> mc_locked mc (lock_path (dc_socket_path (cfg_daemon config))) \<and>
       verified mc fs (sandbox_agent_path config) SANDBOX_AGENT_SHA256 \<and>
       (\<forall>route \<in> set (cfg_routes config). agent_verified mc config fs (ro_adapter route)) \<and>
       fs' (dc_socket_path (cfg_daemon config)) = Some (SocketNode 0x180) \<and>
       (\<forall>n. fs (dc_socket_path (cfg_daemon config)) = Some n \<longrightarrow>
         is_socket n \<or> dc_socket_path (cfg_daemon config) \<in> own_database config fs))"
proof -
  note kept = start_daemon_stages [OF assms]
  moreover have "\<forall>p q c. followed fs p = Some q \<and> q \<notin> own_database config fs \<and> reads fs p c \<longrightarrow> reads fs' p c"
    using reads_extends_but [OF kept] by (metis option.inject)
  ultimately show ?thesis using start_daemon_ok assms by blast
qed

definition demo_machine :: machine where
  "demo_machine = \<lparr>mc_fails = (\<lambda>op. False), mc_dir_mode = 0x1C0, mc_file_mode = 0x1A4, mc_socket_mode = 0x1ED,
     mc_locked = (\<lambda>p. False),
     mc_sha256 = (\<lambda>c. if c = ''sa'' then SANDBOX_AGENT_SHA256 else replicate 64 (CHR ''a'')),
     mc_sqlite = (\<lambda>files. (\<lambda>suffix. if suffix = [] then Some ''v2'' else if suffix = ''-wal'' then Some [] else None,
       True))\<rparr>"

definition demo_fs :: fs where
  "demo_fs = map_of [(''/cache/0.4.2/sandbox-agent'', FileNode ''sa'' 0x140), (''/o'', LinkNode ''/opt/o''),
     (''/opt/o'', FileNode ''oc'' 0x1ED), (''/run/s'', SocketNode 0x180)]"

lemma daemon_starts_verified_witness:
  "\<exists>fs'. start_daemon demo_machine demo_config demo_fs = (fs', Inr ()) \<and>
     fs' ''/run/s'' = Some (SocketNode 0x180) \<and> reads fs' ''/o'' ''oc'' \<and>
     verified demo_machine demo_fs ''/cache/0.4.2/sandbox-agent'' SANDBOX_AGENT_SHA256"
proof -
  have "case snd (start_daemon demo_machine demo_config demo_fs) of Inl _ \<Rightarrow> False | Inr _ \<Rightarrow> True"
    by code_simp
  then obtain fs' where run: "start_daemon demo_machine demo_config demo_fs = (fs', Inr ())"
    by (cases "start_daemon demo_machine demo_config demo_fs") (auto split: sum.splits)
  have paths: "dc_socket_path (cfg_daemon demo_config) = ''/run/s''"
    "sandbox_agent_path demo_config = ''/cache/0.4.2/sandbox-agent''"
    by code_simp+
  have link: "followed demo_fs ''/o'' = Some ''/opt/o''" "demo_fs ''/opt/o'' = Some (FileNode ''oc'' 0x1ED)"
    "case followed demo_fs (dc_database_path (cfg_daemon demo_config)) of None \<Rightarrow> False
       | Some q \<Rightarrow> \<not> list_ex (\<lambda>suffix. q @ suffix = ''/opt/o'') database_suffixes"
    by code_simp+
  then have "reads demo_fs ''/o'' ''oc''" "''/opt/o'' \<notin> own_database demo_config demo_fs"
    by (auto simp: reads_def own_database_def database_files_def list_ex_iff split: option.splits)
  then have "reads fs' ''/o'' ''oc''"
    using daemon_starts_verified [OF run] link(1) by blast
  with daemon_starts_verified [OF run] run paths show ?thesis by auto
qed

end
