(* ===== verification/Decimal.thy ===== *)
theory Decimal
  imports Prelude
begin

text \<open>
  Numbers as text: Rust's \<open>Display\<close> of an unsigned integer (\<open>format!("{n}")\<close>) and
  \<open>str::parse::<u64>\<close>, which takes an optional leading plus sign, at least one digit, leading
  zeros, and nothing above the range. They are used by the entity tag, the cursor of the event
  stream and the pointers into a request. The two are inverse.
\<close>

definition digit_char :: "nat \<Rightarrow> char" where
  "digit_char d = char_of (48 + d)"

fun decimal :: "nat \<Rightarrow> string" where
  "decimal n = (if n < 10 then [digit_char n] else decimal (n div 10) @ [digit_char (n mod 10)])"

declare decimal.simps [simp del]

definition is_digit :: "char \<Rightarrow> bool" where
  "is_digit c \<longleftrightarrow> 48 \<le> (of_char c :: nat) \<and> (of_char c :: nat) \<le> 57"

fun parse_digits :: "nat \<Rightarrow> string \<Rightarrow> nat option" where
  "parse_digits acc [] = Some acc"
| "parse_digits acc (c # cs) =
     (if is_digit c then parse_digits (10 * acc + (of_char c - 48)) cs else None)"

definition parse_u64 :: "string \<Rightarrow> u64 option" where
  "parse_u64 text =
     (let digits = (case text of [] \<Rightarrow> [] | c # cs \<Rightarrow> if c = CHR ''+'' then cs else text) in
      if digits = [] then None
      else (case parse_digits 0 digits of
          None \<Rightarrow> None
        | Some n \<Rightarrow> try_from_int (int n)))"

lemma of_digit_char: "d < 10 \<Longrightarrow> (of_char (digit_char d) :: nat) = 48 + d"
  by (simp add: digit_char_def)

lemma is_digit_char: "d < 10 \<Longrightarrow> is_digit (digit_char d)"
  by (simp add: is_digit_def of_digit_char)

lemma parse_digits_append:
  "parse_digits acc (xs @ ys) = (case parse_digits acc xs of None \<Rightarrow> None | Some n \<Rightarrow> parse_digits n ys)"
  by (induction xs arbitrary: acc) auto

lemma parse_decimal: "parse_digits 0 (decimal n) = Some n"
proof (induction n rule: decimal.induct)
  case (1 n)
  show ?case
  proof (cases "n < 10")
    case True
    then show ?thesis by (simp add: decimal.simps is_digit_char of_digit_char)
  next
    case False
    have "n mod 10 < 10" by simp
    with False 1 show ?thesis
      by (subst decimal.simps) (simp add: parse_digits_append is_digit_char of_digit_char)
  qed
qed

lemma decimal_digits: "list_all is_digit (decimal n)"
proof (induction n rule: decimal.induct)
  case (1 n)
  then show ?case by (subst decimal.simps) (simp add: is_digit_char)
qed

lemma decimal_nonempty [simp]: "decimal n \<noteq> []"
  by (subst decimal.simps) simp

lemma parse_u64_decimal [simp]: "parse_u64 (decimal (unat w)) = Some w"
proof -
  obtain c cs where d: "decimal (unat w) = c # cs" by (cases "decimal (unat w)") simp_all
  then have "is_digit c" using decimal_digits [of "unat w"] by simp
  then have "c \<noteq> CHR ''+''" by (auto simp: is_digit_def)
  then show ?thesis
    using parse_decimal [of "unat w"] by (simp add: parse_u64_def d flip: uint_nat)
qed

lemma decimal_inject [simp]: "decimal m = decimal n \<longleftrightarrow> m = n"
  by (metis option.inject parse_decimal)

section \<open>Trimming\<close>

text \<open>\<open>str::trim_matches\<close> with a character: every leading and trailing occurrence goes.\<close>

definition trim_matches :: "char \<Rightarrow> string \<Rightarrow> string" where
  "trim_matches c text = rev (dropWhile (\<lambda>x. x = c) (rev (dropWhile (\<lambda>x. x = c) text)))"

lemma dropWhile_replicate: "xs = [] \<or> hd xs \<noteq> c \<Longrightarrow> dropWhile (\<lambda>x. x = c) (replicate n c @ xs) = xs"
  by (induction n) (cases xs; auto)+

lemma trim_matches_id:
  assumes "c \<notin> set text"
  shows "trim_matches c (replicate m c @ text @ replicate n c) = text"
proof (cases "text = []")
  case True
  then show ?thesis
    by (simp add: trim_matches_def dropWhile_eq_Nil_conv flip: replicate_add)
next
  case False
  have first: "dropWhile (\<lambda>x. x = c) (replicate m c @ text @ replicate n c) = text @ replicate n c"
    using assms False by (intro dropWhile_replicate) (metis hd_append hd_in_set)
  have "dropWhile (\<lambda>x. x = c) (replicate n c @ List.rev text) = List.rev text"
    using assms False by (intro dropWhile_replicate) (metis hd_in_set set_rev)
  with first show ?thesis by (simp add: trim_matches_def)
qed

lemma quote_not_digit: "CHR 0x22 \<notin> set (decimal n)"
  using decimal_digits [of n] by (auto simp: list_all_iff is_digit_def)

lemma trim_quoted: "trim_matches (CHR 0x22) (CHR 0x22 # decimal n @ [CHR 0x22]) = decimal n"
  using trim_matches_id [OF quote_not_digit, of 1 n 1] by simp

end
