(* ===== verification/Api.thy ===== *)
theory Api
  imports Scheduler Decimal
begin

text \<open>
  \<open>crates/service/src/api.rs\<close>: the failures, the validation of a request in the source's order,
  and the handlers. Routing, JSON extraction and the HTTP server are library code; a handler is
  the function behind its route, from the decoded request to the status and the body.

  \<^item> \<open>api_env\<close> holds the library and operating-system calls: the canonical JSON encoding and the
    digest, \<open>canonicalize\<close>, the user id, the header parser. A fallible call returns \<open>None\<close>.
  \<^item> \<open>headers\<close> is the look-up of a header's value as text.
  \<^item> \<open>api_state\<close> is the shared state: the store, the cancellation channels, and whether the
    scheduler has been notified.
\<close>

section \<open>Failures\<close>

record api_failure =
  af_status :: nat
  af_detail :: error_detail

definition api_failure_of :: "nat \<Rightarrow> string \<Rightarrow> string \<Rightarrow> error_scope \<Rightarrow> api_failure" where
  "api_failure_of code_number code message scope =
     \<lparr>af_status = code_number, af_detail = \<lparr>ed_code = code, ed_message = message, ed_retryable = False,
        ed_scope = scope, ed_retry_after_seconds = None, ed_field = None\<rparr>\<rparr>"

definition invalid :: "string \<Rightarrow> string option \<Rightarrow> api_failure" where
  "invalid message field =
     (let failure = api_failure_of 400 ''invalid_request'' message ScopeRequest
      in failure\<lparr>af_detail := (af_detail failure)\<lparr>ed_field := field\<rparr>\<rparr>)"

definition capability_failure :: "string \<Rightarrow> api_failure" where
  "capability_failure message = api_failure_of 422 ''capability_unavailable'' message ScopeRoute"

definition not_found :: api_failure where
  "not_found = api_failure_of 404 ''not_found'' ''resource not found'' ScopeRequest"

definition internal_failure :: "string \<Rightarrow> api_failure" where
  "internal_failure message = api_failure_of 500 ''internal_error'' message ScopeRequest"

fun from_store :: "store_error \<Rightarrow> api_failure" where
  "from_store NotFound = not_found"
| "from_store IdempotencyConflict = api_failure_of 409 ''idempotency_conflict''
     ''idempotency key was reused with a different request'' ScopeRequest"
| "from_store RevisionConflict = api_failure_of 412 ''revision_conflict''
     ''resource revision changed'' ScopeSubmission"
| "from_store NotQueued = api_failure_of 409 ''invalid_request''
     ''operation is only valid for a queued submission'' ScopeSubmission"
| "from_store WorkspaceBusy = api_failure_of 409 ''workspace_unavailable''
     ''workspace has an active writable attempt'' ScopeSubmission"
| "from_store InvalidScheduling =
     invalid ''start_deadline must be after not_before'' (Some ''/start_deadline'')"
| "from_store (Internal message) = internal_failure ''persistent state operation failed''"

text \<open>\<open>into_response\<close>: the status and the body, under a fresh request id.\<close>

definition into_response :: "string \<Rightarrow> api_failure \<Rightarrow> nat \<times> api_error" where
  "into_response ulid failure =
     (af_status failure, \<lparr>ae_request_id = ''req_'' @ ulid, ae_error = af_detail failure\<rparr>)"

section \<open>The environment\<close>

record api_env =
  en_jcs :: "submission_create \<Rightarrow> string option"
  en_sha256 :: "string \<Rightarrow> string"
  en_profile_json :: "profile_config \<Rightarrow> string option"
  en_policy_json :: "policy_config \<Rightarrow> string option"
  en_canonicalize :: "string \<Rightarrow> string option"
  en_lossy :: "string \<Rightarrow> string"
  en_uid :: nat
  en_header_value :: "string \<Rightarrow> string option"

type_synonym headers = "string \<Rightarrow> string option"

record api_state =
  as_store :: store
  as_cancellations :: cancellations
  as_notified :: bool

definition local_client_id :: "api_env \<Rightarrow> string" where
  "local_client_id env = ''uid:'' @ decimal (en_uid env)"

definition request_digest :: "api_env \<Rightarrow> submission_create \<Rightarrow> api_failure + string" where
  "request_digest env request =
     (let normalized = request\<lparr>sc_client_reference := None\<rparr> in
      try_bind (ok_or (internal_failure ''encode request digest'') (en_jcs env normalized)) (\<lambda>bytes.
      Inr (''sha256:'' @ en_sha256 env bytes)))"

text \<open>\<open>resource_ref\<close>, with the encoding of the resource as its argument.\<close>

definition resource_ref_of :: "api_env \<Rightarrow> string \<Rightarrow> string \<Rightarrow> string option \<Rightarrow> resource_ref" where
  "resource_ref_of env i version encoded =
     (let bytes = (case encoded of None \<Rightarrow> [] | Some b \<Rightarrow> b) in
      \<lparr>rr_id = i, rr_version = version, rr_digest = ''sha256:'' @ en_sha256 env bytes\<rparr>)"

section \<open>Validating a request\<close>

record resolved_request =
  re_profile :: resource_ref
  re_policy :: resource_ref
  re_workspace_key :: "string option"
  re_workspace_access :: "string option"
  re_profile_config :: profile_config
  re_policy_config :: policy_config
  re_routes :: "route_config list"

text \<open>The loop over the parts of the input: their text, in bytes.\<close>

fun check_parts :: "nat \<Rightarrow> u64 \<Rightarrow> content_part list \<Rightarrow> api_failure + u64" where
  "check_parts index text_bytes [] = Inr text_bytes"
| "check_parts index text_bytes (part # parts) =
     (case part of
        PartText text \<Rightarrow>
          let text_bytes' = saturating_add text_bytes (word_of_nat (length text)) in
          if text = [] then Inl (invalid ''text input must not be empty''
            (Some (''/input/parts/'' @ decimal index @ ''/text'')))
          else check_parts (Suc index) text_bytes' parts
      | _ \<Rightarrow> Inl (capability_failure ''v0.1 only accepts text input parts''))"

definition validate_nonempty_unique :: "string list option \<Rightarrow> string \<Rightarrow> api_failure + unit" where
  "validate_nonempty_unique vals field =
     (case vals of
        None \<Rightarrow> Inr ()
      | Some vs \<Rightarrow> bail_if (vs = [] \<or> card (set vs) \<noteq> length vs)
          (invalid ''selector must be non-empty and unique'' (Some field)))"

text \<open>The wanted output, extensions, session and hard limits that this version refuses.\<close>

definition unsupported_output :: "submission_create \<Rightarrow> bool" where
  "unsupported_output request \<longleftrightarrow> (case sc_output request of
       None \<Rightarrow> False
     | Some out \<Rightarrow> os_artifacts out \<noteq> None \<or> \<not> (os_final_output out = None \<or> os_final_output out = Some FinalText))"

definition unsupported_agent :: "submission_create \<Rightarrow> bool" where
  "unsupported_agent request \<longleftrightarrow> (case sc_agent request of
       None \<Rightarrow> False
     | Some agent \<Rightarrow> ag_extensions agent \<noteq> [] \<or> ag_required_capabilities agent \<noteq> [])"

definition unsupported_limits :: "submission_create \<Rightarrow> bool" where
  "unsupported_limits request \<longleftrightarrow> (case sc_limits request of
       None \<Rightarrow> False
     | Some limits \<Rightarrow> lim_max_tokens limits \<noteq> None \<or> lim_max_provider_requests limits \<noteq> None)"

definition validate_scheduling :: "submission_create \<Rightarrow> api_failure + unit" where
  "validate_scheduling request =
     try_bind (bail_if (case Option.bind (sc_scheduling request) sch_priority of
         None \<Rightarrow> False | Some priority \<Rightarrow> 100 < priority)
       (invalid ''priority must be between 0 and 100'' (Some ''/scheduling/priority''))) (\<lambda>_.
     bail_if (case sc_scheduling request of
         None \<Rightarrow> False
       | Some sched \<Rightarrow> (case (sch_not_before sched, sch_start_deadline sched) of
             (Some not_before, Some deadline) \<Rightarrow> deadline \<le> not_before
           | _ \<Rightarrow> False))
       (invalid ''start_deadline must be after not_before'' (Some ''/scheduling/start_deadline'')))"

definition selected :: "resource_selector option \<Rightarrow> string \<Rightarrow> string \<times> string option" where
  "selected selector default_id = (case selector of
       None \<Rightarrow> (default_id, None) | Some sel \<Rightarrow> (sel_id sel, sel_version sel))"

definition policy_denied :: "string \<Rightarrow> api_failure" where
  "policy_denied message = api_failure_of 422 ''policy_denied'' message ScopeRequest"

definition resolve_profile :: "config \<Rightarrow> submission_create \<Rightarrow> api_failure + profile_config" where
  "resolve_profile config request =
     (case selected (Option.bind (sc_agent request) ag_profile) (df_profile_id (cfg_defaults config)) of
        (i, version) \<Rightarrow> ok_or (policy_denied ''profile is unavailable'') (config_profile config i version))"

definition resolve_policy :: "config \<Rightarrow> submission_create \<Rightarrow> api_failure + policy_config" where
  "resolve_policy config request =
     (case selected (sc_policy request) (df_policy_id (cfg_defaults config)) of
        (i, version) \<Rightarrow> ok_or (policy_denied ''policy is unavailable'') (config_policy config i version))"

definition validate_execution :: "submission_create \<Rightarrow> api_failure + unit" where
  "validate_execution request =
     (case sc_execution request of
        None \<Rightarrow> Inr ()
      | Some execution \<Rightarrow>
          try_bind (validate_nonempty_unique (ex_route_ids execution) ''/execution/route_ids'') (\<lambda>_.
          try_bind (validate_nonempty_unique (ex_target_ids execution) ''/execution/target_ids'') (\<lambda>_.
          bail_if (case ex_target_ids execution of
              None \<Rightarrow> False | Some targets \<Rightarrow> list_ex (\<lambda>target. target \<noteq> ''local'') targets)
            (api_failure_of 422 ''route_unsatisfied'' ''v0.1 only has the local target'' ScopeRoute))))"

definition requested_route_ids :: "config \<Rightarrow> submission_create \<Rightarrow> string list" where
  "requested_route_ids config request =
     (case Option.bind (sc_execution request) ex_route_ids of
        Some ids \<Rightarrow> ids
      | None \<Rightarrow>
          if Option.bind (sc_agent request) ag_adapter \<noteq> None \<or>
             Option.bind (sc_agent request) ag_model \<noteq> None
          then map ro_id (cfg_routes config)
          else [df_route_id (cfg_defaults config)])"

definition route_serves :: "submission_create \<Rightarrow> route_config \<Rightarrow> bool" where
  "route_serves request route \<longleftrightarrow>
     (case Option.bind (sc_agent request) ag_adapter of
        None \<Rightarrow> True | Some adapter \<Rightarrow> ro_adapter route = adapter) \<and>
     (case Option.bind (sc_agent request) ag_model of
        None \<Rightarrow> True | Some model \<Rightarrow> ro_model route = [] \<or> ro_model route = model)"

definition resolve_routes :: "config \<Rightarrow> submission_create \<Rightarrow> route_config list" where
  "resolve_routes config request =
     filter (route_serves request)
       (List.map_filter (config_route config) (requested_route_ids config request))"

text \<open>\<open>validate_workspace\<close>: the canonical path and the access.\<close>

definition workspace_unavailable :: "string \<Rightarrow> api_failure" where
  "workspace_unavailable message = api_failure_of 422 ''workspace_unavailable'' message ScopeRequest"

fun access_name :: "workspace_access \<Rightarrow> string" where
  "access_name ReadOnly = ''read_only''"
| "access_name Writable = ''writable''"
| "access_name WritableOverlay = ''writable_overlay''"

definition validate_workspace ::
  "api_env \<Rightarrow> config \<Rightarrow> submission_create \<Rightarrow> api_failure + (string option \<times> string option)" where
  "validate_workspace env config request =
     (case sc_workspace request of
        None \<Rightarrow> Inr (None, None)
      | Some (WsBinding binding_id revision access) \<Rightarrow>
          Inl (capability_failure ''remote workspace bindings are unavailable in v0.1'')
      | Some (WsLocal root_id path revision access) \<Rightarrow>
          try_bind (bail_if (access = WritableOverlay)
            (capability_failure ''writable_overlay is unavailable in v0.1'')) (\<lambda>_.
          try_bind (ok_or (workspace_unavailable ''workspace root is unavailable'')
            (workspace_root config root_id)) (\<lambda>root.
          try_bind (bail_if (access = Writable \<and> \<not> wr_allow_writable root)
            (api_failure_of 403 ''policy_denied''
              ''workspace root does not allow writable access'' ScopeRequest)) (\<lambda>_.
          let relative = (case path of None \<Rightarrow> [] | Some p \<Rightarrow> p) in
          try_bind (bail_if (is_absolute relative \<or> list_ex escaping_component (path_components relative))
            (invalid ''workspace path must be a safe relative path'' (Some ''/workspace/path''))) (\<lambda>_.
          try_bind (ok_or (workspace_unavailable ''workspace root cannot be resolved'')
            (en_canonicalize env (wr_path root))) (\<lambda>canonical_root.
          try_bind (ok_or (workspace_unavailable ''workspace path cannot be resolved'')
            (en_canonicalize env (path_join canonical_root relative))) (\<lambda>canonical.
          try_bind (bail_if (\<not> path_starts_with canonical canonical_root)
            (invalid ''workspace path escapes root through a symlink'' (Some ''/workspace/path''))) (\<lambda>_.
          Inr (Some (en_lossy env canonical), Some (access_name access))))))))))"

definition validate_request ::
  "api_env \<Rightarrow> config \<Rightarrow> submission_create \<Rightarrow> api_failure + resolved_request" where
  "validate_request env config request =
     try_bind (bail_if (sc_mode request \<noteq> Task)
       (capability_failure ''goal mode is not published by v0.1'')) (\<lambda>_.
     try_bind (bail_if (inp_parts (sc_input request) = [])
       (invalid ''input.parts must not be empty'' (Some ''/input/parts''))) (\<lambda>_.
     try_bind (check_parts 0 0 (inp_parts (sc_input request))) (\<lambda>text_bytes.
     try_bind (bail_if (1048576 < text_bytes)
       (invalid ''inline input exceeds 1 MiB'' (Some ''/input''))) (\<lambda>_.
     try_bind (bail_if (unsupported_output request)
       (capability_failure ''v0.1 only supports inline text output'')) (\<lambda>_.
     try_bind (bail_if (unsupported_agent request)
       (capability_failure ''requested Agent capability is unavailable'')) (\<lambda>_.
     try_bind (bail_if (\<not> (sc_session request = None \<or> sc_session request = Some Ephemeral))
       (capability_failure ''persistent sessions are unavailable in v0.1'')) (\<lambda>_.
     try_bind (bail_if (unsupported_limits request)
       (capability_failure ''provider token/request hard limits are unavailable'')) (\<lambda>_.
     try_bind (validate_scheduling request) (\<lambda>_.
     try_bind (resolve_profile config request) (\<lambda>profile.
     try_bind (resolve_policy config request) (\<lambda>policy.
     try_bind (validate_execution request) (\<lambda>_.
     let routes = resolve_routes config request in
     try_bind (bail_if (routes = []) (api_failure_of 422 ''route_unsatisfied''
       ''no requested route can satisfy the Agent adapter and model'' ScopeRoute)) (\<lambda>_.
     try_bind (validate_workspace env config request) (\<lambda>(workspace_key, workspace_access).
     try_bind (bail_if (Option.bind (sc_execution request) ex_side_effects = Some ReadOnlyEffects \<and>
         workspace_access = Some ''writable'')
       (invalid ''writable workspace conflicts with read_only side_effects''
         (Some ''/execution/side_effects''))) (\<lambda>_.
     Inr \<lparr>re_profile = resource_ref_of env (pr_id profile) (pr_version profile) (en_profile_json env profile),
       re_policy = resource_ref_of env (po_id policy) (po_version policy) (en_policy_json env policy),
       re_workspace_key = workspace_key, re_workspace_access = workspace_access,
       re_profile_config = profile, re_policy_config = policy, re_routes = routes\<rparr>)))))))))))))))"

end
