(* ===== verification/Handlers.thy ===== *)
theory Handlers
  imports Api
begin

text \<open>
  The handlers of \<open>crates/service/src/api.rs\<close>. A handler takes the environment, what it reads
  from the request and the shared state, and returns the state and the response: the failure,
  or the status and the body. Where a handler awaits between two accesses to the shared state
  other tasks may run: \<open>hd_between\<close> is what they do.
\<close>

record handler_env =
  hd_between :: "api_state \<Rightarrow> api_state"
  hd_ulid :: string
  hd_now :: time
  hd_stamp :: stamp
  hd_format :: "time \<Rightarrow> string"

definition notify_one :: "api_state \<Rightarrow> api_state" where
  "notify_one st = st\<lparr>as_notified := True\<rparr>"

section \<open>Submissions\<close>

definition idempotency_key :: "headers \<Rightarrow> api_failure + string" where
  "idempotency_key headers =
     (case headers ''Idempotency-Key'' of
        Some key \<Rightarrow> if key \<noteq> [] \<and> length key \<le> 200 then Inr key
          else Inl (invalid ''Idempotency-Key header is required'' None)
      | None \<Rightarrow> Inl (invalid ''Idempotency-Key header is required'' None))"

definition accept_spec_of ::
  "string \<Rightarrow> string \<Rightarrow> submission_create \<Rightarrow> string \<Rightarrow> resolved_request \<Rightarrow> accept_spec" where
  "accept_spec_of client_id key request digest resolved =
     \<lparr>acc_client_id = client_id, acc_idempotency_key = key, acc_request = request,
      acc_request_digest = digest, acc_profile = re_profile resolved, acc_policy = re_policy resolved,
      acc_workspace_key = re_workspace_key resolved, acc_workspace_access = re_workspace_access resolved,
      acc_profile_config = re_profile_config resolved, acc_policy_config = re_policy_config resolved,
      acc_routes = re_routes resolved\<rparr>"

text \<open>Between the look-up of the key and the insertion the request is validated.\<close>

definition create_submission ::
  "api_env \<Rightarrow> config \<Rightarrow> handler_env \<Rightarrow> headers \<Rightarrow> submission_create \<Rightarrow> api_state \<Rightarrow>
     api_state \<times> (api_failure + (nat \<times> submission_accepted))" where
  "create_submission env config he headers request st =
     (case try_bind (idempotency_key headers) (\<lambda>key.
           try_bind (request_digest env request) (\<lambda>digest. Inr (key, digest))) of
        Inl failure \<Rightarrow> (st, Inl failure)
      | Inr (key, digest) \<Rightarrow>
          (case idempotent_replay (local_client_id env) key digest (as_store st) of
             Inl e \<Rightarrow> (st, Inl (from_store e))
           | Inr (Some replay) \<Rightarrow> (st, Inr (200, replay))
           | Inr None \<Rightarrow>
               (case validate_request env config request of
                  Inl failure \<Rightarrow> (st, Inl failure)
                | Inr resolved \<Rightarrow>
                    let st1 = hd_between he st in
                    (case accept (hd_ulid he) (hd_now he) (hd_stamp he)
                        (accept_spec_of (local_client_id env) key request digest resolved) (as_store st1) of
                       (s2, Inl e) \<Rightarrow> (st1\<lparr>as_store := s2\<rparr>, Inl (from_store e))
                     | (s2, Inr accepted) \<Rightarrow>
                         (notify_one (st1\<lparr>as_store := s2\<rparr>),
                          Inr (if ar_replay accepted then 200 else 201, ar_response accepted))))))"

definition list_submissions :: "api_state \<Rightarrow> api_failure + submission_status page" where
  "list_submissions st =
     try_bind (map_err from_store (list_statuses 100 (as_store st))) (\<lambda>items.
     Inr \<lparr>pg_items = items, pg_next_cursor = None\<rparr>)"

text \<open>The body and the entity tag.\<close>

definition etag_text :: "u64 \<Rightarrow> string" where
  "etag_text revision = CHR 0x22 # decimal (unat revision) @ [CHR 0x22]"

definition get_submission ::
  "api_env \<Rightarrow> string \<Rightarrow> api_state \<Rightarrow> api_failure + (submission_status \<times> string)" where
  "get_submission env submission_id st =
     try_bind (map_err from_store (status submission_id (as_store st))) (\<lambda>body.
     try_bind (ok_or (internal_failure ''failed to encode ETag'')
       (en_header_value env (etag_text (st_revision body)))) (\<lambda>tag.
     Inr (body, tag)))"

definition if_match :: "headers \<Rightarrow> api_failure + u64" where
  "if_match headers =
     ok_or (invalid ''If-Match revision is required'' None)
       (Option.bind (headers ''If-Match'') (\<lambda>tag. parse_u64 (trim_matches (CHR 0x22) tag)))"

definition patch_submission ::
  "handler_env \<Rightarrow> string \<Rightarrow> headers \<Rightarrow> submission_patch \<Rightarrow> api_state \<Rightarrow>
     api_state \<times> (api_failure + submission_status)" where
  "patch_submission he submission_id headers patch st =
     (case try_bind (if_match headers) (\<lambda>revision.
           try_bind (bail_if (case pt_priority patch of None \<Rightarrow> False | Some priority \<Rightarrow> 100 < priority)
             (invalid ''priority must be between 0 and 100'' (Some ''/priority''))) (\<lambda>_.
           Inr revision)) of
        Inl failure \<Rightarrow> (st, Inl failure)
      | Inr revision \<Rightarrow>
          (case patch_scheduling (hd_format he) (hd_now he) (hd_stamp he) submission_id revision patch
              (as_store st) of
             (s', Inl e) \<Rightarrow> (st\<lparr>as_store := s'\<rparr>, Inl (from_store e))
           | (s', Inr body) \<Rightarrow> (notify_one (st\<lparr>as_store := s'\<rparr>), Inr body)))"

text \<open>The flag is stored first; then the channel of a running attempt, if registered, is told.\<close>

definition signal :: "string \<Rightarrow> cancellations \<Rightarrow> cancellations" where
  "signal submission_id cancels =
     (case cancels submission_id of None \<Rightarrow> cancels | Some _ \<Rightarrow> cancels(submission_id \<mapsto> True))"

definition cancel_submission ::
  "handler_env \<Rightarrow> string \<Rightarrow> api_state \<Rightarrow> api_state \<times> (api_failure + cancellation_result)" where
  "cancel_submission he submission_id st =
     (case cancel (hd_now he) (hd_stamp he) submission_id (as_store st) of
        (s', Inl e) \<Rightarrow> (st\<lparr>as_store := s'\<rparr>, Inl (from_store e))
      | (s', Inr (disposition, revision)) \<Rightarrow>
          let st1 = hd_between he (st\<lparr>as_store := s'\<rparr>);
              st2 = (if disposition = ''cancellation_requested''
                then st1\<lparr>as_cancellations := signal submission_id (as_cancellations st1)\<rparr> else st1)
          in (notify_one st2,
              Inr \<lparr>cn_submission_id = submission_id, cn_disposition = disposition, cn_revision = revision\<rparr>))"

definition result_handler :: "string \<Rightarrow> api_state \<Rightarrow> api_failure + submission_result" where
  "result_handler submission_id st =
     (case result_of submission_id (as_store st) of
        Inr res \<Rightarrow> Inr res
      | Inl NotQueued \<Rightarrow> Inl (api_failure_of 409 ''result_not_ready''
          ''submission has not reached a terminal state'' ScopeSubmission)
      | Inl e \<Rightarrow> Inl (from_store e))"

section \<open>Events\<close>

definition events_cursor :: "u64 option \<Rightarrow> headers \<Rightarrow> u64" where
  "events_cursor after_sequence headers =
     (case after_sequence of
        Some n \<Rightarrow> n
      | None \<Rightarrow>
          (case Option.bind (headers ''Last-Event-ID'') parse_u64 of Some n \<Rightarrow> n | None \<Rightarrow> 0))"

text \<open>What the handler has before it starts to stream: the cursor and the backlog.\<close>

definition events_start ::
  "string \<Rightarrow> u64 option \<Rightarrow> headers \<Rightarrow> api_state \<Rightarrow> api_failure + (u64 \<times> event_envelope list)" where
  "events_start submission_id after_sequence headers st =
     (let after = events_cursor after_sequence headers in
      try_bind (map_err from_store (events_after submission_id after (as_store st))) (\<lambda>initial.
      Inr (after, initial)))"

record sse_event =
  ss_id :: string
  ss_event :: string
  ss_data :: string

definition event_to_sse :: "(event_envelope \<Rightarrow> string option) \<Rightarrow> event_envelope \<Rightarrow> sse_event" where
  "event_to_sse to_string event =
     \<lparr>ss_id = decimal (unat (ev_sequence event)), ss_event = ev_event_type event,
      ss_data = (case to_string event of None \<Rightarrow> ''{}'' | Some text \<Rightarrow> text)\<rparr>"

section \<open>The catalog\<close>

text \<open>A \<open>BTreeMap\<close> and a \<open>BTreeSet\<close> are their entries in ascending order of the key.\<close>

fun btree_entry :: "'k::linorder \<Rightarrow> 'v \<Rightarrow> ('v \<Rightarrow> 'v) \<Rightarrow> ('k \<times> 'v) list \<Rightarrow> ('k \<times> 'v) list" where
  "btree_entry k v f [] = [(k, f v)]"
| "btree_entry k v f ((k', v') # m) =
     (if k < k' then (k, f v) # (k', v') # m
      else if k = k' then (k', f v') # m
      else (k', v') # btree_entry k v f m)"

definition add_route :: "route_config \<Rightarrow> (string \<times> string list) list \<Rightarrow> (string \<times> string list) list" where
  "add_route route adapters =
     btree_entry (ro_adapter route) []
       (\<lambda>models. if ro_model route \<noteq> [] then insort_insert (ro_model route) models else models) adapters"

definition capability :: "string \<Rightarrow> (string \<times> json) list \<Rightarrow> capability_descriptor" where
  "capability name constraints = \<lparr>cd_name = name, cd_version = ''1'', cd_constraints = constraints\<rparr>"

definition agent_capability :: "string \<times> string list \<Rightarrow> capability_descriptor" where
  "agent_capability entry = (case entry of (adapter, models) \<Rightarrow>
     capability (''agent.'' @ adapter)
       ((''mode'', JArray [JString ''task'']) #
        (if models \<noteq> [] then [(''models'', JArray (map JString models))] else [])))"

definition capabilities :: "config \<Rightarrow> capability_descriptor list" where
  "capabilities config =
     [capability ''core.task'' [],
      capability ''core.workspace.local'' [(''access'', JArray [JString ''read_only'', JString ''writable''])],
      capability ''core.events.sse'' [], capability ''sandbox.bubblewrap'' []] @
     map agent_capability (fold add_route (cfg_routes config) [])"

definition profile_summary :: "api_env \<Rightarrow> profile_config \<Rightarrow> resource_summary" where
  "profile_summary env p =
     \<lparr>rs_resource_ref = resource_ref_of env (pr_id p) (pr_version p) (en_profile_json env p),
      rs_description = Some (pr_description p),
      rs_capabilities = [capability ''sandbox.bubblewrap'' []], rs_deprecated = False\<rparr>"

definition profiles :: "api_env \<Rightarrow> config \<Rightarrow> resource_summary page" where
  "profiles env config =
     \<lparr>pg_items = map (profile_summary env) (cfg_profiles config), pg_next_cursor = None\<rparr>"

definition profile_handler :: "api_env \<Rightarrow> config \<Rightarrow> string \<Rightarrow> string \<Rightarrow> api_failure + resource_summary" where
  "profile_handler env config resource_id version =
     try_bind (ok_or not_found
       (find (\<lambda>p. pr_id p = resource_id \<and> pr_version p = version) (cfg_profiles config))) (\<lambda>p.
     Inr (profile_summary env p))"

definition policy_summary :: "api_env \<Rightarrow> policy_config \<Rightarrow> resource_summary" where
  "policy_summary env p =
     \<lparr>rs_resource_ref = resource_ref_of env (po_id p) (po_version p) (en_policy_json env p),
      rs_description = Some (po_description p), rs_capabilities = [], rs_deprecated = False\<rparr>"

definition policies :: "api_env \<Rightarrow> config \<Rightarrow> resource_summary page" where
  "policies env config =
     \<lparr>pg_items = map (policy_summary env) (cfg_policies config), pg_next_cursor = None\<rparr>"

definition policy_handler :: "api_env \<Rightarrow> config \<Rightarrow> string \<Rightarrow> string \<Rightarrow> api_failure + resource_summary" where
  "policy_handler env config resource_id version =
     try_bind (ok_or not_found
       (find (\<lambda>p. po_id p = resource_id \<and> po_version p = version) (cfg_policies config))) (\<lambda>p.
     Inr (policy_summary env p))"

definition empty_page :: "json page" where
  "empty_page = \<lparr>pg_items = [], pg_next_cursor = None\<rparr>"

definition unavailable_session :: api_failure where
  "unavailable_session = api_failure_of 404 ''session_unavailable''
     ''persistent sessions are not available in this runtime profile'' ScopeSession"

definition unavailable_resource :: api_failure where
  "unavailable_resource = not_found"

end
