(* ===== verification/Daemon.thy ===== *)
theory Daemon
  imports Dispatch Service Handlers
begin

text \<open>
  The daemon as a whole: \<open>run\<close> of \<open>crates/service/src/lib.rs\<close> (start, then serve until the signal or
  the end of the scheduler), and the scheduler's task from its start over all its wakes to the shutdown
  (\<open>run\<close> of \<open>scheduler.rs\<close>). Between two wakes the other tasks work on the store and on the table of
  channels (\<open>wk_others\<close>, \<open>wk_channels\<close>); the capacity bound holds over the whole run.
\<close>

section \<open>The scheduler's task\<close>

datatype wake = Ticked | Notified | AttemptJoined bool | ShutdownChanged bool

record wake_env =
  wk_others :: "store \<Rightarrow> store"
  wk_channels :: "cancellations \<Rightarrow> cancellations"
  wk_probes :: "string \<Rightarrow> probe_env"
  wk_now :: time
  wk_turns :: "string \<Rightarrow> turn_env"

text \<open>
  Every wake but the shutdown (the channel closed or its value true) leads to an iteration. The
  outcome is \<open>None\<close> while the loop waits for the next wake; waiting for the attempts after the
  shutdown is left to the environment.
\<close>

fun scheduler_loop ::
  "(string \<Rightarrow> capacity_probe_response option) \<Rightarrow> config \<Rightarrow> (wake \<times> wake_env) list \<Rightarrow>
     observations \<times> store \<times> cancellations \<Rightarrow>
     (observations \<times> store \<times> cancellations) \<times> (store_error + unit) option" where
  "scheduler_loop from_slice config [] st = (st, None)"
| "scheduler_loop from_slice config ((wake, env) # wakes) (obs, s, cancels) =
     (let s0 = wk_others env s; cancels0 = wk_channels env cancels in
      if wake = ShutdownChanged True then ((obs, s0, cancel_all cancels0), Some (Inr ()))
      else (case scheduler_iteration from_slice (wk_probes env) config (wk_now env) (wk_turns env)
          (obs, s0, cancels0) of
          (st', Inl e) \<Rightarrow> (st', Some (Inl e))
        | (st', Inr outcomes) \<Rightarrow> scheduler_loop from_slice config wakes st'))"

definition service_state :: "store \<Rightarrow> api_state" where
  "service_state s = \<lparr>as_store = s, as_cancellations = Map.empty, as_notified = False\<rparr>"

record scheduler_env =
  sv_now :: time
  sv_instant :: time
  sv_reject :: "string \<Rightarrow> time \<times> stamp"
  sv_recover :: "string \<Rightarrow> time \<times> stamp \<times> stamp"

definition scheduler_run ::
  "(string \<Rightarrow> capacity_probe_response option) \<Rightarrow> scheduler_env \<Rightarrow> config \<Rightarrow> (wake \<times> wake_env) list \<Rightarrow> api_state \<Rightarrow>
     (observations \<times> store \<times> cancellations) \<times> (store_error + unit) option" where
  "scheduler_run from_slice env config wakes st =
     (case scheduler_start (sv_now env) (sv_instant env) (sv_reject env) (sv_recover env) config (as_store st) of
        ((obs, s), Inl e) \<Rightarrow> ((obs, s, as_cancellations st), Some (Inl e))
      | ((obs, s), Inr _) \<Rightarrow> scheduler_loop from_slice config wakes (obs, s, as_cancellations st))"

section \<open>The process\<close>

datatype daemon_error = StartFailed setup_error | ServeFailed serve_error

definition run_daemon ::
  "machine \<Rightarrow> config \<Rightarrow> scheduler_end \<Rightarrow> serve_input list \<Rightarrow> fs \<Rightarrow> fs \<times> (daemon_error + unit) option" where
  "run_daemon mc config stopping inputs fs =
     (case start_daemon mc config fs of
        (fs', Inl e) \<Rightarrow> (fs', Some (Inl (StartFailed e)))
      | (fs', Inr _) \<Rightarrow> (fs', map_option (map_err ServeFailed) (snd (serve stopping 0 inputs))))"

text \<open>How the scheduler's task appears to the main loop.\<close>

definition scheduler_ended :: "store_error + unit \<Rightarrow> scheduler_end" where
  "scheduler_ended res = (case res of Inl _ \<Rightarrow> SchedulerFailed | Inr _ \<Rightarrow> SchedulerReturned)"

lemma serve_ok: "snd (serve stopping n inputs) = Some (Inr ()) \<Longrightarrow>
    ShutdownSignal True \<in> set inputs \<and> stopping = SchedulerReturned"
  by (induction stopping n inputs rule: serve.induct) (auto split: serve_input.splits if_splits)

text \<open>The daemon ends without an error only after the signal, and when the scheduler did.\<close>

lemma run_daemon_ok:
  assumes "run_daemon mc config (scheduler_ended res) inputs fs = (fs', Some (Inr ()))"
  shows "ShutdownSignal True \<in> set inputs \<and> res = Inr ()"
proof -
  obtain r where r: "snd (serve (scheduler_ended res) 0 inputs) = Some r" "map_err ServeFailed r = Inr ()"
    using assms by (auto simp: run_daemon_def split: prod.splits sum.splits)
  then have "snd (serve (scheduler_ended res) 0 inputs) = Some (Inr ())"
    by (cases r) (simp_all add: map_err_def)
  from serve_ok [OF this] show ?thesis
    by (cases res) (simp_all add: scheduler_ended_def)
qed

section \<open>Capacity over the whole run\<close>

lemma finish_other: "finish now st1 st2 spec s = (s', res) \<Longrightarrow> other_step s s'"
proof -
  assume run: "finish now st1 st2 spec s = (s', res)"
  then have "length (attempts s') = length (attempts s)"
    unfolding finish_def by (elim transact_cases) (auto elim!: attempts_after_finish simp: update_where_def)
  then show ?thesis
    using store_step.finishing [OF run] by (simp add: other_step_def)
qed

lemma reject_one_other: "transact (reject_one_tx now st sid) s = (s', res) \<Longrightarrow> other_step s s'"
  by (rule other_stepI, erule store_step.rejecting, erule transact_cases)
    (auto elim!: reject_one_tx_Inr simp: append_event_tx_parts)

lemma recover_loop_others: "recover_loop env as n s = (s', res) \<Longrightarrow> other_step\<^sup>*\<^sup>* s s'"
  by (induction as arbitrary: n s)
    (auto split: prod.splits sum.splits dest!: finish_other intro: converse_rtranclp_into_rtranclp)

lemma reject_loop_others: "reject_loop env is n s = (s', res) \<Longrightarrow> other_step\<^sup>*\<^sup>* s s'"
  by (induction "is" arbitrary: n s)
    (auto split: prod.splits sum.splits dest!: reject_one_other intro: converse_rtranclp_into_rtranclp)

lemma scheduler_start_others:
  assumes "scheduler_start now instant reject_env recover_env config s = ((obs, s'), res)"
  shows "other_step\<^sup>*\<^sup>* s s'"
proof -
  obtain s1 r where one: "reject_unfrozen_queued reject_env s = (s1, r)" by fastforce
  obtain s2 r' where two: "recover_running_as_uncertain recover_env s1 = (s2, r')" by fastforce
  have "other_step\<^sup>*\<^sup>* s s1" "other_step\<^sup>*\<^sup>* s1 s2"
    using one two reject_loop_others recover_loop_others
    by (auto simp: reject_unfrozen_queued_def recover_running_as_uncertain_def)
  then show ?thesis
    using assms one two
    by (cases r; cases r') (auto simp: scheduler_start_def Let_def intro: rtranclp_trans)
qed

definition considerate_wake :: "wake_env \<Rightarrow> bool" where
  "considerate_wake env \<longleftrightarrow> (\<forall>s. other_step\<^sup>*\<^sup>* s (wk_others env s)) \<and> (\<forall>i. considerate (wk_turns env i))"

lemma scheduler_loop_bounded:
  "scheduler_loop from_slice config wakes (obs, s, cancels) = ((obs', s', cancels'), res) \<Longrightarrow>
     \<forall>(wake, env) \<in> set wakes. considerate_wake env \<Longrightarrow> wf_store s \<Longrightarrow> bounded_from config s s'"
proof (induction wakes arbitrary: obs s cancels)
  case Nil
  then show ?case by (simp add: bounded_refl)
next
  case (Cons w wakes)
  obtain wake env where w: "w = (wake, env)" by fastforce
  let ?s0 = "wk_others env s" and ?cancels0 = "wk_channels env cancels"
  have quiet: "other_step\<^sup>*\<^sup>* s ?s0" "\<forall>i. considerate (wk_turns env i)"
    using Cons.prems(2) w by (simp_all add: considerate_wake_def)
  have zero: "bounded_from config s ?s0"
    using quiet(1) Cons.prems(3) by (rule bounded_others)
  then have wf0: "wf_store ?s0" by (simp add: bounded_from_def)
  have "bounded_from config ?s0 s'"
  proof (cases "wake = ShutdownChanged True")
    case True
    then show ?thesis
      using Cons.prems(1) w bounded_refl [OF wf0] by (simp add: Let_def)
  next
    case False
    obtain obs1 s1 cancels1 r where iter: "scheduler_iteration from_slice (wk_probes env) config (wk_now env)
        (wk_turns env) (obs, ?s0, ?cancels0) = ((obs1, s1, cancels1), r)"
      by (metis prod.collapse)
    have one: "bounded_from config ?s0 s1"
      using scheduler_iteration_bounded [OF iter quiet(2) wf0] .
    show ?thesis
    proof (cases r)
      case (Inl e)
      then show ?thesis using Cons.prems(1) w False iter one by (simp add: Let_def)
    next
      case (Inr outcomes)
      then have "scheduler_loop from_slice config wakes (obs1, s1, cancels1) = ((obs', s', cancels'), res)"
        using Cons.prems(1) w False iter by (simp add: Let_def)
      from Cons.IH [OF this] show ?thesis
        using Cons.prems(2) one bounded_trans [OF one] by (simp add: bounded_from_def)
    qed
  qed
  then show ?case by (rule bounded_trans [OF zero])
qed

text \<open>
  C29: the scheduler never brings a source over its configured limit less its reserve. From the
  start of the daemon, on whatever well-formed database it finds (\<open>wf_store\<close>, as every database that
  the store's methods have made, C1), over any number of wakes, however the queue,
  the probes, the clocks and the other tasks behave (they may finish, cancel, accept or log anything
  at any time, but not claim): what a source holds is at most that room, or what the uncertain and
  unfinished attempts of an earlier run already held.
\<close>

theorem scheduler_respects_capacity:
  assumes "scheduler_run from_slice env config wakes (service_state s) = ((obs, s', cancels), res)"
    and "\<forall>(wake, wenv) \<in> set wakes. considerate_wake wenv" and "wf_store s"
  shows "wf_store s' \<and> held i s' \<le> max (held i s) (source_room config i)"
proof -
  obtain obs1 s1 r where start:
    "scheduler_start (sv_now env) (sv_instant env) (sv_reject env) (sv_recover env) config s = ((obs1, s1), r)"
    by (metis prod.collapse)
  have one: "bounded_from config s s1"
    using scheduler_start_others [OF start] assms(3) by (rule bounded_others)
  have "bounded_from config s s'"
  proof (cases r)
    case (Inl e)
    then show ?thesis using assms(1) start one by (simp add: scheduler_run_def service_state_def)
  next
    case (Inr u)
    then have "scheduler_loop from_slice config wakes (obs1, s1, Map.empty) = ((obs, s', cancels), res)"
      using assms(1) start by (simp add: scheduler_run_def service_state_def)
    from scheduler_loop_bounded [OF this assms(2)] show ?thesis
      using one bounded_trans [OF one] by (simp add: bounded_from_def)
  qed
  then show ?thesis by (simp add: bounded_from_def)
qed

definition demo_wake :: wake_env where
  "demo_wake = \<lparr>wk_others = (\<lambda>s. s), wk_channels = (\<lambda>c. c),
     wk_probes = (\<lambda>_. \<lparr>pe_instant = 0, pe_child = SpawnFailed, pe_checked_at = 0, pe_received_at = 0,
       pe_polled_at = 0\<rparr>),
     wk_now = 5, wk_turns = demo_turn\<rparr>"

definition demo_scheduler_env :: scheduler_env where
  "demo_scheduler_env = \<lparr>sv_now = 4, sv_instant = 0, sv_reject = (\<lambda>_. (4, (''r'', 4))),
     sv_recover = (\<lambda>_. (4, (''r1'', 4), (''r2'', 4)))\<rparr>"

definition demo_run where
  "demo_run = scheduler_run (\<lambda>_. None) demo_scheduler_env demo_config
     [(Ticked, demo_wake), (Notified, demo_wake), (ShutdownChanged True, demo_wake)] (service_state demo_queued)"

lemma scheduler_respects_capacity_witness:
  "held ''src'' (fst (snd (fst demo_run))) = 1 \<and>
   held ''src'' (fst (snd (fst demo_run))) \<le> max (held ''src'' demo_queued) (source_room demo_config ''src'')"
proof
  show "held ''src'' (fst (snd (fst demo_run))) = 1" by code_simp
  obtain obs s' cancels res where run: "demo_run = ((obs, s', cancels), res)"
    by (metis prod.collapse)
  have quiet: "considerate_wake demo_wake"
    by (simp add: considerate_wake_def demo_wake_def considerate_def demo_turn_def)
  have "held ''src'' s' \<le> max (held ''src'' demo_queued) (source_room demo_config ''src'')"
    using scheduler_respects_capacity [OF run [unfolded demo_run_def]] quiet wf_reachable [OF demo_reachable(1)]
    by auto
  then show "held ''src'' (fst (snd (fst demo_run))) \<le>
      max (held ''src'' demo_queued) (source_room demo_config ''src'')"
    by (simp only: run fst_conv snd_conv)
qed

end
