(* ===== verification/Attempts.thy ===== *)
theory Attempts
  imports Scheduler Demo
begin

text \<open>
  The task of one attempt: what it records when it ends (safety, whatever other tasks do to the
  store meanwhile), and that it does end with a terminal state (liveness, for fresh event
  identifiers).
\<close>

section \<open>What finishing records\<close>

definition recorded :: "finish_spec \<Rightarrow> store \<Rightarrow> bool" where
  "recorded spec s \<longleftrightarrow> (\<exists>r. fetch_submission (fin_submission_id spec) s = Some r \<and>
     s_state r = state_name (fin_state spec) \<and> s_result_text r = fin_output spec \<and>
     s_result_truncated r = fin_truncated spec \<and> s_error r = fin_error spec)"

lemma finish_recorded:
  assumes wf: "wf_store s" and fin: "finish now st1 st2 spec s = (s', Inr u)"
  shows "recorded spec s'"
proof -
  have tx: "finish_tx now st1 st2 spec s = Inr (s', u)"
    using fin by (auto simp: finish_def elim: transact_cases)
  then show ?thesis
  proof (rule finish_tx_Inr)
    fix name s1 s2 ev1 ev2
    assume app: "append_event_tx st1 (fin_submission_id spec) (Some (fin_attempt_id spec))
         ''attempt.state_changed'' (JObject [(''to'', JString name)]) (finished now name spec s) = Inr (s1, ev1)"
      "append_event_tx st2 (fin_submission_id spec) (Some (fin_attempt_id spec))
         ''submission.state_changed''
         (JObject [(''from'', JString ''running''), (''to'', JString (state_name (fin_state spec)))]) s1
         = Inr (s2, ev2)"
      and s': "s' = send_events [ev1, ev2] s2"
      and one: "count_where (finishing_row spec) (submissions s) = 1"
    obtain r where r: "fetch_submission (fin_submission_id spec) s = Some r" "s_state r = ''running''"
      by (rule finishing_row_fetch [OF wf one])
    then have "fetch_submission (fin_submission_id spec) s' =
        Some (bump_sequence (bump_sequence (finish_submission now spec r)))"
      using fetch_member [OF r(1)]
      by (simp add: s' fetch_after_append [OF app(1)] fetch_after_append [OF app(2)] fetch_finished
          finish_submission_def)
    then show ?thesis
      by (simp add: recorded_def finish_submission_def)
  qed
qed

lemma finish_wf: "finish now st1 st2 spec s = (s', res) \<Longrightarrow> wf_store s \<Longrightarrow> wf_store s'"
  by (rule wf_step [OF store_step.finishing])

lemma recorded_terminal:
  "recorded spec s \<Longrightarrow> state_of (fin_submission_id spec) s = Some (fin_state spec)"
  by (auto simp: recorded_def state_of_Some)

section \<open>Events\<close>

lemma terminal_spec_iff: "terminal_event e \<longleftrightarrow> (\<exists>spec. terminal_spec n sid aid e = Some spec)"
  by (cases e) (auto simp: terminal_spec_def terminal_event_def split: prod.split)

lemma terminal_spec_fields:
  "terminal_spec n sid aid e = Some spec \<Longrightarrow> fin_submission_id spec = sid \<and> fin_attempt_id spec = aid \<and>
     terminal (fin_state spec) \<and> (\<exists>name. finish_attempt_state (fin_state spec) = Some name)"
  by (cases e) (auto simp: terminal_spec_def finish_as_def split: prod.splits)

lemma log_event_step: "log_event sid aid st e s = (s', res) \<Longrightarrow> store_step\<^sup>*\<^sup>* s s'"
  by (auto simp: log_event_def split: option.splits prod.splits sum.splits
      dest!: store_step.agent_event)

lemma log_event_result: "log_event sid aid st e s = (s', Inr b) \<Longrightarrow> \<not> b"
  by (auto simp: log_event_def split: option.splits prod.splits sum.splits)

lemma handle_event_terminal:
  assumes "terminal_spec n sid aid e = Some spec"
  shows "handle_event n sid aid env e s =
    (case finish (ee_now env) (ee_stamp1 env) (ee_stamp2 env) spec s of
       (s', Inl err) \<Rightarrow> (s', Inl err) | (s', Inr _) \<Rightarrow> (s', Inr True))"
  using assms by (simp add: handle_event_def)

lemma handle_event_other:
  assumes run: "handle_event n sid aid env e s = (s', res)" and no: "\<not> terminal_event e"
  shows "store_step\<^sup>*\<^sup>* s s' \<and> (\<forall>b. res = Inr b \<longrightarrow> \<not> b)"
proof -
  have none: "terminal_spec n sid aid e = None"
    using no terminal_spec_iff by (metis not_None_eq)
  show ?thesis
  proof (cases "\<exists>version. e = Started version")
    case True
    then obtain version where e: "e = Started version" by blast
    obtain s1 r where mark: "mark_attempt_running (ee_stamp1 env) sid aid version s = (s1, r)"
      by fastforce
    have "store_step s s1" using mark by (rule store_step.marking)
    then show ?thesis
      using run none mark e
      by (cases r) (auto simp: handle_event_def
          intro: converse_rtranclp_into_rtranclp log_event_step dest: log_event_result)
  next
    case False
    then have "log_event sid aid (ee_stamp1 env) e s = (s', res)"
      using run none by (cases e) (simp_all add: handle_event_def)
    then show ?thesis by (auto dest: log_event_step log_event_result)
  qed
qed

text \<open>Other tasks may do anything to the store around an event.\<close>

definition rely :: "event_env \<Rightarrow> bool" where
  "rely env \<longleftrightarrow> (\<forall>s. store_step\<^sup>*\<^sup>* s (ee_between env s))"

lemma attempt_loop_recorded:
  "attempt_loop n sid aid evs s = (s', Inr ended) \<Longrightarrow> wf_store s \<Longrightarrow> \<forall>(e, env) \<in> set evs. rely env \<Longrightarrow>
     wf_store s' \<and> (case find terminal_event (map fst evs) of
        None \<Rightarrow> \<not> ended
      | Some e \<Rightarrow> ended \<and> (\<exists>spec. terminal_spec n sid aid e = Some spec \<and> recorded spec s'))"
proof (induction evs arbitrary: s)
  case (Cons ev evs)
  obtain e env where ev: "ev = (e, env)" by fastforce
  have "store_step\<^sup>*\<^sup>* s (ee_between env s)"
    using Cons.prems(3) ev by (simp add: rely_def)
  then have wf: "wf_store (ee_between env s)" using Cons.prems(2) by (rule wf_steps)
  obtain s1 r where h: "handle_event n sid aid env e (ee_between env s) = (s1, r)" by fastforce
  show ?case
  proof (cases "terminal_event e")
    case True
    then obtain spec where spec: "terminal_spec n sid aid e = Some spec"
      using terminal_spec_iff by blast
    obtain s2 f where fin: "finish (ee_now env) (ee_stamp1 env) (ee_stamp2 env) spec (ee_between env s) = (s2, f)"
      by fastforce
    then have "f = Inr () \<and> s' = s2 \<and> ended"
      using Cons.prems(1) ev by (cases f) (auto simp: handle_event_terminal [OF spec])
    then show ?thesis
      using True ev spec fin finish_recorded [OF wf, of "ee_now env"] finish_wf [OF fin wf] by auto
  next
    case False
    have step: "store_step\<^sup>*\<^sup>* (ee_between env s) s1" and "r = Inr b \<Longrightarrow> \<not> b" for b
      using handle_event_other [OF h False] by auto
    then have "attempt_loop n sid aid evs s1 = (s', Inr ended)"
      using Cons.prems(1) ev h by (auto split: sum.splits bool.splits)
    from Cons.IH [OF this wf_steps [OF step wf]] show ?thesis
      using Cons.prems(3) ev False by simp
  qed
qed simp

definition lost_error :: error_detail where
  "lost_error = attempt_error ''runner_lost'' ''local runner exited without a terminal report''"

text \<open>
  C30: an attempt whose task succeeds leaves exactly what the runner reported: the first
  terminal event decides the state, the output (cut to the configured size, with the flag) and
  the error; later events are ignored; a runner that ends without a terminal event is
  \<open>uncertain\<close>. This holds whatever other tasks do to the store in between.
\<close>

theorem attempt_records_report:
  assumes "run_attempt config q aid d runner closing s = (s', Inr ())"
    and "attempt_request config q aid d = Inr request"
    and "wf_store s" and "rely closing" and "\<forall>(e, env) \<in> set (runner request). rely env"
  shows "case find terminal_event (map fst (runner request)) of
      None \<Rightarrow> recorded (finish_as (q_submission_id q) aid Uncertain None False (Some lost_error)) s'
    | Some (RunCompleted text) \<Rightarrow> recorded (finish_as (q_submission_id q) aid Completed
        (Some (truncate_to_bytes text (unat (dc_max_inline_output_bytes (cfg_daemon config)))))
        (unat (dc_max_inline_output_bytes (cfg_daemon config)) < length text) None) s'
    | Some RunCancelled \<Rightarrow> recorded (finish_as (q_submission_id q) aid Cancelled None False None) s'
    | Some (RunFailed code message) \<Rightarrow> recorded (finish_as (q_submission_id q) aid Failed None False
        (Some (attempt_error code message))) s'
    | Some (RunUncertain code message) \<Rightarrow> recorded (finish_as (q_submission_id q) aid Uncertain None False
        (Some (attempt_error code message))) s'
    | _ \<Rightarrow> False"
proof -
  let ?n = "unat (dc_max_inline_output_bytes (cfg_daemon config))" and ?sid = "q_submission_id q"
  obtain s1 ended where loop: "attempt_loop ?n ?sid aid (runner request) s = (s1, Inr ended)"
    using assms(1,2) by (auto simp: run_attempt_def split: prod.splits sum.splits)
  note rec = attempt_loop_recorded [OF loop assms(3,5)]
  have cut: "truncate_output t ?n = (truncate_to_bytes t ?n, ?n < length t)" for t
    by (simp add: truncate_output_def truncate_to_bytes_def)
  show ?thesis
  proof (cases "find terminal_event (map fst (runner request))")
    case None
    then have "\<not> ended" and wf1: "wf_store s1" using rec by simp_all
    have wf2: "wf_store (ee_between closing s1)"
      using assms(4) wf1 by (auto simp: rely_def intro: wf_steps)
    have "finish (ee_now closing) (ee_stamp1 closing) (ee_stamp2 closing)
        (finish_as ?sid aid Uncertain None False (Some lost_error)) (ee_between closing s1) = (s', Inr ())"
      using assms(1,2) loop \<open>\<not> ended\<close>
      by (auto simp: run_attempt_def lost_error_def split: prod.splits sum.splits)
    then show ?thesis using None finish_recorded [OF wf2] by simp
  next
    case (Some e)
    then obtain spec where spec: "terminal_spec ?n ?sid aid e = Some spec" "recorded spec s1" "ended"
      using rec by auto
    then have "s' = s1" using assms(1,2) loop by (auto simp: run_attempt_def)
    then show ?thesis
      using Some spec by (cases e) (auto simp: terminal_spec_def cut)
  qed
qed

definition demo_event_env :: "string \<Rightarrow> event_env" where
  "demo_event_env i = \<lparr>ee_between = (\<lambda>s. s), ee_now = 6, ee_stamp1 = (''p'' @ i, 6), ee_stamp2 = (''q'' @ i, 6)\<rparr>"

definition demo_runner :: "runner_request \<Rightarrow> (runtime_event \<times> event_env) list" where
  "demo_runner request = [(Started None, demo_event_env ''1''), (MessageDelta ''0123'', demo_event_env ''2''),
     (RunCompleted ''0123456789'', demo_event_env ''3''), (RunCancelled, demo_event_env ''4'')]"

definition demo_dispatch :: dispatch where
  "demo_dispatch = \<lparr>dp_route_id = ''r1'', dp_adapter = ''opencode'', dp_source_id = ''src'',
     dp_source_label = ''Src'', dp_model = None, dp_target_id = ''local''\<rparr>"

definition demo_taken :: queued_submission where
  "demo_taken = \<lparr>q_submission_id = ''sub_1'', q_request = demo_request, q_priority = 50,
     q_created_at = 0, q_not_before = None, q_start_deadline = None, q_workspace_key = Some ''/w'',
     q_workspace_access = Some ''writable'', q_profile = demo_profile, q_policy = demo_policy,
     q_routes = [demo_route]\<rparr>"

lemma rely_demo [simp]: "rely (demo_event_env i)"
  by (simp add: rely_def demo_event_env_def)

lemma demo_between: "\<forall>s. ee_between (demo_event_env i) s = s \<and> ee_between (demo_event_env j) s = s"
  by (simp add: demo_event_env_def)

lemma demo_runner_between: "\<forall>request. \<forall>(e, env) \<in> set (demo_runner request). \<forall>s. ee_between env s = s"
  by (simp add: demo_runner_def demo_event_env_def)

lemma demo_attempt_request: "\<exists>request. attempt_request demo_config demo_taken ''att_1'' demo_dispatch = Inr request"
proof -
  have "case attempt_request demo_config demo_taken ''att_1'' demo_dispatch of Inl _ \<Rightarrow> False | Inr _ \<Rightarrow> True"
    by code_simp
  then show ?thesis by (auto split: sum.splits)
qed

lemma attempt_records_report_witness:
  "recorded (finish_as ''sub_1'' ''att_1'' Completed (Some ''01234567'') True None)
     (fst (run_attempt demo_config demo_taken ''att_1'' demo_dispatch demo_runner (demo_event_env ''5'') demo_running))"
proof -
  obtain request where request: "attempt_request demo_config demo_taken ''att_1'' demo_dispatch = Inr request"
    using demo_attempt_request by blast
  have "snd (run_attempt demo_config demo_taken ''att_1'' demo_dispatch demo_runner (demo_event_env ''5'') demo_running) = Inr ()"
    by code_simp
  then obtain s' where run: "run_attempt demo_config demo_taken ''att_1'' demo_dispatch demo_runner
      (demo_event_env ''5'') demo_running = (s', Inr ())"
    by (metis prod.collapse)
  have first: "find terminal_event (map fst (demo_runner request)) = Some (RunCompleted ''0123456789'')"
    by (simp add: demo_runner_def terminal_event_def)
  have size: "unat (dc_max_inline_output_bytes (cfg_daemon demo_config)) = 8"
    "truncate_to_bytes ''0123456789'' 8 = ''01234567''" "q_submission_id demo_taken = ''sub_1''"
    by (simp add: demo_config_def) (code_simp, simp add: demo_taken_def)
  have "\<forall>(e, env) \<in> set (demo_runner request). rely env"
    by (simp add: demo_runner_def)
  from attempt_records_report [OF run request wf_reachable [OF demo_reachable(2)] rely_demo this]
  show ?thesis
    by (simp add: run first size)
qed

section \<open>Attempts end\<close>

definition owns :: "string \<Rightarrow> string \<Rightarrow> store \<Rightarrow> bool" where
  "owns sid aid s \<longleftrightarrow> (\<exists>a \<in> set (attempts s). a_attempt_id a = aid \<and> a_submission_id a = sid \<and> active_attempt a)"

definition event_ids :: "event_env \<Rightarrow> string list" where
  "event_ids env = [fst (ee_stamp1 env), fst (ee_stamp2 env)]"

text \<open>What an attempt needs to go on: its row, new identifiers, room in the counter.\<close>

definition ready :: "string \<Rightarrow> string \<Rightarrow> string list \<Rightarrow> int \<Rightarrow> store \<Rightarrow> bool" where
  "ready sid aid ids k s \<longleftrightarrow> wf_store s \<and> owns sid aid s \<and> fresh_ids ids s \<and> room k sid s"

lemma ready_row: "ready sid aid ids k s \<Longrightarrow> \<exists>r. fetch_submission sid s = Some r"
  by (auto simp: ready_def owns_def elim: active_attempt_running)

lemma room_less: "room (k + n) i s \<Longrightarrow> 0 \<le> n \<Longrightarrow> room k i s"
  by (auto simp: room_def)

lemma fresh_ids_skip: "fresh_ids (x # ids) s \<Longrightarrow> fresh_ids ids s"
  by (simp add: fresh_ids_def)

lemma ready_weaken: "ready sid aid (x # y # ids) (k + 2) s \<Longrightarrow> ready sid aid (x # ids) (k + 1) s"
  by (auto simp: ready_def fresh_ids_def room_def)

lemma ready_after_append:
  assumes "append_event_tx st sid att ty data s0 = Inr (s1, ev)" and "wf_store s1"
    and "owns sid aid s0" "fresh_ids (fst st # ids) s0" "room (k + 1) sid s0"
  shows "ready sid aid ids k (send_events [ev] s1)"
proof -
  have "fresh_ids ids s1" "room k sid s1"
    using fresh_after_append [OF assms(1,4)] room_after_append [OF assms(1,5)] by simp_all
  then show ?thesis
    using assms(2,3) by (simp add: ready_def owns_def fresh_ids_def room_def append_event_tx_parts [OF assms(1)])
qed

lemma ready_append:
  assumes "ready sid aid (fst st # ids) (k + 1) s" and "0 \<le> k"
  shows "\<exists>s'. append_agent_event st sid aid ty data s = (s', Inr ()) \<and> ready sid aid ids k s'"
proof -
  have wf: "wf_store s" and own: "owns sid aid s" and fresh: "fresh_ids (fst st # ids) s" and room: "room (k + 1) sid s"
    using assms by (simp_all add: ready_def)
  obtain r where r: "fetch_submission sid s = Some r"
    using ready_row [OF assms(1)] by blast
  have "room 1 sid s" using room assms(2) by (auto simp: room_def)
  then obtain s1 ev where app: "append_event_tx st sid (Some aid) ty data s = Inr (s1, ev)"
    using append_event_ok [OF _ r fresh_ids_head [OF fresh]] wf unfolding wf_store_def by blast
  then have "append_agent_event st sid aid ty data s = (send_events [ev] s1, Inr ())"
    by (simp add: append_agent_event_def transact_def)
  then show ?thesis
    using ready_after_append [OF app wf_append [OF app wf] own fresh room] by blast
qed

lemma owns_mark:
  assumes "owns sid aid s"
  shows "owns sid aid (s\<lparr>attempts := update_where (starting_row sid aid) (mark_row version) (attempts s)\<rparr>)"
proof -
  obtain a where a: "a \<in> set (attempts s)" "a_attempt_id a = aid" "a_submission_id a = sid" "active_attempt a"
    using assms by (auto simp: owns_def)
  let ?b = "if starting_row sid aid a then mark_row version a else a"
  have "?b \<in> set (update_where (starting_row sid aid) (mark_row version) (attempts s))"
    using a(1) by (auto simp: set_update_where)
  moreover have "a_attempt_id ?b = aid" "a_submission_id ?b = sid" "active_attempt ?b"
    using a by (auto simp: mark_row_def active_attempt_def)
  ultimately show ?thesis by (auto simp: owns_def)
qed

lemma ready_mark:
  assumes "ready sid aid (fst st # ids) (k + 1) s" and "0 \<le> k"
  shows "\<exists>s'. mark_attempt_running st sid aid version s = (s', Inr ()) \<and> ready sid aid ids k s'"
proof (cases "count_where (starting_row sid aid) (attempts s) = 0")
  case True
  then have "mark_attempt_running st sid aid version s = (s, Inr ())"
    by (simp add: mark_attempt_running_def transact_def mark_attempt_running_tx_def Let_def)
  then show ?thesis
    using assms by (auto simp: ready_def fresh_ids_def room_def)
next
  case False
  let ?s0 = "s\<lparr>attempts := update_where (starting_row sid aid) (mark_row version) (attempts s)\<rparr>"
  have wf: "wf_store s" and own: "owns sid aid s" and fresh: "fresh_ids (fst st # ids) s" and room: "room (k + 1) sid s"
    using assms by (simp_all add: ready_def)
  obtain r where r: "fetch_submission sid ?s0 = Some r"
    using ready_row [OF assms(1)] by (auto simp: fetch_submission_def)
  have log: "log_ok ?s0" using wf by (simp add: wf_store_def log_ok_def)
  have own0: "owns sid aid ?s0"
    by (rule owns_mark [OF own])
  have fresh0: "fresh_ids (fst st # ids) ?s0" and room0: "room (k + 1) sid ?s0"
    using fresh room by (simp_all add: fresh_ids_def room_def fetch_submission_def)
  have "room 1 sid ?s0" using room0 assms(2) by (auto simp: room_def)
  then obtain s1 ev where app: "append_event_tx st sid (Some aid) ''attempt.state_changed''
      (JObject [(''from'', JString ''starting''), (''to'', JString ''running'')]) ?s0 = Inr (s1, ev)"
    using append_event_ok [OF log r fresh_ids_head [OF fresh0]] by blast
  then have tx: "mark_attempt_running_tx st sid aid version s = Inr (send_events [ev] s1, ())"
    using False by (simp add: mark_attempt_running_tx_def Let_def mark_row_def [abs_def])
  have "wf_store s1"
    using wf_mark_attempt_running_tx [OF wf tx] by simp
  then show ?thesis
    using tx ready_after_append [OF app _ own0 fresh0 room0]
    by (auto simp: mark_attempt_running_def transact_def)
qed

lemma ready_finish:
  assumes "ready sid aid (fst st1 # fst st2 # ids) (k + 2) s" and "0 \<le> k"
    and "fin_submission_id spec = sid" "fin_attempt_id spec = aid"
    and "finish_attempt_state (fin_state spec) = Some name"
  shows "\<exists>s'. finish now st1 st2 spec s = (s', Inr ())"
proof -
  obtain a where a: "a \<in> set (attempts s)" "a_attempt_id a = aid" "a_submission_id a = sid" "active_attempt a"
    using assms(1) by (auto simp: ready_def owns_def)
  have "wf_store s" "fresh_ids (fst st1 # fst st2 # ids) s" "room 2 (a_submission_id a) s"
    using assms(1,2) a(3) by (auto simp: ready_def room_def)
  then obtain s' where "finish_tx now st1 st2 spec s = Inr (s', ())"
    using finish_tx_ok [of s a spec name st1 st2 ids now] a assms(3-5) by auto
  then show ?thesis by (simp add: finish_def transact_def)
qed

lemma finish_as_simps [simp]:
  "fin_submission_id (finish_as sid aid st out shortened err) = sid"
  "fin_attempt_id (finish_as sid aid st out shortened err) = aid"
  "fin_state (finish_as sid aid st out shortened err) = st"
  "finish_attempt_state Uncertain = Some ''uncertain''"
  by (simp_all add: finish_as_def)

lemma handle_event_ready:
  assumes ready: "ready sid aid (event_ids env @ ids) (k + 2) s" and k: "0 \<le> k"
  shows "\<exists>s' ended. handle_event n sid aid env e s = (s', Inr ended) \<and> (\<not> ended \<longrightarrow> ready sid aid ids k s')"
proof -
  have two: "ready sid aid (fst (ee_stamp1 env) # fst (ee_stamp2 env) # ids) (k + 2) s"
    using ready by (simp add: event_ids_def)
  have k1: "ready sid aid (fst (ee_stamp1 env) # fst (ee_stamp2 env) # ids) ((k + 1) + 1) s" "0 \<le> k + 1"
    using two k by (simp_all add: algebra_simps)
  show ?thesis
  proof (cases "terminal_event e")
    case True
    then obtain spec where spec: "terminal_spec n sid aid e = Some spec"
      using terminal_spec_iff by blast
    then obtain name where "finish_attempt_state (fin_state spec) = Some name"
      "fin_submission_id spec = sid" "fin_attempt_id spec = aid"
      using terminal_spec_fields by blast
    then obtain s' where "finish (ee_now env) (ee_stamp1 env) (ee_stamp2 env) spec s = (s', Inr ())"
      using ready_finish [OF two k] by blast
    then show ?thesis by (auto simp: handle_event_terminal [OF spec])
  next
    case False
    then have none: "terminal_spec n sid aid e = None"
      using terminal_spec_iff by (metis not_None_eq)
    obtain ty data where kept: "event_record e = Some (ty, data)"
      using False by (cases e) (auto simp: event_record_def terminal_event_def)
    show ?thesis
    proof (cases "\<exists>version. e = Started version")
      case True
      then obtain version where e: "e = Started version" by blast
      obtain s1 where s1: "mark_attempt_running (ee_stamp1 env) sid aid version s = (s1, Inr ())"
        "ready sid aid (fst (ee_stamp2 env) # ids) (k + 1) s1"
        using ready_mark [OF k1] by blast
      obtain s2 where "append_agent_event (ee_stamp2 env) sid aid ty data s1 = (s2, Inr ())" "ready sid aid ids k s2"
        using ready_append [OF s1(2) k] by blast
      then show ?thesis
        using none s1(1) kept by (auto simp: handle_event_def e log_event_def)
    next
      case other: False
      have one: "ready sid aid (fst (ee_stamp1 env) # ids) (k + 1) s"
        by (rule ready_weaken [OF two])
      obtain s1 where "append_agent_event (ee_stamp1 env) sid aid ty data s = (s1, Inr ())" "ready sid aid ids k s1"
        using ready_append [OF one k] by blast
      then have "log_event sid aid (ee_stamp1 env) e s = (s1, Inr False)" "ready sid aid ids k s1"
        using kept by (simp_all add: log_event_def)
      then show ?thesis
        using none other by (cases e) (auto simp: handle_event_def)
    qed
  qed
qed

lemma quiet_rely:
  "\<forall>(e, env) \<in> set evs. \<forall>s. ee_between env s = s \<Longrightarrow> \<forall>(e, env) \<in> set evs. rely env"
  by (auto simp: rely_def)

lemma attempt_loop_ready:
  "ready sid aid (concat (map (\<lambda>ev. event_ids (snd ev)) evs) @ ids) (2 * int (length evs) + k) s \<Longrightarrow> 0 \<le> k \<Longrightarrow>
     \<forall>(e, env) \<in> set evs. \<forall>s. ee_between env s = s \<Longrightarrow>
     \<exists>s' ended. attempt_loop n sid aid evs s = (s', Inr ended) \<and> (\<not> ended \<longrightarrow> ready sid aid ids k s')"
proof (induction evs arbitrary: s)
  case (Cons ev evs)
  obtain e env where ev: "ev = (e, env)" by fastforce
  have "ready sid aid (event_ids env @ concat (map (\<lambda>ev. event_ids (snd ev)) evs) @ ids)
      (2 * int (length evs) + k + 2) s"
    using Cons.prems(1) by (simp add: ev algebra_simps)
  then obtain s1 ended where one: "handle_event n sid aid env e s = (s1, Inr ended)"
    and next_ready: "\<not> ended \<longrightarrow> ready sid aid (concat (map (\<lambda>ev. event_ids (snd ev)) evs) @ ids) (2 * int (length evs) + k) s1"
    using handle_event_ready Cons.prems(2) by (meson add_nonneg_nonneg of_nat_0_le_iff zero_le_mult_iff zero_le_numeral)
  show ?case
    using one next_ready Cons.IH [of s1] Cons.prems(2,3) ev by (cases ended) auto
qed auto

text \<open>The two ways an attempt task ends without a terminal event.\<close>

lemma ready_uncertain:
  assumes ready: "ready sid aid (event_ids env @ ids) 4 s"
  shows "\<exists>s'. finish (ee_now env) (ee_stamp1 env) (ee_stamp2 env) (finish_as sid aid Uncertain None False err) s
      = (s', Inr ()) \<and> state_of sid s' = Some Uncertain"
proof -
  have four: "ready sid aid (fst (ee_stamp1 env) # fst (ee_stamp2 env) # ids) (2 + 2) s"
    using ready by (simp add: event_ids_def)
  obtain s' where fin: "finish (ee_now env) (ee_stamp1 env) (ee_stamp2 env)
      (finish_as sid aid Uncertain None False err) s = (s', Inr ())"
    using ready_finish [of sid aid "ee_stamp1 env" "ee_stamp2 env" ids 2 s
        "finish_as sid aid Uncertain None False err" "''uncertain''" "ee_now env", OF four]
    by auto
  have "wf_store s" using ready by (simp add: ready_def)
  from recorded_terminal [OF finish_recorded [OF this fin]] fin show ?thesis
    by auto
qed

text \<open>
  C31: an attempt always ends: if nobody else interferes, the event identifiers are new and the
  counter has room, the task ends - after any events whatsoever, also if the runner could not
  even be started - with the Submission in a terminal state and its channel gone.
\<close>

theorem attempt_task_ends:
  assumes "ready (q_submission_id q) aid
      (concat (map (\<lambda>ev. event_ids (snd ev)) (case attempt_request config q aid d of Inl _ \<Rightarrow> [] | Inr request \<Rightarrow> runner request)) @
        event_ids closing @ event_ids failing)
      (2 * int (length (case attempt_request config q aid d of Inl _ \<Rightarrow> [] | Inr request \<Rightarrow> runner request)) + 4) s"
    and "\<forall>s. ee_between closing s = s \<and> ee_between failing s = s"
    and "\<forall>request. \<forall>(e, env) \<in> set (runner request). \<forall>s. ee_between env s = s"
    and "attempt_task config q aid d runner closing failing (s, cancels) = (s', cancels')"
  shows "\<exists>x. state_of (q_submission_id q) s' = Some x \<and> terminal x \<and> cancels' (q_submission_id q) = None"
proof -
  let ?sid = "q_submission_id q"
  have wf: "wf_store s" using assms(1) by (simp add: ready_def)
  note lost = ready_uncertain [of ?sid aid]
  show ?thesis
  proof (cases "attempt_request config q aid d")
    case (Inl e)
    have "ready ?sid aid (event_ids failing @ []) 4 s"
      using assms(1) Inl by (auto simp: ready_def fresh_ids_def event_ids_def)
    from lost [OF this] obtain s2 where "finish (ee_now failing) (ee_stamp1 failing) (ee_stamp2 failing)
        (finish_as ?sid aid Uncertain None False
          (Some (attempt_error ''runner_lost'' ''attempt control failed before a terminal report''))) s = (s2, Inr ())"
      "state_of ?sid s2 = Some Uncertain" by blast
    then show ?thesis
      using assms(2,4) Inl by (auto simp: attempt_task_def run_attempt_def)
  next
    case (Inr request)
    let ?n = "unat (dc_max_inline_output_bytes (cfg_daemon config))"
    have start: "ready ?sid aid (concat (map (\<lambda>ev. event_ids (snd ev)) (runner request)) @
        (event_ids closing @ event_ids failing)) (2 * int (length (runner request)) + 4) s"
      using assms(1) unfolding Inr sum.case .
    have nonneg: "(0::int) \<le> 4" by simp
    obtain s1 ended where loop: "attempt_loop ?n ?sid aid (runner request) s = (s1, Inr ended)"
      and rest: "\<not> ended \<longrightarrow> ready ?sid aid (event_ids closing @ event_ids failing) 4 s1"
      using attempt_loop_ready [OF start nonneg spec [OF assms(3)], of ?n] by blast
    have relied: "\<forall>(e, env) \<in> set (runner request). rely env"
      using spec [OF assms(3), of request] by (rule quiet_rely)
    note rec = attempt_loop_recorded [OF loop wf relied]
    show ?thesis
    proof (cases ended)
      case True
      then obtain e spec where spec: "terminal_spec ?n ?sid aid e = Some spec" "recorded spec s1"
        using rec by (auto split: option.splits)
      then have "state_of ?sid s1 = Some (fin_state spec)" "terminal (fin_state spec)"
        using recorded_terminal terminal_spec_fields by metis+
      then show ?thesis
        using assms(4) Inr loop True by (auto simp: attempt_task_def run_attempt_def)
    next
      case False
      then obtain s2 where "finish (ee_now closing) (ee_stamp1 closing) (ee_stamp2 closing)
          (finish_as ?sid aid Uncertain None False
            (Some (attempt_error ''runner_lost'' ''local runner exited without a terminal report''))) s1 = (s2, Inr ())"
        "state_of ?sid s2 = Some Uncertain"
        using lost rest by blast
      then show ?thesis
        using assms(2,4) Inr loop False by (auto simp: attempt_task_def run_attempt_def)
    qed
  qed
qed

lemma attempt_task_ends_witness:
  "\<exists>x. state_of ''sub_1'' (fst (attempt_task demo_config demo_taken ''att_1'' demo_dispatch demo_runner
     (demo_event_env ''5'') (demo_event_env ''6'') (demo_running, [''sub_1'' \<mapsto> False]))) = Some x \<and> terminal x"
proof -
  obtain request where request: "attempt_request demo_config demo_taken ''att_1'' demo_dispatch = Inr request"
    using demo_attempt_request by blast
  have sid: "q_submission_id demo_taken = ''sub_1''" by (simp add: demo_taken_def)
  have logged: "map e_event_id (events demo_running) = [''evt_e1'', ''evt_e2'', ''evt_e3'']"
    by code_simp
  have row: "\<forall>r \<in> set (submissions demo_running). s_latest_event_sequence r + 12 < 2 ^ 63"
    "list_ex (\<lambda>a. a_attempt_id a = ''att_1'' \<and> a_submission_id a = ''sub_1'' \<and> active_attempt a) (attempts demo_running)"
    by code_simp+
  have "fresh_ids (concat (map (\<lambda>ev. event_ids (snd ev)) (demo_runner request)) @ event_ids (demo_event_env ''5'') @
      event_ids (demo_event_env ''6'')) demo_running"
    unfolding fresh_ids_def
    by (simp add: list.set_map [symmetric] logged demo_runner_def event_ids_def demo_event_env_def del: list.set_map)
  moreover have "owns ''sub_1'' ''att_1'' demo_running"
    using row(2) by (auto simp: owns_def list_ex_iff)
  moreover have "length (demo_runner request) = 4" by (simp add: demo_runner_def)
  ultimately have "ready (q_submission_id demo_taken) ''att_1''
      (concat (map (\<lambda>ev. event_ids (snd ev)) (case attempt_request demo_config demo_taken ''att_1'' demo_dispatch of
          Inl _ \<Rightarrow> [] | Inr request \<Rightarrow> demo_runner request)) @
        event_ids (demo_event_env ''5'') @ event_ids (demo_event_env ''6''))
      (2 * int (length (case attempt_request demo_config demo_taken ''att_1'' demo_dispatch of
          Inl _ \<Rightarrow> [] | Inr request \<Rightarrow> demo_runner request)) + 4) demo_running"
    using wf_reachable [OF demo_reachable(2)] roomI [OF row(1)] by (simp add: ready_def request sid)
  from attempt_task_ends [OF this] show ?thesis
    by (metis (no_types, lifting) prod.collapse demo_between demo_runner_between sid)
qed

end
