(* ===== verification/ApiProps.thy ===== *)
theory ApiProps
  imports Handlers Demo
begin

text \<open>
  Properties of the HTTP API: which requests are accepted and what they are resolved to, that a
  refused request changes nothing, that a repeated one is answered from the store, and how the
  entity tag guards a patch. \<open>acceptable\<close> states in one place what the sequence of checks in
  \<open>validate_request\<close> decides.
\<close>

section \<open>Which requests are accepted\<close>

fun part_bytes :: "content_part \<Rightarrow> nat" where
  "part_bytes (PartText text) = length text"
| "part_bytes _ = 0"

fun text_part :: "content_part \<Rightarrow> bool" where
  "text_part (PartText text) \<longleftrightarrow> text \<noteq> []"
| "text_part _ \<longleftrightarrow> False"

definition input_ok :: "content_part list \<Rightarrow> bool" where
  "input_ok parts \<longleftrightarrow> parts \<noteq> [] \<and> list_all text_part parts \<and> sum_list (map part_bytes parts) \<le> 1048576"

definition within_version :: "submission_create \<Rightarrow> bool" where
  "within_version request \<longleftrightarrow> sc_mode request = Task \<and> sc_session request \<in> {None, Some Ephemeral} \<and>
     (\<forall>out. sc_output request = Some out \<longrightarrow>
        os_artifacts out = None \<and> os_final_output out \<in> {None, Some FinalText}) \<and>
     (\<forall>agent. sc_agent request = Some agent \<longrightarrow>
        ag_extensions agent = [] \<and> ag_required_capabilities agent = []) \<and>
     (\<forall>l. sc_limits request = Some l \<longrightarrow> lim_max_tokens l = None \<and> lim_max_provider_requests l = None)"

definition scheduling_ok :: "submission_create \<Rightarrow> bool" where
  "scheduling_ok request \<longleftrightarrow> (\<forall>sched. sc_scheduling request = Some sched \<longrightarrow>
     (\<forall>p. sch_priority sched = Some p \<longrightarrow> unat p \<le> 100) \<and>
     (\<forall>b d. sch_not_before sched = Some b \<longrightarrow> sch_start_deadline sched = Some d \<longrightarrow> b < d))"

definition execution_ok :: "submission_create \<Rightarrow> bool" where
  "execution_ok request \<longleftrightarrow> (\<forall>ex. sc_execution request = Some ex \<longrightarrow>
     (\<forall>ids. ex_route_ids ex = Some ids \<longrightarrow> ids \<noteq> [] \<and> distinct ids) \<and>
     (\<forall>ids. ex_target_ids ex = Some ids \<longrightarrow> ids = [''local'']))"

definition profile_known :: "config \<Rightarrow> submission_create \<Rightarrow> bool" where
  "profile_known config request \<longleftrightarrow>
     (case selected (Option.bind (sc_agent request) ag_profile) (df_profile_id (cfg_defaults config)) of
        (i, v) \<Rightarrow> \<exists>p \<in> set (cfg_profiles config). pr_id p = i \<and> version_matches v (pr_version p))"

definition policy_known :: "config \<Rightarrow> submission_create \<Rightarrow> bool" where
  "policy_known config request \<longleftrightarrow>
     (case selected (sc_policy request) (df_policy_id (cfg_defaults config)) of
        (i, v) \<Rightarrow> \<exists>p \<in> set (cfg_policies config). po_id p = i \<and> version_matches v (po_version p))"

definition route_fits :: "config \<Rightarrow> submission_create \<Rightarrow> route_config \<Rightarrow> bool" where
  "route_fits config request route \<longleftrightarrow> route \<in> set (cfg_routes config) \<and>
     ro_id route \<in> set (requested_route_ids config request) \<and> route_serves request route"

text \<open>
  The routes: those the request names must exist and serve the adapter and model it asks for; without
  names, some configured route must (the default one when nothing is asked for).
\<close>

definition route_available :: "config \<Rightarrow> submission_create \<Rightarrow> string \<Rightarrow> bool" where
  "route_available config request i \<longleftrightarrow>
     (\<exists>route \<in> set (cfg_routes config). ro_id route = i \<and> route_serves request route)"

definition named_routes :: "submission_create \<Rightarrow> string list option" where
  "named_routes request = Option.bind (sc_execution request) ex_route_ids"

definition routes_ok :: "config \<Rightarrow> submission_create \<Rightarrow> bool" where
  "routes_ok config request \<longleftrightarrow>
     (case named_routes request of
        Some ids \<Rightarrow> \<forall>i \<in> set ids. route_available config request i
      | None \<Rightarrow> \<exists>route. route_fits config request route)"

text \<open>The names stand or fall together: all of them are available, or none is.\<close>

definition names_agree :: "config \<Rightarrow> submission_create \<Rightarrow> bool" where
  "names_agree config request \<longleftrightarrow> (\<forall>ids. named_routes request = Some ids \<longrightarrow>
     (\<forall>i \<in> set ids. route_available config request i) \<or> (\<forall>i \<in> set ids. \<not> route_available config request i))"

text \<open>The workspace: a configured root that allows the access, and a path that stays below it.\<close>

definition workspace_grant ::
  "api_env \<Rightarrow> config \<Rightarrow> submission_create \<Rightarrow> string option \<times> string option \<Rightarrow> bool" where
  "workspace_grant env config request g \<longleftrightarrow>
     (case sc_workspace request of
        None \<Rightarrow> g = (None, None)
      | Some (WsBinding _ _ _) \<Rightarrow> False
      | Some (WsLocal root_id path _ access) \<Rightarrow>
          (\<exists>root canonical_root canonical. workspace_root config root_id = Some root \<and>
             access \<noteq> WritableOverlay \<and> (access = Writable \<longrightarrow> wr_allow_writable root) \<and>
             safe_relative (case path of None \<Rightarrow> [] | Some p \<Rightarrow> p) \<and>
             en_canonicalize env (wr_path root) = Some canonical_root \<and>
             en_canonicalize env (path_join canonical_root (case path of None \<Rightarrow> [] | Some p \<Rightarrow> p)) =
               Some canonical \<and>
             path_starts_with canonical canonical_root \<and>
             g = (Some (en_lossy env canonical), Some (access_name access))))"

definition acceptable :: "api_env \<Rightarrow> config \<Rightarrow> submission_create \<Rightarrow> bool" where
  "acceptable env config request \<longleftrightarrow>
     within_version request \<and> input_ok (inp_parts (sc_input request)) \<and> scheduling_ok request \<and>
     profile_known config request \<and> policy_known config request \<and> execution_ok request \<and>
     routes_ok config request \<and>
     (\<exists>key access. workspace_grant env config request (key, access) \<and>
        \<not> (Option.bind (sc_execution request) ex_side_effects = Some ReadOnlyEffects \<and>
           access = Some ''writable''))"

lemma check_parts_iff:
  assumes "\<forall>part \<in> set parts. part_bytes part < 2 ^ 64"
  shows "check_parts i n parts = Inr m \<longleftrightarrow>
    list_all text_part parts \<and> unat m = min (unat n + sum_list (map part_bytes parts)) (2 ^ 64 - 1)"
  using assms
proof (induction parts arbitrary: i n)
  case Nil
  have "unat n \<le> 2 ^ 64 - 1" for n :: u64
    using unsigned_less [of n, where 'a = nat] by simp
  then show ?case by (auto simp: min_absorb1 word_eq_iff_unsigned [where 'a = nat])
next
  case (Cons part parts)
  show ?case
  proof (cases part)
    case (PartText t)
    then have "unat (word_of_nat (length t) :: u64) = length t"
      using Cons.prems by (simp add: unat_of_nat)
    moreover have "min (min (a + b) c) c + s = min (a + b + s) (c + s)" for a b c s :: nat
      by (simp add: min_add_distrib_left)
    ultimately show ?thesis
      using PartText Cons.prems
      by (simp add: Cons.IH Let_def rust_arith) (auto simp: min_def)
  qed simp_all
qed

lemma input_check:
  assumes "\<forall>part \<in> set parts. part_bytes part < 2 ^ 64"
  shows "(\<exists>n. parts \<noteq> [] \<and> check_parts 0 0 parts = Inr n \<and> \<not> (1048576 < n)) \<longleftrightarrow> input_ok parts"
proof -
  let ?sum = "sum_list (map part_bytes parts)"
  have small: "\<not> (1048576 < n) \<longleftrightarrow> ?sum \<le> 1048576" if "unat n = min ?sum (2 ^ 64 - 1)" for n :: u64
    using that by (auto simp: word_less_nat_alt min_def split: if_splits)
  have ex: "\<exists>n :: u64. unat n = min ?sum (2 ^ 64 - 1)"
    by (rule exI [of _ "word_of_nat (min ?sum (2 ^ 64 - 1))"]) (simp add: unat_of_nat)
  show ?thesis
    using ex small by (auto simp: input_ok_def check_parts_iff [OF assms])
qed

lemma within_version_checks:
  "within_version request \<longleftrightarrow> sc_mode request = Task \<and> \<not> unsupported_output request \<and>
     \<not> unsupported_agent request \<and> (sc_session request = None \<or> sc_session request = Some Ephemeral) \<and>
     \<not> unsupported_limits request"
  by (auto simp: within_version_def unsupported_output_def unsupported_agent_def unsupported_limits_def
      split: option.splits)

lemma validate_scheduling_iff: "(validate_scheduling request = Inr u) \<longleftrightarrow> scheduling_ok request"
  by (cases "sc_scheduling request")
    (auto simp: validate_scheduling_def scheduling_ok_def result_simps word_less_nat_alt split: option.splits)

lemma validate_nonempty_unique_iff:
  "(validate_nonempty_unique vals field = Inr u) \<longleftrightarrow> (\<forall>ids. vals = Some ids \<longrightarrow> ids \<noteq> [] \<and> distinct ids)"
  by (cases vals) (auto simp: validate_nonempty_unique_def result_simps card_distinct distinct_card)

lemma only_local: "ids \<noteq> [] \<and> distinct ids \<and> (\<forall>x \<in> set ids. x = c) \<longleftrightarrow> ids = [c]"
  by (cases ids; cases "tl ids") auto

lemma validate_execution_iff: "(validate_execution request = Inr u) \<longleftrightarrow> execution_ok request"
proof (cases "sc_execution request")
  case (Some ex)
  have "(\<forall>ids. vals = Some ids \<longrightarrow> ids = [c]) \<longleftrightarrow>
      (\<forall>ids. vals = Some ids \<longrightarrow> ids \<noteq> [] \<and> distinct ids) \<and>
      \<not> (case vals of None \<Rightarrow> False | Some ts \<Rightarrow> list_ex (\<lambda>t. t \<noteq> c) ts)" for vals and c :: string
    by (cases vals) (auto simp: only_local [symmetric] list_ex_iff)
  with Some show ?thesis
    by (auto simp: validate_execution_def execution_ok_def result_simps validate_nonempty_unique_iff)
qed (simp add: validate_execution_def execution_ok_def)

lemma resolve_profile_ex: "(\<exists>p. resolve_profile config request = Inr p) \<longleftrightarrow> profile_known config request"
  by (simp add: resolve_profile_def profile_known_def result_simps config_profile_ex split: prod.split)

lemma resolve_policy_ex: "(\<exists>p. resolve_policy config request = Inr p) \<longleftrightarrow> policy_known config request"
  by (simp add: resolve_policy_def policy_known_def result_simps config_policy_ex split: prod.split)

lemma config_route_iff:
  "unique_ids (map ro_id (cfg_routes config)) \<Longrightarrow>
     config_route config i = Some route \<longleftrightarrow> route \<in> set (cfg_routes config) \<and> ro_id route = i"
  using fetch_key_distinct [of ro_id "cfg_routes config" route] fetch_optional_SomeD
  by (fastforce simp: config_route_def unique_ids_def fetch_optional_def)

lemma set_map_filter_Some: "set (List.map_filter f xs) = {y. \<exists>x \<in> set xs. f x = Some y}"
  by (force simp: map_filter_def)

lemma resolve_routes_set:
  assumes "unique_ids (map ro_id (cfg_routes config))"
  shows "set (resolve_routes config request) = {route. route_fits config request route}"
  by (auto simp: resolve_routes_def route_fits_def set_map_filter_Some config_route_iff [OF assms])

lemma validate_workspace_iff:
  "(validate_workspace env config request = Inr g) \<longleftrightarrow> workspace_grant env config request g"
proof (cases "sc_workspace request")
  case (Some ws)
  then show ?thesis
    by (cases ws)
      (auto simp: validate_workspace_def workspace_grant_def result_simps safe_relative_def Let_def)
qed (auto simp: validate_workspace_def workspace_grant_def)

text \<open>Everything at once: the checks that passed and what the request was resolved to.\<close>

lemma validate_request_iff:
  "(validate_request env config request = Inr r) \<longleftrightarrow>
     within_version request \<and>
     (\<exists>n. inp_parts (sc_input request) \<noteq> [] \<and> check_parts 0 0 (inp_parts (sc_input request)) = Inr n \<and>
        \<not> (1048576 < n)) \<and>
     scheduling_ok request \<and> execution_ok request \<and> resolve_routes config request \<noteq> [] \<and>
     (\<exists>p q key access. resolve_profile config request = Inr p \<and> resolve_policy config request = Inr q \<and>
        workspace_grant env config request (key, access) \<and>
        \<not> (Option.bind (sc_execution request) ex_side_effects = Some ReadOnlyEffects \<and>
           access = Some ''writable'') \<and>
        r = \<lparr>re_profile = resource_ref_of env (pr_id p) (pr_version p) (en_profile_json env p),
          re_policy = resource_ref_of env (po_id q) (po_version q) (en_policy_json env q),
          re_workspace_key = key, re_workspace_access = access, re_profile_config = p,
          re_policy_config = q, re_routes = resolve_routes config request\<rparr>)"
  unfolding validate_request_def Let_def within_version_checks
  by (simp only: result_simps validate_scheduling_iff validate_execution_iff validate_workspace_iff
      split_paired_Ex prod.case not_not) blast

lemma fits_available:
  "named_routes request = Some ids \<Longrightarrow>
     (\<exists>route. route_fits config request route) \<longleftrightarrow> (\<exists>i \<in> set ids. route_available config request i)"
  by (cases "sc_execution request")
    (auto simp: named_routes_def route_fits_def route_available_def requested_route_ids_def)

lemma routes_ok_iff:
  assumes "names_agree config request" and "execution_ok request"
  shows "routes_ok config request \<longleftrightarrow> (\<exists>route. route_fits config request route)"
proof (cases "named_routes request")
  case (Some ids)
  then have ids: "ids \<noteq> []"
    using assms(2) by (auto simp: execution_ok_def named_routes_def bind_eq_Some_conv)
  have "(\<forall>i \<in> set ids. route_available config request i) \<or> (\<forall>i \<in> set ids. \<not> route_available config request i)"
    using assms(1) Some by (simp add: names_agree_def)
  then have "(\<forall>i \<in> set ids. route_available config request i) \<longleftrightarrow> (\<exists>i \<in> set ids. route_available config request i)"
    using ids by (cases ids) auto
  then show ?thesis
    by (simp add: routes_ok_def Some fits_available [OF Some])
qed (simp add: routes_ok_def)

text \<open>
  What the code does with names that do not agree: it drops those that are not available, and goes on
  with the others. submission-api.md:377 has such a request refused.
\<close>

lemma unavailable_names_dropped:
  assumes "validate_config config = Inr ()" and "named_routes request = Some ids"
  shows "ro_id ` set (resolve_routes config request) = {i \<in> set ids. route_available config request i}"
proof -
  have "unique_ids (map ro_id (cfg_routes config))"
    using assms(1) by (simp add: validate_config_ok_iff config_ok_def Let_def)
  moreover have "requested_route_ids config request = ids"
    using assms(2) by (auto simp: named_routes_def requested_route_ids_def bind_eq_Some_conv)
  ultimately show ?thesis
    by (auto simp: resolve_routes_set route_fits_def route_available_def)
qed

text \<open>
  C32: with a validated configuration, a request is accepted by the validation exactly when it
  is within what this version offers, its text is non-empty and at most one MiB in all, its
  priority and times are consistent, its profile and policy are configured, every route it names exists
  and serves the adapter and model it asks for (without names: some route does), and its workspace lies
  below a configured root that allows the access it asks for. Left out are requests that name several
  routes of which some are available and some are not: submission-api.md:377 has them refused on
  acceptance, the code drops the names that are not available and accepts them
  (\<open>unavailable_names_dropped\<close>).
\<close>

theorem request_validation_exact:
  assumes "validate_config config = Inr ()"
    and "\<forall>part \<in> set (inp_parts (sc_input request)). part_bytes part < 2 ^ 64"
    and "names_agree config request"
  shows "(\<exists>r. validate_request env config request = Inr r) \<longleftrightarrow> acceptable env config request"
proof -
  have unique: "unique_ids (map ro_id (cfg_routes config))"
    using assms(1) by (simp add: validate_config_ok_iff config_ok_def Let_def)
  have routes: "resolve_routes config request \<noteq> [] \<longleftrightarrow> (\<exists>route. route_fits config request route)"
    using resolve_routes_set [OF unique, of request] by (metis empty_Collect_eq set_empty)
  show ?thesis
    unfolding validate_request_iff acceptable_def input_check [OF assms(2)] routes
      resolve_profile_ex [symmetric] resolve_policy_ex [symmetric]
    using routes_ok_iff [OF assms(3)] by blast
qed

definition demo_api :: api_env where
  "demo_api = \<lparr>en_jcs = (\<lambda>request. Some (if sc_workspace request = None then ''n'' else ''j'')),
     en_sha256 = (\<lambda>bytes. bytes), en_profile_json = (\<lambda>p. Some (pr_id p)),
     en_policy_json = (\<lambda>p. Some (po_id p)), en_canonicalize = (\<lambda>p. Some p), en_lossy = (\<lambda>p. p),
     en_uid = 1000, en_header_value = (\<lambda>v. Some v)\<rparr>"

definition demo_local_request :: submission_create where
  "demo_local_request = demo_request\<lparr>sc_workspace := Some (WsLocal ''w'' (Some ''a/b'') None Writable)\<rparr>"

lemma demo_config_valid: "validate_config demo_config = Inr ()"
  by code_simp

definition demo_named_request :: "string \<Rightarrow> submission_create" where
  "demo_named_request i = demo_local_request\<lparr>sc_execution := Some \<lparr>ex_route_ids = Some [i],
     ex_target_ids = None, ex_locality = None, ex_side_effects = None\<rparr>\<rparr>"

lemma request_validation_exact_witness:
  "acceptable demo_api demo_config (demo_named_request ''r1'') \<and>
   \<not> acceptable demo_api demo_config (demo_named_request ''r9'')"
proof -
  have exact: "(\<exists>r. validate_request demo_api demo_config (demo_named_request i) = Inr r) \<longleftrightarrow>
      acceptable demo_api demo_config (demo_named_request i)" for i
  proof (rule request_validation_exact [OF demo_config_valid])
    show "\<forall>part \<in> set (inp_parts (sc_input (demo_named_request i))). part_bytes part < 2 ^ 64"
      by (simp add: demo_named_request_def demo_local_request_def demo_request_def)
    show "names_agree demo_config (demo_named_request i)"
      by (simp add: names_agree_def named_routes_def demo_named_request_def)
  qed
  have "case validate_request demo_api demo_config (demo_named_request ''r1'') of Inl _ \<Rightarrow> False | Inr _ \<Rightarrow> True"
    "case validate_request demo_api demo_config (demo_named_request ''r9'') of Inl _ \<Rightarrow> True | Inr _ \<Rightarrow> False"
    by code_simp+
  then show ?thesis
    unfolding exact [symmetric] by (auto split: sum.splits)
qed

end
