(* ===== verification/Plan.thy ===== *)
theory Plan
  imports ApiProps Dispatch
begin

text \<open>
  From the request to the sandbox: what an accepted request was resolved to is what the attempt
  is started with, however long it waited. The chain is \<open>create_submission\<close>, the store's row
  and its later reading by \<open>queued\<close>, \<open>select_dispatch\<close>, \<open>attempt_request\<close>.
\<close>

section \<open>The row of an accepted request\<close>

lemma create_201:
  assumes "create_submission env config he headers request st = (st1, Inr (201, resp))"
  obtains key digest resolved rec where
    "idempotency_key headers = Inr key" "request_digest env request = Inr digest"
    "validate_request env config request = Inr resolved"
    "accept (hd_ulid he) (hd_now he) (hd_stamp he)
       (accept_spec_of (local_client_id env) key request digest resolved)
       (as_store (hd_between he st)) = (as_store st1, Inr rec)"
    "\<not> ar_replay rec" "resp = ar_response rec"
  using assms
  by (auto simp: create_submission_def Let_def result_simps notify_one_def
      split: sum.splits option.splits prod.splits if_splits)

lemma plan_of_bump: "plan_of (bump_sequence r) = plan_of r"
  by (simp add: plan_of_def bump_sequence_def)

lemma accepted_fetch:
  assumes wf: "wf_store s" and acc: "accept ulid now st spec s = (s', Inr rec)" and new: "\<not> ar_replay rec"
  shows "\<exists>r. fetch_submission (sa_submission_id (ar_response rec)) s' = Some r \<and>
    plan_of r = plan_of (new_submission (sa_submission_id (ar_response rec)) now spec)"
proof -
  have tx: "accept_tx ulid now st spec s = Inr (s', rec)"
    using acc by (auto simp: accept_def elim: transact_cases)
  let ?sid = "''sub_'' @ ulid" and ?r = "new_submission (''sub_'' @ ulid) now spec"
  have wf': "wf_store s'" by (rule wf_accept_tx [OF wf tx])
  from tx show ?thesis
  proof (rule accept_tx_Inr)
    fix s1 ev
    assume app: "append_event_tx st ?sid None ''submission.created'' (JObject [(''state'', JString ''queued'')])
        (s\<lparr>submissions := submissions s @ [?r]\<rparr>) = Inr (s1, ev)"
      and s': "s' = send_events [ev] s1"
      and resp: "ar_response rec = accepted_response ?sid 1 (acc_request_digest spec)
        (acc_profile spec) (acc_policy spec) False"
    have "bump_sequence ?r \<in> set (submissions s')"
      by (simp add: s' append_event_tx_parts [OF app] update_where_append update_where_def)
        (simp add: new_submission_def Let_def)
    moreover have "s_submission_id (bump_sequence ?r) = ?sid"
      by (simp add: new_submission_def Let_def)
    ultimately have "fetch_submission ?sid s' = Some (bump_sequence ?r)"
      using member_fetch [OF wf'] by metis
    moreover have "sa_submission_id (ar_response rec) = ?sid"
      by (simp add: resp accepted_response_def)
    ultimately show ?thesis
      using plan_of_bump by auto
  qed (use new in simp)
qed

lemma decode_queued_fields:
  "decode_queued r = Inr q \<Longrightarrow> q_submission_id q = s_submission_id r \<and> q_request q = s_request r \<and>
     q_workspace_key q = s_workspace_key r \<and> q_workspace_access q = s_workspace_access r \<and>
     s_profile_config r = Some (q_profile q) \<and> s_policy_config r = Some (q_policy q) \<and>
     s_routes r = Some (q_routes q)"
  by (auto simp: decode_queued_def result_simps)

lemma queued_row:
  assumes "queued s = Inr qs" and "q \<in> set qs"
  obtains r where "r \<in> set (submissions s)" "decode_queued r = Inr q"
proof -
  have "list_all2 (\<lambda>r q. decode_queued r = Inr q)
      (sort_key (\<lambda>r. (- s_priority r, s_created_at r)) (filter (\<lambda>r. s_state r = ''queued'') (submissions s))) qs"
    using assms(1) by (simp add: queued_def traverse_Inr_iff)
  from list_all2_setD [OF this assms(2)] show ?thesis
    using that by auto
qed

text \<open>What the scheduler reads back, at any later time, is what the request was resolved to.\<close>

lemma queued_as_accepted:
  assumes created: "create_submission env config he headers request st = (st1, Inr (201, resp))"
    and wf: "wf_store (as_store (hd_between he st))"
    and later: "store_step\<^sup>*\<^sup>* (as_store st1) s"
    and q: "queued s = Inr qs" "q \<in> set qs" "q_submission_id q = sa_submission_id resp"
  obtains resolved where "validate_request env config request = Inr resolved"
    "q_request q = request" "q_workspace_key q = re_workspace_key resolved"
    "q_workspace_access q = re_workspace_access resolved" "q_profile q = re_profile_config resolved"
    "q_policy q = re_policy_config resolved" "q_routes q = re_routes resolved"
proof -
  obtain key digest resolved rec where valid: "validate_request env config request = Inr resolved"
    and acc: "accept (hd_ulid he) (hd_now he) (hd_stamp he)
       (accept_spec_of (local_client_id env) key request digest resolved)
       (as_store (hd_between he st)) = (as_store st1, Inr rec)"
      "\<not> ar_replay rec" "resp = ar_response rec"
    using created by (rule create_201)
  let ?spec = "accept_spec_of (local_client_id env) key request digest resolved"
  obtain r1 where r1: "fetch_submission (sa_submission_id resp) (as_store st1) = Some r1"
    "plan_of r1 = plan_of (new_submission (sa_submission_id resp) (hd_now he) ?spec)"
    using accepted_fetch [OF wf acc(1,2)] acc(3) by blast
  have "wf_store (as_store st1)"
    using acc(1) wf by (rule wf_step [OF store_step.accepting])
  then have wf_s: "wf_store s" using wf_steps [OF later] by simp
  obtain r where r: "r \<in> set (submissions s)" "decode_queued r = Inr q"
    using queued_row [OF q(1,2)] .
  then have fetched: "fetch_submission (sa_submission_id resp) s = Some r"
    using member_fetch [OF wf_s r(1)] decode_queued_fields [OF r(2)] q(3) by simp
  obtain r' where "fetch_submission (sa_submission_id resp) s = Some r'" "row_step\<^sup>*\<^sup>* r1 r'"
    using fetch_along [OF later r1(1)] by blast
  then have "plan_of r = plan_of (new_submission (sa_submission_id resp) (hd_now he) ?spec)"
    using fetched r1(2) row_steps_monotone by fastforce
  then show ?thesis
    using that [OF valid] decode_queued_fields [OF r(2)]
    by (auto simp: plan_of_def new_submission_def accept_spec_of_def Let_def)
qed

section \<open>The runner's request\<close>

definition route_planned :: "config \<Rightarrow> submission_create \<Rightarrow> runner_request \<Rightarrow> string \<Rightarrow> bool" where
  "route_planned config request req i \<longleftrightarrow> (\<exists>route b. route_fits config request route \<and>
     i \<in> set (ro_source_ids route) \<and> agent_binary config (ro_adapter route) = Some b \<and>
     rn_adapter req = ro_adapter route \<and> rn_agent_path req = ab_binary b \<and>
     rn_agent_sha256 req = ab_sha256 b \<and>
     rn_model req = route_model (Option.bind (sc_agent request) ag_model) route)"

definition limits_planned :: "config \<Rightarrow> submission_create \<Rightarrow> runner_request \<Rightarrow> bool" where
  "limits_planned config request req \<longleftrightarrow> (\<exists>policy. resolve_policy config request = Inr policy \<and>
     rn_run_timeout_seconds req \<le> po_run_timeout_seconds policy \<and>
     rn_idle_timeout_seconds req \<le> po_idle_timeout_seconds policy) \<and>
     (\<forall>l n. sc_limits request = Some l \<longrightarrow>
       (lim_run_timeout_seconds l = Some n \<longrightarrow> rn_run_timeout_seconds req \<le> n) \<and>
       (lim_idle_timeout_seconds l = Some n \<longrightarrow> rn_idle_timeout_seconds req \<le> n))"

definition exposure_planned :: "api_env \<Rightarrow> config \<Rightarrow> submission_create \<Rightarrow> runner_request \<Rightarrow> string \<Rightarrow> bool" where
  "exposure_planned env config request req i \<longleftrightarrow>
     (\<exists>profile. resolve_profile config request = Inr profile \<and>
        rn_network_enabled req = (pr_network profile = NetInherited)) \<and>
     (\<exists>access. workspace_grant env config request (rn_workspace_path req, access) \<and>
        rn_workspace_writable req = (access = Some ''writable'') \<and>
        \<not> (rn_workspace_writable req \<and>
           Option.bind (sc_execution request) ex_side_effects = Some ReadOnlyEffects)) \<and>
     (\<forall>m \<in> set (rn_credential_mounts req). safe_relative (cm_sandbox_path m) \<and>
        (\<exists>f \<in> set (lr_credential_files (cfg_local_runner config)).
           cf_source_id f = i \<and> cm_host_path m = cf_host_path f)) \<and>
     (\<forall>name \<in> set (rn_inherit_proxy_environment req). is_allowed_proxy_environment name)"

lemma limited_le:
  "limited field request n \<le> n"
  "sc_limits request = Some l \<Longrightarrow> field l = Some m \<Longrightarrow> limited field request n \<le> m"
  by (simp_all add: limited_def)

lemma config_ok_route: "config_ok config \<Longrightarrow> route \<in> set (cfg_routes config) \<Longrightarrow> route_ok config route"
  by (simp add: config_ok_def Let_def)

lemma config_ok_credentials:
  "config_ok config \<Longrightarrow> f \<in> set (lr_credential_files (cfg_local_runner config)) \<Longrightarrow> safe_relative (cf_sandbox_path f)"
  by (simp add: config_ok_def Let_def)

lemma config_ok_environment:
  assumes "config_ok config" and "local_source_binding config i = Some b"
    and "name \<in> set (sb_inherit_proxy_environment b)"
  shows "is_allowed_proxy_environment name"
proof -
  have "b \<in> set (lr_source_bindings (cfg_local_runner config))"
    using assms(2) by (auto simp: local_source_binding_def find_Some_iff)
  then show ?thesis using assms(1,3) by (simp add: config_ok_def Let_def)
qed

lemma attempt_request_planned:
  assumes ok: "config_ok config" and valid: "validate_request env config request = Inr resolved"
    and q: "q_request q = request" "q_workspace_key q = re_workspace_key resolved"
      "q_workspace_access q = re_workspace_access resolved" "q_profile q = re_profile_config resolved"
      "q_policy q = re_policy_config resolved" "q_routes q = re_routes resolved"
    and ready: "select_dispatch now config obs s q = Inr (Ready d)"
  shows "\<exists>req. attempt_request config q aid d = Inr req \<and> route_planned config request req (dp_source_id d) \<and>
    limits_planned config request req \<and> exposure_planned env config request req (dp_source_id d)"
proof -
  obtain profile policy key access where
    plan: "resolve_profile config request = Inr profile" "resolve_policy config request = Inr policy"
      "workspace_grant env config request (key, access)"
      "\<not> (Option.bind (sc_execution request) ex_side_effects = Some ReadOnlyEffects \<and> access = Some ''writable'')"
    and resolved: "re_workspace_key resolved = key" "re_workspace_access resolved = access"
      "re_profile_config resolved = profile" "re_policy_config resolved = policy"
      "re_routes resolved = resolve_routes config request"
    using valid unfolding validate_request_iff by auto
  obtain route i where route: "route \<in> set (q_routes q)" "i \<in> set (ro_source_ids route)"
    and d: "dispatch_to route (route_model (Option.bind (sc_agent (q_request q)) ag_model) route) i d"
    using ready by (rule select_ready)
  have unique: "unique_ids (map ro_id (cfg_routes config))"
    using ok by (simp add: config_ok_def Let_def)
  have fits: "route_fits config request route"
    using route(1) q(6) resolved(5) resolve_routes_set [OF unique] by auto
  then obtain b where b: "agent_binary config (ro_adapter route) = Some b"
    using config_ok_route [OF ok] by (auto simp: route_fits_def route_ok_def)
  then obtain req where req: "attempt_request config q aid d = Inr req"
    using d by (simp add: attempt_request_def dispatch_to_def)
  note made = req [unfolded attempt_request_def, simplified result_simps]
  have "route_planned config request req (dp_source_id d)"
    unfolding route_planned_def using made fits route(2) b d q(1)
    by (intro exI [of _ route] exI [of _ b]) (auto simp: dispatch_to_def)
  moreover have "limits_planned config request req"
    unfolding limits_planned_def using made plan(2) q(1,5) resolved(4)
    by (auto simp: limited_le)
  moreover have "exposure_planned env config request req (dp_source_id d)"
  proof -
    have "rn_workspace_path req = key" "rn_workspace_writable req = (access = Some ''writable'')"
      "rn_network_enabled req = (pr_network profile = NetInherited)"
      using made q resolved by auto
    moreover have mounts: "set (rn_credential_mounts req) =
        (\<lambda>m. \<lparr>cm_host_path = cf_host_path m, cm_sandbox_path = cf_sandbox_path m\<rparr>) `
          {m \<in> set (lr_credential_files (cfg_local_runner config)). cf_source_id m = dp_source_id d}"
      using made by auto
    then have "\<forall>m \<in> set (rn_credential_mounts req). safe_relative (cm_sandbox_path m) \<and>
        (\<exists>f \<in> set (lr_credential_files (cfg_local_runner config)).
           cf_source_id f = dp_source_id d \<and> cm_host_path m = cf_host_path f)"
      unfolding mounts using config_ok_credentials [OF ok] by fastforce
    moreover have "\<forall>name \<in> set (rn_inherit_proxy_environment req). is_allowed_proxy_environment name"
      using made config_ok_environment [OF ok] by (auto split: option.splits)
    ultimately show ?thesis
      unfolding exposure_planned_def using plan by blast
  qed
  ultimately show ?thesis using req by blast
qed

text \<open>
  C33: what an accepted request is granted is what its attempt gets, at any later time and
  whatever happened to the store in between: the request to the runner can be built, its agent
  is the configured binary of a route that fits the request, the network is as the selected
  profile says, the workspace is the granted directory below a configured root, writable only
  if granted so, the timeouts are within the policy's and the request's, and the credentials
  and environment are those of the chosen source, at safe paths.
\<close>

theorem accepted_request_runs_as_planned:
  assumes "validate_config config = Inr ()" and "reachable (as_store (hd_between he st))"
    and "create_submission env config he headers request st = (st1, Inr (201, resp))"
    and "store_step\<^sup>*\<^sup>* (as_store st1) s"
    and "queued s = Inr qs" and "q \<in> set qs" and "q_submission_id q = sa_submission_id resp"
    and "select_dispatch now config obs s' q = Inr (Ready d)"
  shows "\<exists>req. attempt_request config q aid d = Inr req \<and> route_planned config request req (dp_source_id d) \<and>
    limits_planned config request req \<and> exposure_planned env config request req (dp_source_id d)"
proof -
  have ok: "config_ok config" using assms(1) by (simp add: validate_config_ok_iff)
  obtain resolved where "validate_request env config request = Inr resolved"
    "q_request q = request" "q_workspace_key q = re_workspace_key resolved"
    "q_workspace_access q = re_workspace_access resolved" "q_profile q = re_profile_config resolved"
    "q_policy q = re_policy_config resolved" "q_routes q = re_routes resolved"
    using queued_as_accepted [OF assms(3) wf_reachable [OF assms(2)] assms(4-7)] .
  then show ?thesis
    using attempt_request_planned [OF ok] assms(8) by blast
qed

definition demo_handler :: handler_env where
  "demo_handler = \<lparr>hd_between = (\<lambda>st. st), hd_ulid = ''1'', hd_now = 0, hd_stamp = (''e1'', 0),
     hd_format = (\<lambda>_. [])\<rparr>"

definition demo_headers :: headers where
  "demo_headers name = (if name = ''Idempotency-Key'' then Some ''k1'' else None)"

definition demo_state :: api_state where
  "demo_state = \<lparr>as_store = empty_store, as_cancellations = Map.empty, as_notified = False\<rparr>"

definition demo_created :: api_state where
  "demo_created = fst (create_submission demo_api demo_config demo_handler demo_headers demo_local_request demo_state)"

definition demo_planned :: queued_submission where
  "demo_planned = demo_item\<lparr>q_request := demo_local_request, q_workspace_key := Some ''/w/a/b''\<rparr>"

definition demo_response :: submission_accepted where
  "demo_response = accepted_response ''sub_1'' 1 ''sha256:j''
     \<lparr>rr_id = ''default'', rr_version = ''1'', rr_digest = ''sha256:default''\<rparr>
     \<lparr>rr_id = ''default'', rr_version = ''1'', rr_digest = ''sha256:default''\<rparr> False"

lemma demo_create: "create_submission demo_api demo_config demo_handler demo_headers demo_local_request demo_state =
   (demo_created, Inr (201, demo_response))"
proof -
  have "snd (create_submission demo_api demo_config demo_handler demo_headers demo_local_request demo_state) =
      Inr (201, demo_response)"
    by code_simp
  then show ?thesis by (simp add: demo_created_def prod_eq_iff)
qed

lemma demo_start_reachable: "reachable (as_store (hd_between demo_handler demo_state))"
  by (simp add: demo_handler_def demo_state_def reachable_def)

lemma accepted_request_runs_as_planned_witness:
  "\<exists>d req. select_dispatch 5 demo_config demo_observations (as_store demo_created) demo_planned = Inr (Ready d) \<and>
     attempt_request demo_config demo_planned ''att_1'' d = Inr req \<and>
     limits_planned demo_config demo_local_request req \<and>
     exposure_planned demo_api demo_config demo_local_request req (dp_source_id d)"
proof -
  have "case select_dispatch 5 demo_config demo_observations (as_store demo_created) demo_planned of
      Inr (Ready d) \<Rightarrow> True | _ \<Rightarrow> False"
    by code_simp
  then obtain d where ready:
    "select_dispatch 5 demo_config demo_observations (as_store demo_created) demo_planned = Inr (Ready d)"
    by (auto split: sum.splits dispatch_decision.splits)
  have queue: "queued (as_store demo_created) = Inr [demo_planned]"
    by code_simp
  have own: "q_submission_id demo_planned = sa_submission_id demo_response"
    by code_simp
  show ?thesis
    using ready accepted_request_runs_as_planned [OF demo_config_valid demo_start_reachable demo_create
        rtranclp.rtrancl_refl queue list.set_intros(1) own ready, of "''att_1''"]
    by blast
qed

end
