(* ===== verification/ApiClaims.thy ===== *)
theory ApiClaims
  imports Plan
begin

text \<open>
  The contract of the handlers with their clients: a refused request changes nothing, a repeated
  one is answered from the store, and a patch under an entity tag cannot lose an update.
\<close>

section \<open>Refusals\<close>

definition refusal :: "api_failure \<Rightarrow> bool" where
  "refusal f \<longleftrightarrow> af_status f \<in> {400, 403, 404, 409, 412, 422, 500} \<and>
     \<not> ed_retryable (af_detail f) \<and> (af_status f = 500 \<longleftrightarrow> ed_code (af_detail f) = ''internal_error'')"

definition refuses :: "api_failure + 'a \<Rightarrow> bool" where
  "refuses m \<longleftrightarrow> (\<forall>f. m = Inl f \<longrightarrow> refusal f)"

named_theorems refuses_intros

lemma refusal_simps [simp]:
  "refusal (invalid message field)" "refusal (capability_failure message)" "refusal not_found"
  "refusal (internal_failure message)" "refusal (policy_denied message)"
  "refusal (workspace_unavailable message)"
  by (simp_all add: refusal_def invalid_def capability_failure_def not_found_def internal_failure_def
      policy_denied_def workspace_unavailable_def api_failure_of_def Let_def)

lemma refusal_api [simp]: "n \<in> {403, 409, 412, 422} \<Longrightarrow> code \<noteq> ''internal_error'' \<Longrightarrow>
    refusal (api_failure_of n code message scope)"
  by (auto simp: refusal_def api_failure_of_def)

lemma refusal_from_store [simp]: "refusal (from_store e)"
  by (cases e) simp_all

lemma refuses_Inr [refuses_intros]: "refuses (Inr x)"
  by (simp add: refuses_def)

lemma refuses_bind [refuses_intros]: "refuses m \<Longrightarrow> (\<And>x. refuses (g x)) \<Longrightarrow> refuses (try_bind m g)"
  by (auto simp: refuses_def result_simps)

lemma refuses_bail [refuses_intros]: "refusal f \<Longrightarrow> refuses (bail_if b f)"
  by (simp add: refuses_def result_simps)

lemma refuses_ok_or [refuses_intros]: "refusal f \<Longrightarrow> refuses (ok_or f m)"
  by (simp add: refuses_def result_simps)

lemma refuses_map_err [refuses_intros]: "refuses (map_err from_store m)"
  by (auto simp: refuses_def map_err_def split: sum.splits)

lemma refuses_check_parts [refuses_intros]: "refuses (check_parts i n parts)"
  by (induction i n parts rule: check_parts.induct)
    (auto simp: refuses_def Let_def split: content_part.splits)

lemma refuses_unique [refuses_intros]: "refuses (validate_nonempty_unique vals field)"
  by (auto simp: validate_nonempty_unique_def intro!: refuses_intros split: option.splits)

lemma refuses_pair [refuses_intros]:
  "refuses m \<Longrightarrow> (\<And>x y. refuses (g x y)) \<Longrightarrow> refuses (try_bind m (\<lambda>(x, y). g x y))"
  by (auto simp: refuses_def result_simps)

lemma refuses_scheduling [refuses_intros]: "refuses (validate_scheduling request)"
  unfolding validate_scheduling_def by (intro refuses_intros) simp_all

lemma refuses_profile [refuses_intros]: "refuses (resolve_profile config request)"
  by (simp add: resolve_profile_def refuses_ok_or split: prod.split)

lemma refuses_policy [refuses_intros]: "refuses (resolve_policy config request)"
  by (simp add: resolve_policy_def refuses_ok_or split: prod.split)

lemma refuses_execution [refuses_intros]: "refuses (validate_execution request)"
proof (cases "sc_execution request")
  case (Some ex)
  then show ?thesis
    unfolding validate_execution_def option.case Some by (intro refuses_intros) simp_all
qed (simp add: validate_execution_def refuses_Inr)

lemma refuses_workspace [refuses_intros]: "refuses (validate_workspace env config request)"
proof (cases "sc_workspace request")
  case (Some ws)
  then show ?thesis
  proof (cases ws)
    case (WsLocal root_id path revision access)
    then show ?thesis
      unfolding validate_workspace_def option.case workspace_ref.case Some Let_def
      by (simp only: workspace_ref.case) (intro refuses_intros; simp)
  qed (simp add: validate_workspace_def refuses_def)
qed (simp add: validate_workspace_def refuses_Inr)

lemma refuses_validate [refuses_intros]: "refuses (validate_request env config request)"
  unfolding validate_request_def Let_def by (intro refuses_intros) simp_all

lemma refuses_key [refuses_intros]: "refuses (idempotency_key headers)"
  by (auto simp: idempotency_key_def refuses_def split: option.splits if_splits)

lemma refuses_digest [refuses_intros]: "refuses (request_digest env request)"
  by (auto simp: request_digest_def Let_def intro!: refuses_intros)

lemma refuses_if_match [refuses_intros]: "refuses (if_match headers)"
  by (auto simp: if_match_def intro!: refuses_intros)

lemma refusesD: "refuses m \<Longrightarrow> m = Inl f \<Longrightarrow> refusal f"
  by (simp add: refuses_def)

lemma transact_Inl: "transact body s = (s', Inl e) \<Longrightarrow> s' = s"
  by (auto elim: transact_cases)

lemma create_refused:
  assumes "create_submission env config he headers request st = (st', Inl f)"
  shows "refusal f \<and> st' \<in> {st, hd_between he st}"
  using assms unfolding create_submission_def
  by (auto simp: Let_def accept_def dest!: transact_Inl dest: refusesD [OF refuses_key]
      refusesD [OF refuses_digest] refusesD [OF refuses_validate]
      simp: result_simps split: sum.splits option.splits prod.splits if_splits)

text \<open>The patch is committed before the status is read back: that reading cannot fail.\<close>

lemma patch_scheduling_Inl:
  assumes "reachable s" and "patch_scheduling fmt now st sid expected patch s = (s', Inl e)"
  shows "s' = s"
proof (rule ccontr)
  assume "s' \<noteq> s"
  then have tx: "patch_scheduling_tx fmt now st sid expected patch s = Inr (s', ())"
    and unread: "status sid s' = Inl e"
    using assms(2)
    by (auto simp: patch_scheduling_def transact_def split: sum.splits prod.splits)
  obtain row where row: "fetch_submission sid s = Some row"
    by (rule patch_scheduling_tx_Inr [OF tx])
  have step: "store_step s s'"
    by (rule store_step.patching [OF assms(2)])
  then obtain r where r: "fetch_submission sid s' = Some r"
    using fetch_along [OF r_into_rtranclp row] by blast
  have wf: "wf_store s'" using wf_step [OF step wf_reachable [OF assms(1)]] .
  obtain x where "s_state r = state_name x"
    using wf_state [OF wf r] by blast
  then show False
    using status_total [OF wf r] unread by auto
qed

lemma patch_refused:
  assumes "reachable (as_store st)" and "patch_submission he i headers patch st = (st', Inl f)"
  shows "refusal f \<and> st' = st"
  using assms unfolding patch_submission_def
  by (auto simp: result_simps dest: patch_scheduling_Inl refusesD [OF refuses_if_match]
      split: sum.splits prod.splits)

text \<open>
  C34: a refused request changes nothing: when creating, patching or cancelling answers with a
  failure, the store, the channels and the notification are as they were (up to what other
  tasks did while the request was validated), and every failure has one of the documented
  statuses, is not marked retryable, and is an \<open>internal_error\<close> exactly when the status is 500.
\<close>

theorem refused_requests_change_nothing:
  assumes "reachable (as_store st)"
  shows "(create_submission env config he headers request st = (st1, Inl f1) \<longrightarrow>
      refusal f1 \<and> st1 \<in> {st, hd_between he st}) \<and>
    (patch_submission he i headers patch st = (st2, Inl f2) \<longrightarrow> refusal f2 \<and> st2 = st) \<and>
    (cancel_submission he i st = (st3, Inl f3) \<longrightarrow> refusal f3 \<and> st3 = st)"
proof -
  have "refusal f3 \<and> st3 = st" if "cancel_submission he i st = (st3, Inl f3)"
    using that by (auto simp: cancel_submission_def Let_def cancel_def dest!: transact_Inl split: prod.splits sum.splits)
  then show ?thesis
    using create_refused patch_refused [OF assms] by blast
qed

lemma demo_created_reachable: "reachable (as_store demo_created)"
  using demo_create
proof (rule create_201)
  fix key digest resolved rec
  assume "accept (hd_ulid demo_handler) (hd_now demo_handler) (hd_stamp demo_handler)
      (accept_spec_of (local_client_id demo_api) key demo_local_request digest resolved)
      (as_store (hd_between demo_handler demo_state)) = (as_store demo_created, Inr rec)"
  then have "store_step (as_store (hd_between demo_handler demo_state)) (as_store demo_created)"
    by (rule store_step.accepting)
  then show ?thesis
    using demo_start_reachable unfolding reachable_def by (rule rtranclp.rtrancl_into_rtrancl [rotated])
qed

definition demo_patch :: submission_patch where
  "demo_patch = \<lparr>pt_priority = Some 60, pt_not_before = None, pt_start_deadline = None\<rparr>"

lemma refused_requests_change_nothing_witness:
  "create_submission demo_api demo_config demo_handler (\<lambda>_. None) demo_request demo_created =
     (demo_created, Inl (invalid ''Idempotency-Key header is required'' None)) \<and>
   patch_submission demo_handler ''sub_1'' (\<lambda>_. Some ''7'') demo_patch demo_created =
     (demo_created, Inl (from_store RevisionConflict)) \<and>
   cancel_submission demo_handler ''sub_9'' demo_created = (demo_created, Inl not_found)"
proof -
  note calm = refused_requests_change_nothing [OF demo_created_reachable]
  have still: "hd_between demo_handler demo_created = demo_created"
    by (simp add: demo_handler_def)
  have "snd (create_submission demo_api demo_config demo_handler (\<lambda>_. None) demo_request demo_created) =
      Inl (invalid ''Idempotency-Key header is required'' None)"
    by code_simp
  then obtain st1 where one: "create_submission demo_api demo_config demo_handler (\<lambda>_. None) demo_request demo_created =
      (st1, Inl (invalid ''Idempotency-Key header is required'' None))"
    by (metis prod.collapse)
  have "snd (patch_submission demo_handler ''sub_1'' (\<lambda>_. Some ''7'') demo_patch demo_created) =
      Inl (from_store RevisionConflict)"
    by code_simp
  then obtain st2 where two: "patch_submission demo_handler ''sub_1'' (\<lambda>_. Some ''7'') demo_patch demo_created =
      (st2, Inl (from_store RevisionConflict))"
    by (metis prod.collapse)
  have "snd (cancel_submission demo_handler ''sub_9'' demo_created) = Inl not_found"
    by code_simp
  then obtain st3 where three: "cancel_submission demo_handler ''sub_9'' demo_created = (st3, Inl not_found)"
    by (metis prod.collapse)
  have "st1 = demo_created"
    using calm [THEN conjunct1, rule_format, OF one] still by simp
  moreover have "st2 = demo_created"
    using calm [THEN conjunct2, THEN conjunct1, rule_format, OF two] by (rule conjunct2)
  moreover have "st3 = demo_created"
    using calm [THEN conjunct2, THEN conjunct2, rule_format, OF three] by (rule conjunct2)
  ultimately show ?thesis using one two three by (simp only: simp_thms)
qed

section \<open>Repeated requests\<close>

lemma replay_answer:
  "accept ulid now st spec s = (s, Inr rec) \<Longrightarrow> ar_replay rec \<Longrightarrow>
     idempotent_replay (acc_client_id spec) (acc_idempotency_key spec) (acc_request_digest spec) s =
       Inr (Some (ar_response rec))"
  "accept ulid now st spec s = (s, Inl IdempotencyConflict) \<Longrightarrow>
     idempotent_replay (acc_client_id spec) (acc_idempotency_key spec) (acc_request_digest spec) s =
       Inl IdempotencyConflict"
proof -
  show "idempotent_replay (acc_client_id spec) (acc_idempotency_key spec) (acc_request_digest spec) s =
      Inr (Some (ar_response rec))"
    if "accept ulid now st spec s = (s, Inr rec)" and new: "ar_replay rec"
  proof -
    have "accept_tx ulid now st spec s = Inr (s, rec)"
      using that(1) by (auto simp: accept_def elim: transact_cases)
    then show ?thesis
      by (rule accept_tx_Inr) (simp_all add: idempotent_replay_def new)
  qed
  show "idempotent_replay (acc_client_id spec) (acc_idempotency_key spec) (acc_request_digest spec) s =
      Inl IdempotencyConflict"
    if "accept ulid now st spec s = (s, Inl IdempotencyConflict)"
    using that
    by (auto simp: accept_def transact_def accept_tx_def idempotent_replay_def append_event_tx_def Let_def result_simps
        to_u64_def split: option.splits if_splits sum.splits prod.splits)
qed

text \<open>
  C35: repeating a request is safe: after a Submission was created, the same key is answered at
  any later time - whatever happened to the Submission, and even if the configuration would now
  refuse the request - with the first answer marked as a replay if the request is the same
  (the client's own reference may differ), and with a conflict if it is another; in both cases
  nothing is created or changed.
\<close>

theorem create_replay:
  assumes "reachable (as_store (hd_between he st))"
    and "create_submission env config he headers request st = (st1, Inr (201, resp))"
    and "store_step\<^sup>*\<^sup>* (as_store st1) (as_store st2)"
    and "headers' ''Idempotency-Key'' = headers ''Idempotency-Key''"
    and "request_digest env request' = Inr digest'"
  shows "create_submission env config' he' headers' request' st2 = (st2,
      if digest' = sa_request_digest resp then Inr (200, resp\<lparr>sa_idempotent_replay := True\<rparr>)
      else Inl (from_store IdempotencyConflict)) \<and>
    (request'\<lparr>sc_client_reference := None\<rparr> = request\<lparr>sc_client_reference := None\<rparr> \<longrightarrow>
      digest' = sa_request_digest resp)"
proof -
  obtain key digest resolved rec where key: "idempotency_key headers = Inr key"
    and digest: "request_digest env request = Inr digest"
    and acc: "accept (hd_ulid he) (hd_now he) (hd_stamp he)
       (accept_spec_of (local_client_id env) key request digest resolved)
       (as_store (hd_between he st)) = (as_store st1, Inr rec)"
    and new: "\<not> ar_replay rec" "resp = ar_response rec"
    using assms(2) by (rule create_201)
  let ?spec = "accept_spec_of (local_client_id env) key request digest resolved"
  let ?spec' = "accept_spec_of (local_client_id env) key request' digest' resolved"
  have "accept_tx (hd_ulid he) (hd_now he) (hd_stamp he) ?spec (as_store (hd_between he st)) =
      Inr (as_store st1, rec)"
    using acc by (auto simp: accept_def elim: transact_cases)
  then have resp_digest: "sa_request_digest resp = digest"
    by (rule accept_tx_Inr) (use new in \<open>simp_all add: accepted_response_def accept_spec_of_def\<close>)
  have again: "accept ulid now stamp ?spec' (as_store st2) = (as_store st2,
      if digest' = digest then Inr \<lparr>ar_response = resp\<lparr>sa_idempotent_replay := True\<rparr>, ar_replay = True\<rparr>
      else Inl IdempotencyConflict)" for ulid now stamp
    using accept_again [OF wf_reachable [OF assms(1)] acc assms(3), of ?spec' ulid now stamp] new
    by (simp add: accept_spec_of_def)
  have "idempotent_replay (local_client_id env) key digest' (as_store st2) =
      (if digest' = digest then Inr (Some (resp\<lparr>sa_idempotent_replay := True\<rparr>)) else Inl IdempotencyConflict)"
    using replay_answer [of _ _ _ ?spec' "as_store st2"] again
    by (auto simp: accept_spec_of_def split: if_splits)
  moreover have "idempotency_key headers' = Inr key"
    using key assms(4) by (simp add: idempotency_key_def)
  ultimately have "create_submission env config' he' headers' request' st2 = (st2,
      if digest' = sa_request_digest resp then Inr (200, resp\<lparr>sa_idempotent_replay := True\<rparr>)
      else Inl (from_store IdempotencyConflict))"
    using assms(5) resp_digest by (simp add: create_submission_def)
  moreover have "digest' = digest"
    if "request'\<lparr>sc_client_reference := None\<rparr> = request\<lparr>sc_client_reference := None\<rparr>"
    using that assms(5) digest by (simp add: request_digest_def Let_def)
  ultimately show ?thesis using resp_digest by simp
qed

lemma create_replay_witness:
  "create_submission demo_api (demo_config\<lparr>cfg_routes := []\<rparr>) demo_handler demo_headers
     (demo_local_request\<lparr>sc_client_reference := Some ''again''\<rparr>) demo_created =
     (demo_created, Inr (200, demo_response\<lparr>sa_idempotent_replay := True\<rparr>)) \<and>
   create_submission demo_api demo_config demo_handler demo_headers demo_request demo_created =
     (demo_created, Inl (from_store IdempotencyConflict))"
proof -
  have digests: "request_digest demo_api (demo_local_request\<lparr>sc_client_reference := Some ''again''\<rparr>) =
      Inr (sa_request_digest demo_response)"
    "request_digest demo_api demo_request = Inr ''sha256:n''"
    by code_simp+
  have other: "''sha256:n'' \<noteq> sa_request_digest demo_response"
    by code_simp
  note replay = create_replay [OF demo_start_reachable demo_create, of demo_created demo_headers]
  show ?thesis
    using replay [OF rtranclp.rtrancl_refl refl digests(1)] replay [OF rtranclp.rtrancl_refl refl digests(2)]
      other by simp
qed

section \<open>The entity tag\<close>

definition patched :: "submission_patch \<Rightarrow> submission_row \<Rightarrow> submission_row \<Rightarrow> bool" where
  "patched patch r r' \<longleftrightarrow> s_state r = ''queued'' \<and> s_state r' = ''queued'' \<and> s_revision r' = s_revision r + 1 \<and>
     s_priority r' = (case pt_priority patch of None \<Rightarrow> s_priority r | Some p \<Rightarrow> uint p) \<and>
     s_not_before r' = (case pt_not_before patch of None \<Rightarrow> s_not_before r | Some v \<Rightarrow> v) \<and>
     s_start_deadline r' = (case pt_start_deadline patch of None \<Rightarrow> s_start_deadline r | Some v \<Rightarrow> v) \<and>
     plan_of r' = plan_of r"

lemma patched_row:
  assumes "patch_scheduling_tx fmt now st i expected patch s = Inr (s', u)" and "fetch_submission i s = Some r"
  shows "s_revision r = uint expected \<and> (\<exists>r'. fetch_submission i s' = Some r' \<and> patched patch r r')"
  using assms(1)
proof (rule patch_scheduling_tx_Inr)
  fix row :: submission_row and priority s1 ev
  let ?p = "\<lambda>r. s_submission_id r = i \<and> s_state r = ''queued'' \<and> s_revision r = uint expected"
  let ?f = "reschedule now priority
      (case pt_not_before patch of None \<Rightarrow> s_not_before row | Some v \<Rightarrow> v)
      (case pt_start_deadline patch of None \<Rightarrow> s_start_deadline row | Some v \<Rightarrow> v)"
  assume row: "fetch_submission i s = Some row" "to_u64 (s_revision row) = Inr expected" "s_state row = ''queued''"
    and prio: "case pt_priority patch of Some p \<Rightarrow> priority = p | None \<Rightarrow> uint priority = s_priority row"
    and app: "append_event_tx st i None ''submission.scheduling_changed'' (patch_json fmt patch)
      (s\<lparr>submissions := update_where ?p ?f (submissions s)\<rparr>) = Inr (s1, ev)"
    and s': "s' = send_events [ev] s1"
  have r: "row = r" using row(1) assms(2) by simp
  have rev: "s_revision r = uint expected"
    using row(2) r by (auto simp: to_u64_def result_simps try_from_int_Some uint_word_of_int_in_range)
  have "fetch_submission i (s\<lparr>submissions := update_where ?p ?f (submissions s)\<rparr>) = Some (?f r)"
    using row r rev fetch_member [OF row(1)]
    by (subst fetch_after_update [of _ ?p ?f s]) (simp_all add: reschedule_def)
  moreover have "s_submission_id (?f r) = i"
    using fetch_member [OF row(1)] r by (simp add: reschedule_def)
  ultimately have "fetch_submission i s' = Some (bump_sequence (?f r))"
    by (simp add: s' fetch_after_append [OF app])
  moreover have "patched patch r (bump_sequence (?f r))"
    using prio r row(3)
    by (auto simp: patched_def reschedule_def bump_sequence_def plan_of_def split: option.splits)
  ultimately show ?thesis using rev by blast
qed

lemma tag_revision:
  assumes "\<forall>t v. en_header_value env t = Some v \<longrightarrow> v = t"
    and "get_submission env i st = Inr (body, tag)" and "headers ''If-Match'' = Some tag"
  shows "if_match headers = Inr (st_revision body) \<and> status i (as_store st) = Inr body"
proof -
  have "tag = etag_text (st_revision body)" "status i (as_store st) = Inr body"
    using assms(1,2) by (auto simp: get_submission_def result_simps map_err_def split: sum.splits)
  then show ?thesis
    using assms(3) by (simp add: if_match_def etag_text_def trim_quoted)
qed

definition admissible :: "submission_patch \<Rightarrow> bool" where
  "admissible patch \<longleftrightarrow> (pt_priority patch \<noteq> None \<or> pt_not_before patch \<noteq> None \<or> pt_start_deadline patch \<noteq> None) \<and>
     (\<forall>p. pt_priority patch = Some p \<longrightarrow> unat p \<le> 100)"

text \<open>A patch that succeeds was applied to a row of the expected revision; any other is refused.\<close>

lemma patch_applied:
  assumes wf: "wf_store (as_store st)" and run: "patch_submission he i headers patch st = (st', Inr body)"
    and tag: "if_match headers = Inr revision" and row: "fetch_submission i (as_store st) = Some r"
  shows "s_revision r = uint revision \<and> (\<exists>r'. fetch_submission i (as_store st') = Some r' \<and> patched patch r r' \<and>
    uint (st_revision body) = s_revision r')"
proof -
  obtain s' where patch: "patch_scheduling (hd_format he) (hd_now he) (hd_stamp he) i revision patch (as_store st)
      = (s', Inr body)" and st': "st' = notify_one (st\<lparr>as_store := s'\<rparr>)"
    using run tag by (auto simp: patch_submission_def result_simps split: prod.splits sum.splits)
  then have tx: "patch_scheduling_tx (hd_format he) (hd_now he) (hd_stamp he) i revision patch (as_store st)
      = Inr (s', ())" and read: "status i s' = Inr body"
    by (auto simp: patch_scheduling_def transact_def split: prod.splits sum.splits)
  obtain r' where r': "fetch_submission i s' = Some r'" "patched patch r r'" "s_revision r = uint revision"
    using patched_row [OF tx row] by auto
  have wf': "wf_store s'" by (rule wf_patch_scheduling_tx [OF wf tx])
  obtain y where "s_state r' = state_name y" using wf_state [OF wf' r'(1)] by blast
  then have "uint (st_revision body) = s_revision r'"
    using status_total [OF wf' r'(1)] read by fastforce
  then show ?thesis
    using r' st' by (auto simp: notify_one_def)
qed

lemma patch_stale:
  assumes wf: "wf_store (as_store st)" and run: "patch_submission he i headers patch st = (st', res)"
    and tag: "if_match headers = Inr revision" and row: "fetch_submission i (as_store st) = Some r"
    and moved: "s_revision r \<noteq> uint revision" "admissible patch"
  shows "res = Inl (from_store RevisionConflict)"
proof -
  obtain x where "s_state r = state_name x" using wf_state [OF wf row] by blast
  then obtain body where body: "status i (as_store st) = Inr body" "uint (st_revision body) = s_revision r"
    using status_total [OF wf row] by blast
  then have "to_u64 (s_revision r) = Inr (st_revision body)"
    by (simp add: to_u64_def flip: body(2))
  moreover have "st_revision body \<noteq> revision"
    using moved(1) body(2) by auto
  ultimately have "patch_scheduling (hd_format he) (hd_now he) (hd_stamp he) i revision patch (as_store st)
      = (as_store st, Inl RevisionConflict)"
    using moved(2) row
    by (auto simp: patch_scheduling_def transact_def patch_scheduling_tx_def admissible_def)
  moreover have "bail_if (case pt_priority patch of None \<Rightarrow> False | Some priority \<Rightarrow> 100 < priority) f = Inr ()"
    for f :: api_failure
    using moved(2) by (auto simp: admissible_def result_simps word_less_nat_alt split: option.splits)
  ultimately show ?thesis
    using run tag by (auto simp: patch_submission_def)
qed

text \<open>
  C36: no update is lost: a client that sends back, as \<open>If-Match\<close>, the tag it got with a status
  changes the scheduling only if nothing but the event counter has moved since - then exactly
  the fields of the patch change and the revision grows by one; if the Submission has moved, an
  admissible patch is refused with \<open>revision_conflict\<close>.
\<close>

theorem etag_guards_patch:
  assumes "reachable (as_store st)" and "\<forall>t v. en_header_value env t = Some v \<longrightarrow> v = t"
    and "get_submission env i st = Inr (body, tag)" and "headers ''If-Match'' = Some tag"
    and "fetch_submission i (as_store st) = Some r" and "store_step\<^sup>*\<^sup>* (as_store st) (as_store st2)"
    and "fetch_submission i (as_store st2) = Some r2"
    and "patch_submission he i headers patch st2 = (st3, res)"
  shows "(\<forall>body'. res = Inr body' \<longrightarrow> (\<exists>n. r2 = r\<lparr>s_latest_event_sequence := n\<rparr>) \<and>
      (\<exists>r3. fetch_submission i (as_store st3) = Some r3 \<and> patched patch r2 r3 \<and>
        uint (st_revision body') = s_revision r3)) \<and>
    (s_revision r2 \<noteq> s_revision r \<and> admissible patch \<longrightarrow> res = Inl (from_store RevisionConflict))"
proof -
  note wf = wf_reachable [OF assms(1)]
  note wf2 = wf_steps [OF assms(6) wf]
  have tag: "if_match headers = Inr (st_revision body)" "status i (as_store st) = Inr body"
    using tag_revision [where headers = headers, OF assms(2-4)] by simp_all
  obtain x where "s_state r = state_name x" using wf_state [OF wf assms(5)] by blast
  then have rev: "uint (st_revision body) = s_revision r"
    using status_total [OF wf assms(5)] tag by fastforce
  have "only_events r r2" if "s_revision r2 = s_revision r"
  proof -
    obtain r' where "fetch_submission i (as_store st2) = Some r'" "row_step\<^sup>*\<^sup>* r r'"
      using fetch_along [OF assms(6,5)] by blast
    then show ?thesis using row_steps_revision that assms(7) by auto
  qed
  then show ?thesis
    using patch_applied [OF wf2 _ tag(1) assms(7)] patch_stale [OF wf2 assms(8) tag(1) assms(7)] assms(8) rev
    unfolding only_events_def by metis
qed

definition demo_seen :: submission_status where
  "demo_seen = projr (status ''sub_1'' (as_store demo_created))"

lemma etag_guards_patch_witness:
  "get_submission demo_api ''sub_1'' demo_created = Inr (demo_seen, [CHR 0x22, CHR ''1'', CHR 0x22]) \<and>
   (\<exists>st3 body r3. patch_submission (demo_handler\<lparr>hd_stamp := (''e7'', 7)\<rparr>) ''sub_1''
      (\<lambda>_. Some [CHR 0x22, CHR ''1'', CHR 0x22]) demo_patch demo_created = (st3, Inr body) \<and>
    fetch_submission ''sub_1'' (as_store st3) = Some r3 \<and> s_priority r3 = 60 \<and> s_revision r3 = 2)"
proof -
  have "case get_submission demo_api ''sub_1'' demo_created of
      Inl _ \<Rightarrow> False | Inr (body, tag) \<Rightarrow> tag = [CHR 0x22, CHR ''1'', CHR 0x22]"
    by code_simp
  then have got: "get_submission demo_api ''sub_1'' demo_created = Inr (demo_seen, [CHR 0x22, CHR ''1'', CHR 0x22])"
    by (auto simp: demo_seen_def get_submission_def result_simps map_err_def split: sum.splits)
  have row: "fetch_submission ''sub_1'' (as_store demo_created) = Some (submissions (as_store demo_created) ! 0)"
    "s_revision (submissions (as_store demo_created) ! 0) = 1"
    by code_simp+
  have "case snd (patch_submission (demo_handler\<lparr>hd_stamp := (''e7'', 7)\<rparr>) ''sub_1''
      (\<lambda>_. Some [CHR 0x22, CHR ''1'', CHR 0x22]) demo_patch demo_created) of Inl _ \<Rightarrow> False | Inr _ \<Rightarrow> True"
    by code_simp
  then obtain st3 body where run: "patch_submission (demo_handler\<lparr>hd_stamp := (''e7'', 7)\<rparr>) ''sub_1''
      (\<lambda>_. Some [CHR 0x22, CHR ''1'', CHR 0x22]) demo_patch demo_created = (st3, Inr body)"
    by (metis (no_types, lifting) prod.collapse sum.case_eq_if sum.collapse(2))
  have plain: "\<forall>t v. en_header_value demo_api t = Some v \<longrightarrow> v = t"
    by (simp add: demo_api_def)
  obtain r3 where "fetch_submission ''sub_1'' (as_store st3) = Some r3"
    "patched demo_patch (submissions (as_store demo_created) ! 0) r3"
    using etag_guards_patch [OF demo_created_reachable plain got refl row(1) rtranclp.rtrancl_refl row(1) run] by blast
  then show ?thesis
    using got run row(2) by (auto simp: patched_def demo_patch_def)
qed

end
