(* ===== verification/Race.thy ===== *)
theory Race
  imports Handlers Demo
begin

text \<open>
  Cancelling while the scheduler is starting the attempt. Two tasks race: the scheduler claims
  the Submission, registers the attempt's channel, then looks whether a cancellation was
  requested before the channel was there (\<open>start_turn\<close>); the handler stores the request, then
  looks for the channel (\<open>cancel_submission\<close>). Every await is a point where the others run:
  \<open>race_step\<close> is one step of one of them, any number of handlers at a time.
\<close>

datatype stage =
    Idle
  | Claimed string
  | Registered string
  | Checked string bool

record race =
  rc_store :: store
  rc_channels :: cancellations
  rc_stage :: stage
  rc_waiting :: "string list"

text \<open>\<open>rc_waiting\<close>: the handlers that have stored the request and not yet looked for the channel.\<close>

definition flagged :: "string \<Rightarrow> store \<Rightarrow> bool" where
  "flagged i s \<longleftrightarrow> (i, True) \<in> set (map (\<lambda>r. (s_submission_id r, s_cancel_requested r)) (submissions s))"

inductive race_step :: "race \<Rightarrow> race \<Rightarrow> bool" where
  claiming: "rc_stage w = Idle \<Longrightarrow> claim now st1 st2 spec (rc_store w) = (s', Inr att) \<Longrightarrow>
     race_step w (w\<lparr>rc_store := s', rc_stage := Claimed (cl_submission_id spec)\<rparr>)"
| registering: "rc_stage w = Claimed i \<Longrightarrow>
     race_step w (w\<lparr>rc_channels := (rc_channels w)(i \<mapsto> False), rc_stage := Registered i\<rparr>)"
| looking: "rc_stage w = Registered i \<Longrightarrow>
     race_step w (w\<lparr>rc_stage := Checked i
       (case cancellation_requested i (rc_store w) of Inr requested \<Rightarrow> requested | Inl _ \<Rightarrow> True)\<rparr>)"
| telling: "rc_stage w = Checked i requested \<Longrightarrow>
     race_step w (w\<lparr>rc_channels := (if requested then signal i (rc_channels w) else rc_channels w),
       rc_stage := Idle\<rparr>)"
| requesting: "cancel now st i (rc_store w) = (s', Inr (disposition, revision)) \<Longrightarrow>
     race_step w (w\<lparr>rc_store := s', rc_waiting :=
       (if disposition = ''cancellation_requested'' then i # rc_waiting w else rc_waiting w)\<rparr>)"
| delivering: "rc_waiting w = xs @ i # ys \<Longrightarrow>
     race_step w (w\<lparr>rc_channels := signal i (rc_channels w), rc_waiting := xs @ ys\<rparr>)"
| ending: "race_step w (w\<lparr>rc_channels := (rc_channels w)(i := None)\<rparr>)"
| stopping: "race_step w (w\<lparr>rc_channels := cancel_all (rc_channels w)\<rparr>)"
| working: "store_step (rc_store w) s' \<Longrightarrow> \<forall>i. flagged i s' \<longrightarrow> flagged i (rc_store w) \<Longrightarrow>
     race_step w (w\<lparr>rc_store := s'\<rparr>)"

text \<open>The last case covers every other operation of the store: only \<open>cancel\<close> sets the flag.\<close>

lemma flagged_append:
  "append_event_tx st sid att ty data s = Inr (s', ev) \<Longrightarrow> flagged i (send_events evs s') \<longleftrightarrow> flagged i s"
  "append_event_tx st sid att ty data s = Inr (s', ev) \<Longrightarrow> flagged i s' \<longleftrightarrow> flagged i s"
  by (simp_all add: flagged_def append_event_tx_parts map_update_where bump_sequence_def del: set_map list.set_map)

lemma flagged_update:
  "submissions s' = update_where p f (submissions s) \<Longrightarrow>
     (\<And>r. s_submission_id (f r) = s_submission_id r \<and> s_cancel_requested (f r) = s_cancel_requested r) \<Longrightarrow>
     flagged i s' \<longleftrightarrow> flagged i s"
  by (simp add: flagged_def map_update_where del: set_map list.set_map)

lemma cancel_flags:
  assumes "cancel now st i s = (s', Inr (d, revision))" and "flagged j s'"
  shows "flagged j s \<or> j = i \<and> d = ''cancellation_requested''"
proof -
  have "cancel_tx now st i s = Inr (s', d, revision)"
    using assms(1) by (auto simp: cancel_def elim: transact_cases)
  then show ?thesis
  proof (rule cancel_tx_Inr)
    fix row s1 ev
    assume app: "append_event_tx st i None ''submission.state_changed''
         (JObject [(''from'', JString ''queued''), (''reason'', JString ''cancelled_by_client''),
            (''to'', JString ''cancelled'')])
         (s\<lparr>submissions := update_where (queued_row i) (leave_queue now ''cancelled'') (submissions s)\<rparr>) = Inr (s1, ev)"
      and "s' = send_events [ev] s1"
    then show ?thesis
      using assms(2) flagged_append(1) [OF app] by (simp add: flagged_update leave_queue_def)
  next
    fix row s1 ev
    let ?p = "\<lambda>r. s_submission_id r = i \<and> s_state r = ''running'' \<and> \<not> s_cancel_requested r"
    assume app: "append_event_tx st i (active_attempt_id i s) ''cancellation.requested'' (JObject [])
         (s\<lparr>submissions := update_where ?p (request_cancel now) (submissions s)\<rparr>) = Inr (s1, ev)"
      and s': "s' = send_events [ev] s1" and d: "d = ''cancellation_requested''"
    have "flagged j (s\<lparr>submissions := update_where ?p (request_cancel now) (submissions s)\<rparr>)"
      using assms(2) unfolding s' flagged_append(1) [OF app] .
    then have "flagged j s \<or> j = i"
      unfolding flagged_def by (auto simp: set_update_where request_cancel_def)
    with d show ?thesis by blast
  qed (use assms(2) in simp_all)
qed

lemma claim_flags: "claim now st1 st2 spec s = (s', Inr att) \<Longrightarrow> flagged i s' \<Longrightarrow> flagged i s"
proof -
  assume claim: "claim now st1 st2 spec s = (s', Inr att)" and flag: "flagged i s'"
  then have "claim_tx now st1 st2 spec s = Inr (s', ())"
    by (auto simp: claim_def transact_def split: sum.splits prod.splits)
  then show "flagged i s"
  proof (rule claim_tx_Inr)
    fix row s1 s2 ev1 ev2
    assume one: "append_event_tx st1 (cl_submission_id spec) (Some (cl_attempt_id spec)) ''attempt.created''
         (JObject [(''attempt_id'', JString (cl_attempt_id spec)), (''state'', JString ''starting'')])
         (claimed now spec s) = Inr (s1, ev1)"
      and two: "append_event_tx st2 (cl_submission_id spec) (Some (cl_attempt_id spec))
         ''submission.state_changed''
         (JObject [(''from'', JString ''queued''), (''to'', JString ''running'')]) s1 = Inr (s2, ev2)"
      and s': "s' = send_events [ev1, ev2] s2"
    have "flagged i (claimed now spec s) = flagged i s"
      by (rule flagged_update [where f = "start_running now"]) (auto simp: claimed_def start_running_def)
    then show ?thesis
      using flag by (simp add: s' flagged_append(1) [OF two] flagged_append(2) [OF one])
  qed
qed

section \<open>No request is lost\<close>

definition initial_race :: race where
  "initial_race = \<lparr>rc_store = empty_store, rc_channels = Map.empty, rc_stage = Idle, rc_waiting = []\<rparr>"

definition race_ok :: "race \<Rightarrow> bool" where
  "race_ok w \<longleftrightarrow> reachable (rc_store w) \<and> (\<forall>i. flagged i (rc_store w) \<and> rc_channels w i = Some False \<longrightarrow>
     i \<in> set (rc_waiting w) \<or> rc_stage w = Registered i \<or> rc_stage w = Checked i True)"

lemma flagged_read:
  assumes "reachable s" and "flagged i s"
  shows "cancellation_requested i s = Inr True"
proof -
  obtain r where "r \<in> set (submissions s)" "s_submission_id r = i" "s_cancel_requested r"
    using assms(2) by (auto simp: flagged_def)
  then show ?thesis
    using member_fetch [OF wf_reachable [OF assms(1)]] by (auto simp: cancellation_requested_def)
qed

lemma signal_False: "signal i cancels j = Some False \<longleftrightarrow> j \<noteq> i \<and> cancels j = Some False"
  by (auto simp: signal_def split: option.splits)

lemma race_ok_step: "race_step w w' \<Longrightarrow> race_ok w \<Longrightarrow> race_ok w'"
proof (induction rule: race_step.induct)
  case (claiming w now st1 st2 spec s' att)
  have "store_step (rc_store w) s'" by (rule store_step.claiming [OF claiming(2)])
  then have "reachable s'"
    using claiming(3) by (auto simp: race_ok_def reachable_def)
  then show ?case
    using claiming claim_flags [OF claiming(2)] by (auto simp: race_ok_def)
next
  case (looking w i)
  then show ?case
    using flagged_read by (auto simp: race_ok_def split: sum.splits)
next
  case (requesting now st i w s' disposition revision)
  have "store_step (rc_store w) s'" by (rule store_step.cancelling [OF requesting(1)])
  then have "reachable s'"
    using requesting(2) by (auto simp: race_ok_def reachable_def)
  then show ?case
    using requesting(2) cancel_flags [OF requesting(1)] by (auto simp: race_ok_def)
next
  case (working w s')
  then have "reachable s'" by (auto simp: race_ok_def reachable_def)
  then show ?case using working by (auto simp: race_ok_def)
qed (auto simp: race_ok_def signal_False cancel_all_def)

text \<open>
  C38: a cancellation is never lost to the race with the scheduler: in every interleaving, once
  the request is stored, the attempt's channel - if it is still registered - carries it, unless
  a handler has yet to look for the channel or the scheduler has yet to look for the request;
  so when nobody is under way, every registered channel of a cancelled Submission says so.
\<close>

theorem cancellation_never_lost:
  assumes "race_step\<^sup>*\<^sup>* initial_race w" and "flagged i (rc_store w)" and "rc_channels w i = Some b"
  shows "b \<or> i \<in> set (rc_waiting w) \<or> rc_stage w = Registered i \<or> rc_stage w = Checked i True"
proof -
  have "race_ok initial_race"
    by (simp add: race_ok_def initial_race_def reachable_def)
  with assms(1) have "race_ok w"
    by (induction rule: rtranclp_induct) (blast intro: race_ok_step)+
  then show ?thesis
    using assms(2,3) by (cases b) (auto simp: race_ok_def)
qed

text \<open>The schedule the look-up after the registration is there for: the handler is done too early.\<close>

definition demo_cancelled :: store where
  "demo_cancelled = fst (cancel 8 (''e8'', 8) ''sub_1'' demo_running)"

lemma cancellation_never_lost_witness:
  "\<exists>w. race_step\<^sup>*\<^sup>* initial_race w \<and> rc_stage w = Idle \<and> rc_waiting w = [] \<and>
     flagged ''sub_1'' (rc_store w) \<and> rc_channels w ''sub_1'' = Some True"
proof -
  let ?w = "\<lambda>s channels stage waiting. \<lparr>rc_store = s, rc_channels = channels, rc_stage = stage, rc_waiting = waiting\<rparr>"
  have flags: "map (\<lambda>r. (s_submission_id r, s_cancel_requested r)) (submissions demo_queued) = [(''sub_1'', False)]"
    "map (\<lambda>r. (s_submission_id r, s_cancel_requested r)) (submissions demo_cancelled) = [(''sub_1'', True)]"
    by code_simp+
  have "case snd (claim 1 (''e2'', 1) (''e3'', 1) (demo_claim ''sub_1'' ''att_1'') demo_queued) of
      Inl _ \<Rightarrow> False | Inr _ \<Rightarrow> True"
    by code_simp
  then obtain att where claim: "claim 1 (''e2'', 1) (''e3'', 1) (demo_claim ''sub_1'' ''att_1'') demo_queued =
      (demo_running, Inr att)"
    unfolding demo_running_def by (metis prod.collapse sum.case_eq_if sum.collapse(2))
  have "snd (cancel 8 (''e8'', 8) ''sub_1'' demo_running) = Inr (''cancellation_requested'', 3)"
    by code_simp
  then have cancel: "cancel 8 (''e8'', 8) ''sub_1'' demo_running = (demo_cancelled, Inr (''cancellation_requested'', 3))"
    by (simp add: demo_cancelled_def prod_eq_iff)
  have target: "cl_submission_id (demo_claim ''sub_1'' ''att_1'') = ''sub_1''"
    by (simp add: demo_claim_def)
  have flag: "flagged ''sub_1'' demo_cancelled"
    unfolding flagged_def flags by simp
  have steps: "race_step initial_race (?w demo_queued Map.empty Idle [])"
    "race_step (?w demo_queued Map.empty Idle []) (?w demo_running Map.empty (Claimed ''sub_1'') [])"
    "race_step (?w demo_running Map.empty (Claimed ''sub_1'') []) (?w demo_cancelled Map.empty (Claimed ''sub_1'') [''sub_1''])"
    "race_step (?w demo_cancelled Map.empty (Claimed ''sub_1'') [''sub_1'']) (?w demo_cancelled Map.empty (Claimed ''sub_1'') [])"
    "race_step (?w demo_cancelled Map.empty (Claimed ''sub_1'') [])
       (?w demo_cancelled [''sub_1'' \<mapsto> False] (Registered ''sub_1'') [])"
    "race_step (?w demo_cancelled [''sub_1'' \<mapsto> False] (Registered ''sub_1'') [])
       (?w demo_cancelled [''sub_1'' \<mapsto> False] (Checked ''sub_1'' True) [])"
    "race_step (?w demo_cancelled [''sub_1'' \<mapsto> False] (Checked ''sub_1'' True) [])
       (?w demo_cancelled [''sub_1'' \<mapsto> True] Idle [])"
  proof -
    have "\<forall>i. flagged i demo_queued \<longrightarrow> flagged i empty_store"
      unfolding flagged_def flags by simp
    then show "race_step initial_race (?w demo_queued Map.empty Idle [])"
      using race_step.working [of initial_race demo_queued] demo_steps(1) by (simp add: initial_race_def)
    show "race_step (?w demo_queued Map.empty Idle []) (?w demo_running Map.empty (Claimed ''sub_1'') [])"
      using race_step.claiming [of "?w demo_queued Map.empty Idle []"] claim by (fastforce simp: target)
    show "race_step (?w demo_running Map.empty (Claimed ''sub_1'') []) (?w demo_cancelled Map.empty (Claimed ''sub_1'') [''sub_1''])"
      using race_step.requesting [of 8 "(''e8'', 8)" "''sub_1''" "?w demo_running Map.empty (Claimed ''sub_1'') []"] cancel
      by fastforce
    show "race_step (?w demo_cancelled Map.empty (Claimed ''sub_1'') [''sub_1'']) (?w demo_cancelled Map.empty (Claimed ''sub_1'') [])"
      using race_step.delivering [of "?w demo_cancelled Map.empty (Claimed ''sub_1'') [''sub_1'']" "[]" "''sub_1''" "[]"]
      by (simp add: signal_def)
    show "race_step (?w demo_cancelled Map.empty (Claimed ''sub_1'') [])
       (?w demo_cancelled [''sub_1'' \<mapsto> False] (Registered ''sub_1'') [])"
      using race_step.registering [of "?w demo_cancelled Map.empty (Claimed ''sub_1'') []" "''sub_1''"] by simp
    have "cancellation_requested ''sub_1'' demo_cancelled = Inr True"
      by code_simp
    then show "race_step (?w demo_cancelled [''sub_1'' \<mapsto> False] (Registered ''sub_1'') [])
       (?w demo_cancelled [''sub_1'' \<mapsto> False] (Checked ''sub_1'' True) [])"
      using race_step.looking [of "?w demo_cancelled [''sub_1'' \<mapsto> False] (Registered ''sub_1'') []" "''sub_1''"] by simp
    show "race_step (?w demo_cancelled [''sub_1'' \<mapsto> False] (Checked ''sub_1'' True) [])
       (?w demo_cancelled [''sub_1'' \<mapsto> True] Idle [])"
      using race_step.telling [of "?w demo_cancelled [''sub_1'' \<mapsto> False] (Checked ''sub_1'' True) []" "''sub_1''" True]
      by (simp add: signal_def)
  qed
  have path: "race_step\<^sup>*\<^sup>* initial_race (?w demo_cancelled [''sub_1'' \<mapsto> True] Idle [])"
  proof -
    note chain = converse_rtranclp_into_rtranclp [where r = race_step]
    show ?thesis
      by (rule chain [OF steps(1)], rule chain [OF steps(2)], rule chain [OF steps(3)], rule chain [OF steps(4)],
          rule chain [OF steps(5)], rule chain [OF steps(6)], rule chain [OF steps(7)], rule rtranclp.rtrancl_refl)
  qed
  have "rc_channels (?w demo_cancelled [''sub_1'' \<mapsto> True] Idle []) ''sub_1'' = Some True"
    by simp
  from cancellation_never_lost [OF path _ this] show ?thesis
    using path flag by (intro exI [of _ "?w demo_cancelled [''sub_1'' \<mapsto> True] Idle []"]) simp
qed

section \<open>The code takes these steps\<close>

text \<open>A started turn and a cancelled Submission are runs of the race, with the others' work between.\<close>

lemma start_turn_claims:
  assumes "start_turn env q d (s, cancels) = ((s', cancels'), Inr (TurnStarted d' aid told))"
  obtains s1 att where "claim (tn_now env) (tn_stamp1 env) (tn_stamp2 env)
    (claim_of q d (''att_'' @ tn_ulid env)) s = (s1, Inr att)"
proof -
  obtain s1 r where claim: "claim (tn_now env) (tn_stamp1 env) (tn_stamp2 env)
      (claim_of q d (''att_'' @ tn_ulid env)) s = (s1, r)"
    by fastforce
  have "block_turn env i code s \<noteq> (s', Inr (TurnStarted d' aid told))" for i code s s'
    by (simp add: block_turn_def split: prod.splits sum.splits)
  then have "r \<noteq> Inl e" for e
    using assms claim by (cases e) (auto simp: start_turn_def split: prod.splits)
  then show ?thesis
    using that claim by (cases r) auto
qed

lemma start_turn_races:
  assumes "start_turn env q d (s, cancels) = ((s', cancels'), Inr (TurnStarted d' aid told))"
    and "\<And>s. store_step s (tn_after env s) \<and> (\<forall>i. flagged i (tn_after env s) \<longrightarrow> flagged i s)"
  shows "race_step\<^sup>*\<^sup>* \<lparr>rc_store = s, rc_channels = cancels, rc_stage = Idle, rc_waiting = ws\<rparr>
    \<lparr>rc_store = s', rc_channels = cancels', rc_stage = Idle, rc_waiting = ws\<rparr>"
proof -
  let ?i = "q_submission_id q" and ?spec = "claim_of q d (''att_'' @ tn_ulid env)"
  let ?w = "\<lambda>s channels stage. \<lparr>rc_store = s, rc_channels = channels, rc_stage = stage, rc_waiting = ws\<rparr>"
  obtain s1 att where claim: "claim (tn_now env) (tn_stamp1 env) (tn_stamp2 env) ?spec s = (s1, Inr att)"
    using assms(1) by (rule start_turn_claims)
  have told: "told = (case cancellation_requested ?i (tn_after env s1) of Inr requested \<Rightarrow> requested | Inl _ \<Rightarrow> True)"
    and s': "s' = tn_after env s1"
    and cancels': "cancels' = (if told then cancels(?i \<mapsto> True) else cancels(?i \<mapsto> False))"
    using assms(1) claim by (auto simp: start_turn_def Let_def)
  have target: "cl_submission_id (claim_of q d a) = ?i" for a by (simp add: claim_of_def)
  have step1: "race_step (?w s cancels Idle) (?w s1 cancels (Claimed ?i))"
    using race_step.claiming [of "?w s cancels Idle" "tn_now env" "tn_stamp1 env" "tn_stamp2 env" ?spec s1 att] claim
    by (simp add: target)
  have step2: "race_step (?w s1 cancels (Claimed ?i)) (?w s1 (cancels(?i \<mapsto> False)) (Registered ?i))"
    using race_step.registering [of "?w s1 cancels (Claimed ?i)" ?i] by simp
  have step3: "race_step (?w s1 (cancels(?i \<mapsto> False)) (Registered ?i)) (?w s' (cancels(?i \<mapsto> False)) (Registered ?i))"
    using race_step.working [of "?w s1 (cancels(?i \<mapsto> False)) (Registered ?i)" s'] assms(2) [of s1] by (simp add: s')
  have step4: "race_step (?w s' (cancels(?i \<mapsto> False)) (Registered ?i)) (?w s' (cancels(?i \<mapsto> False)) (Checked ?i told))"
    using race_step.looking [of "?w s' (cancels(?i \<mapsto> False)) (Registered ?i)" ?i] by (simp add: told s')
  have step5: "race_step (?w s' (cancels(?i \<mapsto> False)) (Checked ?i told)) (?w s' cancels' Idle)"
    using race_step.telling [of "?w s' (cancels(?i \<mapsto> False)) (Checked ?i told)" ?i told]
    by (cases told) (simp_all add: cancels' signal_def)
  note chain = converse_rtranclp_into_rtranclp [where r = race_step]
  show ?thesis
    by (rule chain [OF step1], rule chain [OF step2], rule chain [OF step3], rule chain [OF step4],
        rule chain [OF step5], rule rtranclp.rtrancl_refl)
qed

lemma cancel_submission_races:
  assumes "cancel_submission he i st = (st', Inr res)" and "\<And>st. hd_between he st = st"
  shows "race_step\<^sup>*\<^sup>*
    \<lparr>rc_store = as_store st, rc_channels = as_cancellations st, rc_stage = g, rc_waiting = []\<rparr>
    \<lparr>rc_store = as_store st', rc_channels = as_cancellations st', rc_stage = g, rc_waiting = []\<rparr>"
proof -
  let ?w = "\<lambda>s channels waiting. \<lparr>rc_store = s, rc_channels = channels, rc_stage = g, rc_waiting = waiting\<rparr>"
  obtain s' d revision where run: "cancel (hd_now he) (hd_stamp he) i (as_store st) = (s', Inr (d, revision))"
    and st': "as_store st' = s'" "as_cancellations st' =
      (if d = ''cancellation_requested'' then signal i (as_cancellations st) else as_cancellations st)"
    using assms by (auto simp: cancel_submission_def Let_def notify_one_def split: prod.splits sum.splits if_splits)
  have one: "race_step (?w (as_store st) (as_cancellations st) [])
      (?w s' (as_cancellations st) (if d = ''cancellation_requested'' then [i] else []))"
    using race_step.requesting [of _ _ i "?w (as_store st) (as_cancellations st) []"] run by fastforce
  have "race_step (?w s' (as_cancellations st) [i]) (?w s' (signal i (as_cancellations st)) [])"
    using race_step.delivering [of "?w s' (as_cancellations st) [i]" "[]" i "[]"] by simp
  with one show ?thesis
    by (auto simp: st' intro: converse_rtranclp_into_rtranclp)
qed

end
