(* ===== verification/Sse.thy ===== *)
theory Sse
  imports Handlers Demo
begin

text \<open>
  The event stream of \<open>GET /v1/submissions/{id}/events\<close> (\<open>events\<close> in api.rs): the backlog, then
  the broadcast channel, with the log as the source of truth whenever a number is missing or
  the channel reports that it dropped messages.

  \<^item> \<open>recv_result\<close> is what \<open>recv\<close> returns; each is paired with the store at that moment, which a
    recovery reads. \<open>sse_loop\<close> is the body of the stream, \<open>emit\<close> the loop it repeats.
  \<^item> \<open>channel\<close> is the documented behaviour of the broadcast channel: a receiver gets every
    message sent after it subscribed, in order, unless it is told that some were skipped.
\<close>

datatype recv_result = Received event_envelope | Lagged | Closed

section \<open>The stream\<close>

fun emit :: "u64 \<Rightarrow> event_envelope list \<Rightarrow> event_envelope list \<times> u64" where
  "emit last_sequence [] = ([], last_sequence)"
| "emit last_sequence (event # evs) =
     (if last_sequence < ev_sequence event
      then (case emit (ev_sequence event) evs of (out, l) \<Rightarrow> (event # out, l))
      else emit last_sequence evs)"

fun sse_loop :: "string \<Rightarrow> u64 \<Rightarrow> (recv_result \<times> store) list \<Rightarrow> event_envelope list \<times> u64" where
  "sse_loop submission_id last_sequence [] = ([], last_sequence)"
| "sse_loop submission_id last_sequence ((received, s) # steps) =
     (let recover = (case events_after submission_id last_sequence s of
            Inl _ \<Rightarrow> ([], last_sequence)
          | Inr evs \<Rightarrow>
              (case emit last_sequence evs of (out, l) \<Rightarrow>
               case sse_loop submission_id l steps of (rest, l') \<Rightarrow> (out @ rest, l')))
      in case received of
        Received event \<Rightarrow>
          if ev_submission_id event = submission_id \<and> last_sequence < ev_sequence event
          then if ev_sequence event = saturating_add last_sequence 1
            then (case sse_loop submission_id (ev_sequence event) steps of (rest, l) \<Rightarrow> (event # rest, l))
            else recover
          else sse_loop submission_id last_sequence steps
      | Lagged \<Rightarrow> recover
      | Closed \<Rightarrow> ([], last_sequence))"

definition event_stream ::
  "string \<Rightarrow> u64 \<times> event_envelope list \<Rightarrow> (recv_result \<times> store) list \<Rightarrow> event_envelope list \<times> u64" where
  "event_stream submission_id start steps =
     (case start of (after, initial) \<Rightarrow>
      case emit after initial of (out, l) \<Rightarrow>
      case sse_loop submission_id l steps of (rest, l') \<Rightarrow> (out @ rest, l'))"

section \<open>The channel and the log\<close>

fun channel :: "nat \<Rightarrow> (recv_result \<times> store) list \<Rightarrow> nat \<Rightarrow> bool" where
  "channel pos [] pos' \<longleftrightarrow> pos' = pos"
| "channel pos ((received, s) # steps) pos' \<longleftrightarrow>
     (case received of
        Received event \<Rightarrow> pos < length (bus s) \<and> event = bus s ! pos \<and> channel (Suc pos) steps pos'
      | Lagged \<Rightarrow> (\<exists>p. pos < p \<and> p \<le> length (bus s) \<and> channel p steps pos')
      | Closed \<Rightarrow> pos' = pos)"

fun along :: "store \<Rightarrow> (recv_result \<times> store) list \<Rightarrow> store \<Rightarrow> bool" where
  "along s [] s' \<longleftrightarrow> store_step\<^sup>*\<^sup>* s s'"
| "along s ((received, t) # steps) s' \<longleftrightarrow> store_step\<^sup>*\<^sup>* s t \<and> along t steps s'"

definition history :: "string \<Rightarrow> store \<Rightarrow> event_envelope list" where
  "history i s = filter (\<lambda>ev. ev_submission_id ev = i) (bus s)"

abbreviation number :: "event_envelope \<Rightarrow> nat" where
  "number ev \<equiv> unat (ev_sequence ev)"

text \<open>Events numbered consecutively from \<open>a\<close>.\<close>

fun numbered :: "nat \<Rightarrow> event_envelope list \<Rightarrow> bool" where
  "numbered a [] \<longleftrightarrow> True"
| "numbered a (ev # evs) \<longleftrightarrow> number ev = a \<and> numbered (Suc a) evs"

lemma numbered_greater: "numbered a evs \<Longrightarrow> k < a \<Longrightarrow> filter (\<lambda>ev. k < number ev) evs = evs"
  by (induction a evs rule: numbered.induct) simp_all

lemma filter_numbered: "numbered a evs \<Longrightarrow> filter (\<lambda>ev. k < number ev) evs = drop (Suc k - a) evs"
proof (induction a evs rule: numbered.induct)
  case (2 a ev evs)
  show ?case
  proof (cases "k < a")
    case True
    then show ?thesis using 2 numbered_greater [of "Suc a" evs k] by simp
  next
    case False
    then have "Suc k - a = Suc (Suc k - Suc a)" by simp
    then show ?thesis using 2 False by simp
  qed
qed simp

lemma emit_numbered:
  "numbered (Suc (unat k)) evs \<Longrightarrow> \<exists>l. emit k evs = (evs, l) \<and> unat l = unat k + length evs"
proof (induction evs arbitrary: k)
  case (Cons ev evs)
  then have "k < ev_sequence ev" by (simp add: word_less_nat_alt)
  then show ?case
    using Cons.IH [of "ev_sequence ev"] Cons.prems by auto
qed simp

lemma numbered_drop: "numbered a evs \<Longrightarrow> numbered (a + n) (drop n evs)"
proof (induction a evs arbitrary: n rule: numbered.induct)
  case (2 a ev evs)
  then show ?case by (cases n) fastforce+
qed simp

lemma numbered_nth: "numbered a evs \<Longrightarrow> n < length evs \<Longrightarrow> number (evs ! n) = a + n"
proof (induction a evs arbitrary: n rule: numbered.induct)
  case (2 a ev evs)
  then show ?case by (cases n) fastforce+
qed simp

lemma numbered_take: "numbered a evs \<Longrightarrow> numbered a (take n evs)"
proof (induction a evs arbitrary: n rule: numbered.induct)
  case (2 a ev evs)
  then show ?case by (cases n) simp_all
qed simp

lemma numbered_map: "numbered a evs \<Longrightarrow> map number evs = [a..<a + length evs]"
  by (induction a evs rule: numbered.induct) (simp_all add: upt_rec)

lemma numbered_upto: "map (\<lambda>ev. uint (ev_sequence ev)) evs = [int a..m] \<Longrightarrow> numbered a evs"
proof (induction evs arbitrary: a)
  case (Cons ev evs)
  then have "int a \<le> m" by (metis list.distinct(1) list.simps(9) upto_empty not_less)
  then have "[int a..m] = int a # [int (Suc a)..m]"
    using upto_rec1 [of "int a" m] by (simp add: add.commute)
  then have "uint (ev_sequence ev) = int a" "map (\<lambda>ev. uint (ev_sequence ev)) evs = [int (Suc a)..m]"
    using Cons.prems by simp_all
  then show ?case
    using Cons.IH [of "Suc a"] by (simp add: unat_eq_nat_uint)
qed simp

text \<open>The history of a Submission is numbered from one, and \<open>events_after\<close> drops a prefix.\<close>

lemma history_numbered:
  assumes "reachable s" and "fetch_submission i s = Some r"
  shows "numbered 1 (history i s)" "length (history i s) < 2 ^ 63"
proof -
  have log: "log_ok s" using wf_reachable [OF assms(1)] by (simp add: wf_store_def)
  let ?n = "s_latest_event_sequence r"
  have ints: "map (\<lambda>ev. uint (ev_sequence ev)) (filter (\<lambda>ev. ev_submission_id ev = i \<and> 0 < ev_sequence ev) (bus s)) = [1..?n]"
    using log_suffix_bus [OF bus_reachable [OF assms(1)] log assms(2), of 0] by simp
  have positive: "0 < ev_sequence ev" if "ev \<in> set (bus s)" "ev_submission_id ev = i" for ev
  proof -
    have "e_sequence (event_row_of ev) \<in> set (sequences i (events s))"
      using that bus_reachable [OF assms(1)] by (force simp: bus_ok_def sequences_def event_row_of_def)
    moreover have "sequences i (events s) = [1..?n]"
      using log fetch_member [OF assms(2)] by (auto simp: log_ok_def)
    ultimately show ?thesis by (simp add: event_row_of_def word_less_def)
  qed
  have "filter (\<lambda>ev. ev_submission_id ev = i \<and> 0 < ev_sequence ev) (bus s) = history i s"
    unfolding history_def using positive by (intro filter_cong) auto
  with ints have ints': "map (\<lambda>ev. uint (ev_sequence ev)) (history i s) = [1..?n]" by simp
  then show "numbered 1 (history i s)"
    using numbered_upto [of _ 1] by simp
  have len: "length (history i s) = nat ?n"
    using arg_cong [OF ints', of length] by simp
  show "length (history i s) < 2 ^ 63"
    unfolding len using wf_row(7) [OF wf_reachable [OF assms(1)] assms(2)] by simp
qed

lemma events_after_history:
  assumes "reachable s" and "fetch_submission i s = Some r" and "unat k < 2 ^ 63"
  shows "events_after i k s = Inr (drop (unat k) (history i s))"
proof -
  have log: "log_ok s" using wf_reachable [OF assms(1)] by (simp add: wf_store_def)
  have "uint k < 2 ^ 63" using assms(3) of_nat_less_iff [of "unat k" "2 ^ 63", where 'a = int] by simp
  from events_after_bus [OF bus_reachable [OF assms(1)] log assms(2) this]
  have "events_after i k s = Inr (filter (\<lambda>ev. unat k < number ev) (history i s))"
    by (simp add: history_def word_less_nat_alt conj_commute)
  then show ?thesis
    using filter_numbered [OF history_numbered(1) [OF assms(1,2)], of "unat k"] by simp
qed

section \<open>Following the log\<close>

lemma bus_grows: "store_step\<^sup>*\<^sup>* s s' \<Longrightarrow> prefix (bus s) (bus s')"
proof (induction rule: rtranclp_induct)
  case (step t u)
  then show ?case
    using log_step_store_step [OF step(2)] by (auto simp: log_step_def prefix_def)
qed simp

lemma history_grows: "store_step\<^sup>*\<^sup>* s s' \<Longrightarrow> take (length (history i s)) (history i s') = history i s"
  using bus_grows [of s s'] by (auto simp: history_def prefix_def)

lemma history_prefix: "store_step\<^sup>*\<^sup>* s s' \<Longrightarrow> prefix (history i s) (history i s')"
  using bus_grows [of s s'] by (auto simp: history_def prefix_def)

lemma history_number:
  assumes "reachable s" and "fetch_submission i s = Some r" and "ev \<in> set (bus s)" and "ev_submission_id ev = i"
  shows "0 < number ev \<and> number ev \<le> length (history i s) \<and> history i s ! (number ev - 1) = ev"
proof -
  have "ev \<in> set (history i s)" using assms(3,4) by (simp add: history_def)
  then obtain n where n: "n < length (history i s)" "history i s ! n = ev"
    by (auto simp: in_set_conv_nth)
  then have "number ev = 1 + n"
    using numbered_nth [OF history_numbered(1) [OF assms(1,2)]] by auto
  with n show ?thesis by simp
qed

lemma reachable_steps: "reachable s \<Longrightarrow> store_step\<^sup>*\<^sup>* s s' \<Longrightarrow> reachable s'"
  unfolding reachable_def by (rule rtranclp_trans)

lemma along_steps: "along s steps S \<Longrightarrow> store_step\<^sup>*\<^sup>* s S"
proof (induction s steps S rule: along.induct)
  case (2 s received t steps S)
  then show ?case using rtranclp_trans [of store_step s t S] by simp
qed simp

lemma take_append_upto: "k \<le> m \<Longrightarrow> m \<le> l \<Longrightarrow> drop k (take m xs) @ drop m (take l xs) = drop k (take l xs)"
proof -
  assume "k \<le> m" "m \<le> l"
  moreover have "take l xs = take m xs @ drop m (take l xs)"
    using \<open>m \<le> l\<close> append_take_drop_id [of m "take l xs"] by (simp add: min_absorb1)
  ultimately show ?thesis
    by (cases "m \<le> length xs") (metis append_Nil2 diff_is_0_eq' drop0 drop_append length_take min.absorb2, simp)
qed

definition caught_up :: "string \<Rightarrow> nat \<Rightarrow> u64 \<Rightarrow> store \<Rightarrow> bool" where
  "caught_up i pos l s \<longleftrightarrow> (\<forall>ev \<in> set (take pos (bus s)). ev_submission_id ev = i \<longrightarrow> number ev \<le> unat l)"

lemma query_catches_up:
  assumes t: "reachable t" "fetch_submission i t = Some r" and later: "store_step\<^sup>*\<^sup>* t S"
    and k: "unat k < 2 ^ 63" and pos: "pos \<le> length (bus t)"
  obtains evs l where "events_after i k t = Inr evs" "emit k evs = (evs, l)"
    "evs = drop (unat k) (take (unat l) (history i S))" "unat k \<le> unat l" "unat l < 2 ^ 63" "caught_up i pos l S"
proof -
  let ?n = "length (history i t)" and ?evs = "drop (unat k) (history i t)"
  note numbers = history_numbered [OF t]
  have "numbered (Suc (unat k)) ?evs"
    using numbered_drop [OF numbers(1), of "unat k"] by simp
  then obtain l where emit: "emit k ?evs = (?evs, l)" and l: "unat l = unat k + length ?evs"
    using emit_numbered by blast
  have size: "unat l = max (unat k) ?n" using l by simp
  have "?evs = drop (unat k) (take (unat l) (history i S))"
  proof (cases "unat k \<le> ?n")
    case True
    then show ?thesis using size history_grows [OF later, of i] by (simp add: max_absorb2)
  qed (simp add: size)
  moreover have "caught_up i pos l S"
    unfolding caught_up_def
  proof (intro ballI impI)
    fix ev
    assume ev: "ev \<in> set (take pos (bus S))" "ev_submission_id ev = i"
    have "take pos (bus S) = take pos (bus t)"
      using bus_grows [OF later] pos by (auto simp: prefix_def)
    then have "ev \<in> set (bus t)" using ev(1) in_set_takeD by metis
    then show "number ev \<le> unat l"
      using history_number [OF t _ ev(2)] size by (simp add: le_max_iff_disj)
  qed
  moreover have "unat k \<le> unat l" "unat l < 2 ^ 63"
    using size k numbers(2) by simp_all
  ultimately show ?thesis
    using that events_after_history [OF t k] emit by blast
qed

lemma next_event:
  assumes t: "reachable t" "fetch_submission i t = Some r" and later: "store_step\<^sup>*\<^sup>* t S"
    and pos: "pos < length (bus t)" "ev_submission_id (bus t ! pos) = i"
    and seq: "ev_sequence (bus t ! pos) = saturating_add k 1" and k: "unat k < 2 ^ 63"
    and caught: "caught_up i pos k S"
  defines "l \<equiv> ev_sequence (bus t ! pos)"
  shows "[bus t ! pos] = drop (unat k) (take (unat l) (history i S)) \<and> unat k \<le> unat l \<and> unat l < 2 ^ 63 \<and>
    caught_up i (Suc pos) l S"
proof -
  let ?ev = "bus t ! pos"
  have l: "unat l = Suc (unat k)"
    using k by (simp add: l_def seq rust_arith)
  have at: "Suc (unat k) \<le> length (history i t)" "history i t ! unat k = ?ev"
    using history_number [OF t nth_mem [OF pos(1)] pos(2)] l by (simp_all add: l_def)
  have "history i S ! unat k = ?ev" "unat k < length (history i S)"
    using at history_prefix [OF later, of i] by (auto simp: prefix_def nth_append)
  then have "drop (unat k) (take (Suc (unat k)) (history i S)) = [?ev]"
    by (simp add: take_Suc_conv_app_nth)
  moreover have "caught_up i (Suc pos) l S"
  proof -
    have "pos < length (bus S)" "bus S ! pos = ?ev"
      using bus_grows [OF later] pos(1) by (auto simp: prefix_def nth_append)
    then show ?thesis
      using caught l by (auto simp: caught_up_def take_Suc_conv_app_nth l_def)
  qed
  ultimately show ?thesis
    using l at(1) history_numbered(2) [OF t] by simp
qed

lemma skip_event:
  assumes later: "store_step\<^sup>*\<^sup>* t S" and pos: "pos < length (bus t)" and caught: "caught_up i pos k S"
    and other: "\<not> (ev_submission_id (bus t ! pos) = i \<and> k < ev_sequence (bus t ! pos))"
  shows "caught_up i (Suc pos) k S"
proof -
  have "pos < length (bus S)" "bus S ! pos = bus t ! pos"
    using bus_grows [OF later] pos by (auto simp: prefix_def nth_append)
  then show ?thesis
    using caught other by (auto simp: caught_up_def take_Suc_conv_app_nth word_less_nat_alt not_less)
qed

lemma sse_loop_follows:
  "reachable s \<Longrightarrow> fetch_submission i s = Some r \<Longrightarrow> along s steps S \<Longrightarrow> channel pos steps pos' \<Longrightarrow>
     unat k < 2 ^ 63 \<Longrightarrow> caught_up i pos k S \<Longrightarrow> sse_loop i k steps = (out, l) \<Longrightarrow>
     out = drop (unat k) (take (unat l) (history i S)) \<and> unat k \<le> unat l \<and> unat l < 2 ^ 63 \<and> caught_up i pos' l S"
proof (induction steps arbitrary: s r pos k out)
  case (Cons step steps)
  obtain received t where step: "step = (received, t)" by fastforce
  have st: "store_step\<^sup>*\<^sup>* s t" and rest: "along t steps S" using Cons.prems(3) step by simp_all
  have t: "reachable t" using Cons.prems(1) st by (rule reachable_steps)
  obtain r' where r': "fetch_submission i t = Some r'"
    using fetch_along [OF st Cons.prems(2)] by blast
  note later = along_steps [OF rest]
  note IH = Cons.IH [OF t r' rest]
  have recover: ?case
    if query: "sse_loop i k (step # steps) = (case events_after i k t of Inl _ \<Rightarrow> ([], k) | Inr evs \<Rightarrow>
        (case emit k evs of (out, l) \<Rightarrow> case sse_loop i l steps of (rest, l') \<Rightarrow> (out @ rest, l')))"
      and p: "p \<le> length (bus t)" "channel p steps pos'" for p
  proof -
    obtain evs m where got: "events_after i k t = Inr evs" "emit k evs = (evs, m)"
      "evs = drop (unat k) (take (unat m) (history i S))" "unat k \<le> unat m" "unat m < 2 ^ 63" "caught_up i p m S"
      using query_catches_up [OF t r' later Cons.prems(5) p(1)] .
    obtain more where more: "sse_loop i m steps = (more, l)" "out = evs @ more"
      using Cons.prems(7) query got(1,2) by (auto split: prod.splits)
    show ?thesis
      using IH [OF p(2) got(5,6) more(1)] got(3,4) more(2) take_append_upto by auto
  qed
  show ?case
  proof (cases received)
    case (Received ev)
    then have ev: "pos < length (bus t)" "ev = bus t ! pos" "channel (Suc pos) steps pos'"
      using Cons.prems(4) step by simp_all
    consider (other) "\<not> (ev_submission_id ev = i \<and> k < ev_sequence ev)"
      | (following) "ev_submission_id ev = i" "k < ev_sequence ev" "ev_sequence ev = saturating_add k 1"
      | (gap) "ev_submission_id ev = i" "k < ev_sequence ev" "ev_sequence ev \<noteq> saturating_add k 1"
      by blast
    then show ?thesis
    proof cases
      case other
      have "sse_loop i k steps = (out, l)"
        using Cons.prems(7) other by (simp add: step Received split: if_splits)
      from IH [OF ev(3) Cons.prems(5) skip_event [OF later ev(1) Cons.prems(6)] this] show ?thesis
        using other ev(2) by blast
    next
      case following
      obtain more where more: "sse_loop i (ev_sequence ev) steps = (more, l)" "out = ev # more"
        using Cons.prems(7) following by (auto simp: step Received split: prod.splits)
      have one: "[ev] = drop (unat k) (take (number ev) (history i S)) \<and> unat k \<le> number ev \<and> number ev < 2 ^ 63 \<and>
          caught_up i (Suc pos) (ev_sequence ev) S"
        using next_event [OF t r' later ev(1) _ _ Cons.prems(5,6)] following(1,3) ev(2) by simp
      then have "number ev < 2 ^ 63" "caught_up i (Suc pos) (ev_sequence ev) S" by blast+
      note after = IH [OF ev(3) this more(1)]
      have "out = [ev] @ more" using more(2) by simp
      also have "\<dots> = drop (unat k) (take (unat l) (history i S))"
        using one after take_append_upto [of "unat k" "number ev" "unat l" "history i S"] by simp
      finally show ?thesis
        using one after by (blast intro: le_trans)
    next
      case gap
      then show ?thesis
        using recover [of "Suc pos"] ev by (simp add: step Received)
    qed
  next
    case Lagged
    then obtain p where "p \<le> length (bus t)" "channel p steps pos'"
      using Cons.prems(4) step by auto
    then show ?thesis using recover by (simp add: step Lagged)
  next
    case Closed
    then show ?thesis using Cons.prems by (simp add: step)
  qed
qed (auto simp: caught_up_def)

text \<open>What the stream has sent is a piece of the log.\<close>

lemma event_stream_follows:
  assumes "reachable s0" and "store_step\<^sup>*\<^sup>* s0 (as_store st)"
    and "events_start i query headers st = Inr start" and "unat (events_cursor query headers) < 2 ^ 63"
    and "along (as_store st) steps s" and "channel (length (bus s0)) steps pos"
    and "event_stream i start steps = (out, l)"
  shows "out = drop (unat (events_cursor query headers)) (take (unat l) (history i s)) \<and>
    map number out = [Suc (unat (events_cursor query headers))..<Suc (unat (events_cursor query headers) + length out)] \<and>
    (\<forall>ev \<in> set (take pos (bus s)). ev_submission_id ev = i \<longrightarrow> number ev \<le> unat l)"
proof -
  let ?after = "events_cursor query headers"
  have t: "reachable (as_store st)" using assms(1,2) by (rule reachable_steps)
  obtain initial where start: "start = (?after, initial)" "events_after i ?after (as_store st) = Inr initial"
    using assms(3) by (auto simp: events_start_def Let_def result_simps map_err_def split: sum.splits)
  then have "count_where (\<lambda>r. s_submission_id r = i) (submissions (as_store st)) \<noteq> 0"
    by (auto simp: events_after_def split: if_splits)
  then obtain r where r: "fetch_submission i (as_store st) = Some r"
    by (cases "fetch_submission i (as_store st)")
      (auto simp: fetch_submission_def fetch_optional_None_iff count_where_0_iff)
  note later = along_steps [OF assms(5)]
  have pos: "length (bus s0) \<le> length (bus (as_store st))"
    using bus_grows [OF assms(2)] by (rule prefix_length_le)
  obtain evs m where got: "events_after i ?after (as_store st) = Inr evs" "emit ?after evs = (evs, m)"
    "evs = drop (unat ?after) (take (unat m) (history i s))" "unat ?after \<le> unat m" "unat m < 2 ^ 63"
    "caught_up i (length (bus s0)) m s"
    using query_catches_up [OF t r later assms(4) pos] .
  have "evs = initial" using got(1) start(2) by simp
  note m = got(2-) [unfolded this]
  obtain more where more: "sse_loop i m steps = (more, l)" "out = initial @ more"
    using assms(7) start(1) m(1) by (auto simp: event_stream_def split: prod.splits)
  note reached = sse_loop_follows [OF t r assms(5,6) m(4,5) more(1)]
  then have out: "out = drop (unat ?after) (take (unat l) (history i s))"
    using m(2,3) more(2) take_append_upto by auto
  have "reachable s" using t later by (rule reachable_steps)
  moreover obtain r' where "fetch_submission i s = Some r'"
    using fetch_along [OF later r] by blast
  ultimately have "numbered 1 (history i s)" by (rule history_numbered)
  then have "numbered (Suc (unat ?after)) out"
    unfolding out using numbered_take numbered_drop [of 1 _ "unat ?after"] by fastforce
  then have "map number out = [Suc (unat ?after)..<Suc (unat ?after) + length out]"
    by (rule numbered_map)
  then show ?thesis
    using out reached by (simp add: caught_up_def)
qed

text \<open>
  C37: a client of the event stream misses nothing and sees nothing twice: from the cursor on it
  gets exactly the log of the Submission, in order and without a gap, up to some number - and
  at least everything that was sent before the receiver's position, however often the channel
  dropped messages and whatever else was on it. A stream never ends for a reading error.
\<close>

theorem event_stream_complete:
  assumes "reachable s0" and "store_step\<^sup>*\<^sup>* s0 (as_store st)"
    and "events_start i query headers st = Inr start" and "unat (events_cursor query headers) < 2 ^ 63"
    and "along (as_store st) steps s" and "channel (length (bus s0)) steps pos"
    and "event_stream i start steps = (out, l)"
  shows "out = drop (unat (events_cursor query headers)) (take (unat l) (history i s)) \<and>
    map number out = [Suc (unat (events_cursor query headers))..<Suc (unat (events_cursor query headers) + length out)] \<and>
    (\<forall>ev \<in> set (take pos (bus s)). ev_submission_id ev = i \<longrightarrow> number ev \<le> unat l)"
  using event_stream_follows [OF assms] .

definition demo_deliveries :: "(recv_result \<times> store) list" where
  "demo_deliveries = [(Received (bus demo_running ! 1), demo_running), (Lagged, demo_done)]"

definition demo_watch :: api_state where
  "demo_watch = \<lparr>as_store = demo_running, as_cancellations = Map.empty, as_notified = False\<rparr>"

lemma event_stream_complete_witness:
  "\<exists>start out l. events_start ''sub_1'' None (\<lambda>_. Some ''1'') demo_watch = Inr start \<and>
     event_stream ''sub_1'' start demo_deliveries = (out, l) \<and> map number out = [2, 3, 4, 5]"
proof -
  have cursor: "events_cursor None (\<lambda>_. Some ''1'') = 1"
    by code_simp
  have "case events_start ''sub_1'' None (\<lambda>_. Some ''1'') demo_watch of Inl _ \<Rightarrow> False
      | Inr start \<Rightarrow> length (fst (event_stream ''sub_1'' start demo_deliveries)) = 4"
    by code_simp
  then obtain start where start: "events_start ''sub_1'' None (\<lambda>_. Some ''1'') demo_watch = Inr start"
    "length (fst (event_stream ''sub_1'' start demo_deliveries)) = 4"
    by (auto split: sum.splits)
  obtain out l where run: "event_stream ''sub_1'' start demo_deliveries = (out, l)" by fastforce
  have lengths: "length (bus demo_queued) = 1" "length (bus demo_running) = 3" "length (bus demo_done) = 5"
    by code_simp+
  then have chan: "channel (length (bus demo_queued)) demo_deliveries 5"
    by (auto simp: demo_deliveries_def intro!: exI [of _ 5])
  have road: "along (as_store demo_watch) demo_deliveries demo_done"
    using demo_steps(3) by (auto simp: demo_deliveries_def demo_watch_def)
  have begun: "store_step\<^sup>*\<^sup>* demo_queued (as_store demo_watch)"
    using demo_steps(2) by (simp add: demo_watch_def)
  have small: "unat (events_cursor None (\<lambda>_. Some ''1'')) < 2 ^ 63"
    by (simp add: cursor)
  have four: "length out = 4" using start(2) run by simp
  have "map number out = [Suc (unat (1 :: u64))..<Suc (unat (1 :: u64) + length out)]"
    using event_stream_complete [OF demo_reachable(1) begun start(1) small road chan run]
    unfolding cursor by blast
  also have "\<dots> = [2, 3, 4, 5]"
    unfolding four by (simp add: upt_rec)
  finally have numbers: "map number out = [2, 3, 4, 5]" .
  show ?thesis
    by (intro exI conjI) (rule start(1), rule run, rule numbers)
qed

end
