(* ===== verification/Client.thy ===== *)
theory Client
  imports Api
begin

text \<open>
  The requests of \<open>bins/eyes/src/main.rs\<close>: \<open>request\<close> (\<open>send_request\<close>), \<open>get_json\<close> and \<open>ensure_success\<close>, the request
  that \<open>eyes submit\<close> builds from its arguments and the configuration (\<open>submit\<close>,
  \<open>resolve_workspace\<close>), and the commands that make one call and print its answer.

  \<^item> The daemon is a function from its state and a request to its next state and the response, whose
    body is the list of what \<open>body.frame()\<close> returned; \<open>None\<close> is a connection that failed.
  \<^item> \<open>client_env\<close> holds \<open>canonicalize\<close>, the lossy conversion to text and the JSON codecs.
  \<^item> The command line itself is parsed by a library; \<open>task_args\<close> is what it yields.
\<close>

section \<open>Requests\<close>

datatype client_error =
    BadStatus nat string
  | Undecodable
  | Unencodable
  | Transport
  | PriorityOutOfRange
  | NoRouteSupports string string
  | WorkspaceUnresolved
  | OutsideRoots
  | RootNotWritable
  | NotCompleted submission_state

record http_request =
  hr_method :: string
  hr_path :: string
  hr_headers :: "(string \<times> string) list"
  hr_body :: string

datatype body_frame = FrameData string | FrameTrailers | FrameError

type_synonym 'd daemon = "'d \<Rightarrow> http_request \<Rightarrow> 'd \<times> (nat \<times> body_frame list) option"

record client_env =
  ce_canonicalize :: "string \<Rightarrow> string option"
  ce_lossy :: "string \<Rightarrow> string"
  ce_encode :: "submission_create \<Rightarrow> string option"
  ce_accepted :: "string \<Rightarrow> submission_accepted option"
  ce_status :: "string \<Rightarrow> submission_status option"
  ce_result :: "string \<Rightarrow> submission_result option"

fun collect :: "body_frame list \<Rightarrow> string option" where
  "collect [] = Some []"
| "collect (FrameData data # frames) = map_option (\<lambda>rest. data @ rest) (collect frames)"
| "collect (FrameTrailers # frames) = collect frames"
| "collect (FrameError # frames) = None"

definition is_success :: "nat \<Rightarrow> bool" where
  "is_success code \<longleftrightarrow> 200 \<le> code \<and> code < 300"

text \<open>\<open>lossy\<close> is the text of the body in the message.\<close>

definition ensure_success :: "(string \<Rightarrow> string) \<Rightarrow> nat \<Rightarrow> string \<Rightarrow> client_error + unit" where
  "ensure_success lossy code body = bail_if (\<not> is_success code) (BadStatus code (lossy body))"

definition http_request_of ::
  "string \<Rightarrow> string \<Rightarrow> string option \<Rightarrow> (string \<times> string) list \<Rightarrow> http_request" where
  "http_request_of method path body headers =
     \<lparr>hr_method = method, hr_path = path,
      hr_headers = (''Host'', ''localhost'') # headers @
        (if body \<noteq> None then [(''Content-Type'', ''application/json'')] else []),
      hr_body = (case body of None \<Rightarrow> [] | Some b \<Rightarrow> b)\<rparr>"

definition send_request ::
  "'d daemon \<Rightarrow> 'd \<Rightarrow> string \<Rightarrow> string \<Rightarrow> string option \<Rightarrow> (string \<times> string) list \<Rightarrow>
     'd \<times> (client_error + (nat \<times> string))" where
  "send_request daemon d method path body headers =
     (case daemon d (http_request_of method path body headers) of
        (d', None) \<Rightarrow> (d', Inl Transport)
      | (d', Some (code, frames)) \<Rightarrow>
          (case collect frames of
             None \<Rightarrow> (d', Inl Transport)
           | Some bytes \<Rightarrow> (d', Inr (code, bytes))))"

definition get_json ::
  "client_env \<Rightarrow> (string \<Rightarrow> 'a option) \<Rightarrow> 'd daemon \<Rightarrow> 'd \<Rightarrow> string \<Rightarrow> 'd \<times> (client_error + 'a)" where
  "get_json env decode daemon d path =
     (case send_request daemon d ''GET'' path None [] of
        (d', res) \<Rightarrow> (d',
          try_bind res (\<lambda>(code, body).
          try_bind (ensure_success (ce_lossy env) code body) (\<lambda>_.
          ok_or Undecodable (decode body)))))"

section \<open>The request of a task\<close>

record task_args =
  ta_prompt :: string
  ta_workspace :: "string option"
  ta_write :: bool
  ta_priority :: u8
  ta_model :: "string option"
  ta_adapter :: "string option"

definition candidate_roots ::
  "client_env \<Rightarrow> config \<Rightarrow> string \<Rightarrow> (workspace_root_config \<times> string) list" where
  "candidate_roots env config resolved =
     List.map_filter (\<lambda>root.
         case ce_canonicalize env (wr_path root) of
           None \<Rightarrow> None
         | Some path \<Rightarrow> if path_starts_with resolved path then Some (root, path) else None)
       (cfg_workspace_roots config)"

definition resolve_workspace ::
  "client_env \<Rightarrow> config \<Rightarrow> string \<Rightarrow> bool \<Rightarrow> client_error + workspace_ref" where
  "resolve_workspace env config workspace write =
     try_bind (ok_or WorkspaceUnresolved (ce_canonicalize env workspace)) (\<lambda>resolved.
     try_bind (ok_or OutsideRoots
       (max_by_last (\<lambda>(root, path). length (path_components path)) (candidate_roots env config resolved)))
     (\<lambda>(root, root_path).
     try_bind (bail_if (write \<and> \<not> wr_allow_writable root) RootNotWritable) (\<lambda>_.
     try_bind (ok_or OutsideRoots (path_strip_prefix resolved root_path)) (\<lambda>relative.
     Inr (WsLocal (wr_id root) (if relative = [] then None else Some (ce_lossy env relative)) None
       (if write then Writable else ReadOnly))))))"

definition task_route_ids :: "config \<Rightarrow> task_args \<Rightarrow> string list option" where
  "task_route_ids config task =
     (if ta_model task \<noteq> None \<or> ta_adapter task \<noteq> None
      then Some (map ro_id (filter (\<lambda>route.
          (case ta_adapter task of None \<Rightarrow> True | Some adapter \<Rightarrow> ro_adapter route = adapter) \<and>
          (case ta_model task of None \<Rightarrow> True | Some model \<Rightarrow> ro_model route = [] \<or> ro_model route = model))
        (cfg_routes config)))
      else None)"

definition unwrap_or :: "'a option \<Rightarrow> 'a \<Rightarrow> 'a" where
  "unwrap_or m other = (case m of None \<Rightarrow> other | Some x \<Rightarrow> x)"

definition submission_request :: "client_env \<Rightarrow> config \<Rightarrow> task_args \<Rightarrow> client_error + submission_create" where
  "submission_request env config task =
     try_bind (bail_if (100 < ta_priority task) PriorityOutOfRange) (\<lambda>_.
     let route_ids = task_route_ids config task in
     try_bind (bail_if (route_ids = Some [])
       (NoRouteSupports (unwrap_or (ta_adapter task) ''*'') (unwrap_or (ta_model task) ''*''))) (\<lambda>_.
     try_bind (case ta_workspace task of
         None \<Rightarrow> Inr None
       | Some path \<Rightarrow> try_bind (resolve_workspace env config path (ta_write task)) (\<lambda>ws. Inr (Some ws)))
     (\<lambda>workspace.
     Inr \<lparr>sc_client_reference = None, sc_labels = [], sc_mode = Task,
       sc_input = \<lparr>inp_parts = [PartText (ta_prompt task)]\<rparr>, sc_workspace = workspace, sc_output = None,
       sc_agent = (if ta_adapter task \<noteq> None \<or> ta_model task \<noteq> None
         then Some \<lparr>ag_profile = None, ag_adapter = ta_adapter task, ag_model = ta_model task,
           ag_required_capabilities = [], ag_extensions = []\<rparr>
         else None),
       sc_execution = Some \<lparr>ex_route_ids = route_ids, ex_target_ids = Some [''local''],
         ex_locality = Some LocalOnly,
         ex_side_effects = Some (if ta_write task then SideEffecting else ReadOnlyEffects)\<rparr>,
       sc_session = None,
       sc_scheduling = Some \<lparr>sch_priority = Some (ta_priority task), sch_not_before = None,
         sch_start_deadline = None\<rparr>,
       sc_limits = None, sc_policy = None\<rparr>)))"

text \<open>\<open>submit\<close>: the request is encoded and posted under a fresh key.\<close>

definition submit ::
  "client_env \<Rightarrow> config \<Rightarrow> string \<Rightarrow> 'd daemon \<Rightarrow> 'd \<Rightarrow> task_args \<Rightarrow>
     'd \<times> (client_error + submission_accepted)" where
  "submit env config ulid daemon d task =
     (case try_bind (submission_request env config task) (\<lambda>request_body.
         ok_or Unencodable (ce_encode env request_body)) of
        Inl e \<Rightarrow> (d, Inl e)
      | Inr body \<Rightarrow>
          (case send_request daemon d ''POST'' ''/v1/submissions'' (Some body)
              [(''Idempotency-Key'', ''eyes-'' @ ulid)] of
             (d', res) \<Rightarrow> (d',
               try_bind res (\<lambda>(code, response).
               try_bind (ensure_success (ce_lossy env) code response) (\<lambda>_.
               ok_or Undecodable (ce_accepted env response))))))"

section \<open>Commands with one call\<close>

definition status_command ::
  "client_env \<Rightarrow> 'd daemon \<Rightarrow> 'd \<Rightarrow> string \<Rightarrow> 'd \<times> (client_error + submission_status)" where
  "status_command env daemon d submission_id =
     get_json env (ce_status env) daemon d (''/v1/submissions/'' @ submission_id)"

definition result_command ::
  "client_env \<Rightarrow> 'd daemon \<Rightarrow> 'd \<Rightarrow> string \<Rightarrow> 'd \<times> (client_error + submission_result)" where
  "result_command env daemon d submission_id =
     get_json env (ce_result env) daemon d (''/v1/submissions/'' @ submission_id @ ''/result'')"

definition cancel_command ::
  "client_env \<Rightarrow> 'd daemon \<Rightarrow> 'd \<Rightarrow> string \<Rightarrow> 'd \<times> (client_error + string)" where
  "cancel_command env daemon d submission_id =
     (case send_request daemon d ''POST'' (''/v1/submissions/'' @ submission_id @ ''/cancel'') None [] of
        (d', res) \<Rightarrow> (d',
          try_bind res (\<lambda>(code, body).
          try_bind (ensure_success (ce_lossy env) code body) (\<lambda>_.
          Inr (ce_lossy env body)))))"

end
