(* ===== verification/Watch.thy ===== *)
theory Watch
  imports Sse Client
begin

text \<open>
  The reader of the event stream in \<open>bins/eyes/src/main.rs\<close>: \<open>watch\<close> collects the body of the
  response in a buffer, cuts it at empty lines, decodes the \<open>data:\<close> line of every block and prints
  the event.

  \<^item> A body is the list of what \<open>body.frame()\<close> returned, \<open>from_slice\<close> and \<open>to_string\<close> are the JSON
    decoder and encoder (parameters), the lines printed come first in every result.
  \<^item> \<open>stream_block\<close> states the format of the event stream that the server library and the standard
    document: lines, then an empty line, with at most one \<open>data\<close> line and comments in between.
\<close>

section \<open>Cutting the stream into blocks\<close>

abbreviation newline :: char where
  "newline \<equiv> CHR 0x0A"

fun find_double_newline :: "string \<Rightarrow> nat option" where
  "find_double_newline (a # b # rest) =
     (if a = newline \<and> b = newline then Some 0 else map_option Suc (find_double_newline (b # rest)))"
| "find_double_newline _ = None"

text \<open>\<open>slice::strip_prefix\<close> and \<open>Iterator::find_map\<close>.\<close>

definition strip_prefix :: "string \<Rightarrow> string \<Rightarrow> string option" where
  "strip_prefix p s = (if prefix p s then Some (drop (length p) s) else None)"

fun find_map :: "('a \<Rightarrow> 'b option) \<Rightarrow> 'a list \<Rightarrow> 'b option" where
  "find_map f [] = None"
| "find_map f (x # xs) = (case f x of None \<Rightarrow> find_map f xs | Some y \<Rightarrow> Some y)"

definition parse_sse_data :: "string \<Rightarrow> string option" where
  "parse_sse_data block = find_map (strip_prefix ''data: '') (split_on newline block)"

section \<open>Printing the events\<close>

record event_codec =
  ec_from_slice :: "string \<Rightarrow> event_envelope option"
  ec_to_string :: "event_envelope \<Rightarrow> string option"

text \<open>The event after which \<open>eyes run\<close> stops watching.\<close>

definition ends_submission :: "event_envelope \<Rightarrow> bool" where
  "ends_submission event \<longleftrightarrow> ev_event_type event = ''submission.state_changed'' \<and>
     (case Option.bind (json_get ''to'' (ev_data event)) as_str of
        None \<Rightarrow> False
      | Some state \<Rightarrow> state \<in> set [''completed'', ''failed'', ''cancelled'', ''expired'', ''uncertain''])"

lemma find_double_newline_bound: "find_double_newline buffer = Some index \<Longrightarrow> index + 2 \<le> length buffer"
  by (induction buffer arbitrary: index rule: find_double_newline.induct) (auto split: if_splits)

text \<open>
  \<open>while let Some(index) = find_double_newline(&buffer)\<close>: \<open>Inr (Some rest)\<close> leaves the loop with
  the rest of the buffer, \<open>Inr None\<close> returns from \<open>watch\<close>.
\<close>

function drain_blocks ::
  "event_codec \<Rightarrow> bool \<Rightarrow> string \<Rightarrow> string list \<times> (client_error + string option)" where
  "drain_blocks codec until_terminal buffer =
     (case find_double_newline buffer of
        None \<Rightarrow> ([], Inr (Some buffer))
      | Some index \<Rightarrow>
          let block = take (index + 2) buffer; rest = drop (index + 2) buffer in
          (case parse_sse_data block of
             None \<Rightarrow> drain_blocks codec until_terminal rest
           | Some data \<Rightarrow>
               (case ec_from_slice codec data of
                  None \<Rightarrow> ([], Inl Undecodable)
                | Some event \<Rightarrow>
                    (case ec_to_string codec event of
                       None \<Rightarrow> ([], Inl Unencodable)
                     | Some line \<Rightarrow>
                         if until_terminal \<and> ends_submission event then ([line], Inr None)
                         else (case drain_blocks codec until_terminal rest of
                             (out, res) \<Rightarrow> (line # out, res))))))"
  by pat_completeness auto

termination
  by (relation "measure (\<lambda>(codec, until_terminal, buffer). length buffer)")
    (auto dest: find_double_newline_bound)

declare drain_blocks.simps [simp del]

fun watch_frames ::
  "event_codec \<Rightarrow> bool \<Rightarrow> string \<Rightarrow> body_frame list \<Rightarrow> string list \<times> (client_error + unit)" where
  "watch_frames codec until_terminal buffer [] = ([], Inr ())"
| "watch_frames codec until_terminal buffer (frame # frames) =
     (case frame of
        FrameError \<Rightarrow> ([], Inl Transport)
      | _ \<Rightarrow>
          let filled = (case frame of FrameData data \<Rightarrow> buffer @ data | _ \<Rightarrow> buffer) in
          (case drain_blocks codec until_terminal filled of
             (out, Inl e) \<Rightarrow> (out, Inl e)
           | (out, Inr None) \<Rightarrow> (out, Inr ())
           | (out, Inr (Some rest)) \<Rightarrow>
               (case watch_frames codec until_terminal rest frames of
                  (out', res) \<Rightarrow> (out @ out', res))))"

text \<open>\<open>watch\<close>: the response is \<open>None\<close> when the daemon cannot be reached.\<close>

definition watch_request :: "string \<Rightarrow> string \<times> (string \<times> string) list" where
  "watch_request submission_id =
     (''/v1/submissions/'' @ submission_id @ ''/events'',
      [(''Host'', ''localhost''), (''Accept'', ''text/event-stream'')])"

definition watch ::
  "event_codec \<Rightarrow> (string \<Rightarrow> string) \<Rightarrow> (nat \<times> body_frame list) option \<Rightarrow> bool \<Rightarrow>
     string list \<times> (client_error + unit)" where
  "watch codec lossy response until_terminal =
     (case response of
        None \<Rightarrow> ([], Inl Transport)
      | Some (code, frames) \<Rightarrow>
          if \<not> is_success code
          then (case collect frames of
              None \<Rightarrow> ([], Inl Transport)
            | Some body \<Rightarrow> ([], ensure_success lossy code body))
          else watch_frames codec until_terminal [] frames)"

text \<open>
  \<open>eyes run\<close>: submit, watch until the end, fetch the result; anything but \<open>completed\<close> is an error.
  The lines printed on standard output come second, \<open>pretty\<close> encodes the result.
\<close>

definition run_task ::
  "client_env \<Rightarrow> event_codec \<Rightarrow> (submission_result \<Rightarrow> string) \<Rightarrow> config \<Rightarrow> string \<Rightarrow> 'd daemon \<Rightarrow> 'd \<Rightarrow> task_args \<Rightarrow>
     'd \<times> string list \<times> (client_error + unit)" where
  "run_task env codec pretty config ulid daemon d task =
     (case submit env config ulid daemon d task of
        (d1, Inl e) \<Rightarrow> (d1, [], Inl e)
      | (d1, Inr accepted) \<Rightarrow>
          let submission_id = sa_submission_id accepted in
          (case daemon d1 \<lparr>hr_method = ''GET'', hr_path = fst (watch_request submission_id),
              hr_headers = snd (watch_request submission_id), hr_body = []\<rparr> of
             (d2, response) \<Rightarrow>
               (case watch codec (ce_lossy env) response True of
                  (out, Inl e) \<Rightarrow> (d2, out, Inl e)
                | (out, Inr _) \<Rightarrow>
                    (case result_command env daemon d2 submission_id of
                       (d3, Inl e) \<Rightarrow> (d3, out, Inl e)
                     | (d3, Inr res) \<Rightarrow>
                         (d3, out @ [pretty res],
                           bail_if (sr_state res \<noteq> Completed) (NotCompleted (sr_state res)))))))"

text \<open>Success means that the daemon reported the Submission it accepted as completed.\<close>

lemma run_task_completed:
  assumes "run_task env codec pretty config ulid daemon d task = (d', out, Inr u)"
  shows "\<exists>d1 d2 accepted res. submit env config ulid daemon d task = (d1, Inr accepted) \<and>
    result_command env daemon d2 (sa_submission_id accepted) = (d', Inr res) \<and> sr_state res = Completed"
  using assms by (auto simp: run_task_def Let_def bail_if_def split: prod.splits sum.splits if_splits) 

section \<open>The format of the stream\<close>

definition unlines :: "string list \<Rightarrow> string" where
  "unlines ls = concat (map (\<lambda>l. l @ [newline]) ls)"

definition block_lines :: "string list \<Rightarrow> bool" where
  "block_lines ls \<longleftrightarrow> ls \<noteq> [] \<and> (\<forall>l \<in> set ls. l \<noteq> [] \<and> newline \<notin> set l)"

text \<open>A block with the given data, or a comment without any.\<close>

definition stream_block :: "string option \<Rightarrow> string \<Rightarrow> bool" where
  "stream_block data block \<longleftrightarrow> (\<exists>ls. block_lines ls \<and> block = unlines ls @ [newline] \<and>
     filter (prefix ''data: '') ls = (case data of None \<Rightarrow> [] | Some d \<Rightarrow> [''data: '' @ d]))"

lemma unlines_simps [simp]:
  "unlines [] = []"
  "unlines (l # ls) = l @ newline # unlines ls"
  by (simp_all add: unlines_def)

lemma find_in_line:
  "newline \<notin> set l \<Longrightarrow>
     find_double_newline (l @ newline # s) = map_option (\<lambda>i. length l + i) (find_double_newline (newline # s))"
proof (induction l)
  case (Cons c l)
  then have "c \<noteq> newline" by auto
  then have "find_double_newline (c # l @ newline # s) = map_option Suc (find_double_newline (l @ newline # s))"
    by (cases l) simp_all
  with Cons show ?case by (simp add: option.map_comp comp_def)
qed (cases "find_double_newline (newline # s)"; simp)

lemma find_in_block:
  "block_lines ls \<Longrightarrow>
     find_double_newline (unlines ls @ newline # s) = Some (length (unlines ls) - 1)"
proof (induction ls)
  case (Cons l ls)
  then have l: "l \<noteq> []" "newline \<notin> set l" by (simp_all add: block_lines_def)
  show ?case
  proof (cases ls)
    case Nil
    then show ?thesis using find_in_line [OF l(2), of "newline # s"] by simp
  next
    case (Cons l' ls')
    then have rest: "block_lines ls" using Cons.prems by (simp add: block_lines_def)
    obtain c cs where c: "unlines ls @ newline # s = c # cs" "c \<noteq> newline"
      using rest Cons by (cases l') (auto simp: block_lines_def)
    have "find_double_newline (newline # unlines ls @ newline # s) = Some (length (unlines ls))"
      using Cons.IH [OF rest] c Cons by simp
    then show ?thesis
      using find_in_line [OF l(2), of "unlines ls @ newline # s"] by simp
  qed
qed (simp add: block_lines_def)

lemma block_length: "stream_block data block \<Longrightarrow> 2 \<le> length block"
  by (auto simp: stream_block_def block_lines_def neq_Nil_conv)

lemma find_block: "stream_block data block \<Longrightarrow> find_double_newline (block @ s) = Some (length block - 2)"
  using find_in_block by (force simp: stream_block_def)

lemma find_append: "find_double_newline a = Some i \<Longrightarrow> find_double_newline (a @ b) = Some i"
  by (induction a arbitrary: i rule: find_double_newline.induct) (auto split: if_splits)

text \<open>A block that is not complete yet has no empty line.\<close>

lemma find_incomplete:
  assumes "stream_block data block" and "strict_prefix part block"
  shows "find_double_newline part = None"
proof (rule ccontr)
  assume "find_double_newline part \<noteq> None"
  then obtain i where i: "find_double_newline part = Some i" by blast
  obtain r where r: "block = part @ r" "length part < length block"
    using assms(2) by (auto simp: strict_prefix_def prefix_def)
  have "find_double_newline block = Some i"
    using find_append [OF i, of r] r(1) by simp
  then have "i = length block - 2"
    using find_block [OF assms(1), of "[]"] by simp
  then show False
    using find_double_newline_bound [OF i] r(2) by simp
qed

lemma split_unlines: "\<forall>l \<in> set ls. newline \<notin> set l \<Longrightarrow> split_on newline (unlines ls @ s) = ls @ split_on newline s"
  by (induction ls) (simp_all add: split_on_append_sep split_on_free)

lemma find_map_strip_prefix:
  "find_map (strip_prefix p) ls =
     (case filter (prefix p) ls of [] \<Rightarrow> None | l # _ \<Rightarrow> Some (drop (length p) l))"
  by (induction ls) (auto simp: strip_prefix_def)

lemma parse_block: "stream_block data block \<Longrightarrow> parse_sse_data block = data"
proof -
  assume "stream_block data block"
  then obtain ls where ls: "block_lines ls" "block = unlines ls @ [newline]"
    "filter (prefix ''data: '') ls = (case data of None \<Rightarrow> [] | Some d \<Rightarrow> [''data: '' @ d])"
    by (auto simp: stream_block_def)
  have "split_on newline block = ls @ [[], []]"
    using ls(1,2) split_unlines [of ls "[newline]"] by (simp add: block_lines_def)
  then show ?thesis
    using ls(3) by (cases data) (simp_all add: parse_sse_data_def find_map_strip_prefix)
qed

section \<open>The chunks do not matter\<close>

lemma drain_append:
  "drain_blocks codec u (a @ b) =
     (case drain_blocks codec u a of
        (out, Inr (Some rest)) \<Rightarrow>
          (case drain_blocks codec u (rest @ b) of (out', res) \<Rightarrow> (out @ out', res))
      | stopped \<Rightarrow> stopped)"
proof (induction codec u a rule: drain_blocks.induct)
  case (1 codec u a)
  show ?case
  proof (cases "find_double_newline a")
    case None
    then show ?thesis
      by (simp add: drain_blocks.simps [of codec u a])
  next
    case (Some i)
    have i: "i + 2 \<le> length a" using Some by (rule find_double_newline_bound)
    note step = drain_blocks.simps [of codec u a] drain_blocks.simps [of codec u "a @ b"]
    note facts = Some find_append [OF Some] i
    show ?thesis
    proof (cases "parse_sse_data (take (i + 2) a)")
      case None
      then show ?thesis
        using 1(1) [OF Some refl refl None] facts by (simp add: step)
    next
      case (Some data)
      note parsed = Some
      show ?thesis
      proof (cases "ec_from_slice codec data")
        case (Some event)
        note decoded = Some
        show ?thesis
        proof (cases "ec_to_string codec event")
          case (Some line)
          note printed = Some
          show ?thesis
          proof (cases "u \<and> ends_submission event")
            case True
            have "drain_blocks codec u x = ([line], Inr None)" if "x = a \<or> x = a @ b" for x
              using that True facts parsed decoded printed by (subst drain_blocks.simps) auto
            then show ?thesis by simp
          next
            case False
            have once: "drain_blocks codec u x =
                (case drain_blocks codec u (drop (i + 2) x) of (out, res) \<Rightarrow> (line # out, res))"
              if "x = a \<or> x = a @ b" for x
              using that False facts parsed decoded printed by (subst drain_blocks.simps) auto
            show ?thesis
              using 1(2) [OF facts(1) refl refl parsed decoded printed False] facts
              by (simp add: once split: prod.splits sum.splits option.splits)
          qed
        qed (use facts parsed decoded in \<open>simp add: step\<close>)
      qed (use facts parsed in \<open>simp add: step\<close>)
    qed
  qed
qed

lemma drain_rest: "drain_blocks codec u b = (out, Inr (Some rest)) \<Longrightarrow> find_double_newline rest = None"
proof (induction codec u b arbitrary: out rule: drain_blocks.induct)
  case (1 codec u b)
  note step = drain_blocks.simps [of codec u b]
  show ?case
    using "1.prems" "1.IH"
    by (cases "find_double_newline b")
      (auto simp: step Let_def split: option.splits if_splits prod.splits)
qed

definition ended :: "client_error + string option \<Rightarrow> client_error + unit" where
  "ended res = (case res of Inl e \<Rightarrow> Inl e | Inr _ \<Rightarrow> Inr ())"

lemma watch_chunks:
  "find_double_newline buffer = None \<Longrightarrow>
     watch_frames codec u buffer (map FrameData chunks) =
       (case drain_blocks codec u (buffer @ concat chunks) of (out, res) \<Rightarrow> (out, ended res))"
proof (induction chunks arbitrary: buffer)
  case Nil
  then show ?case by (simp add: drain_blocks.simps ended_def)
next
  case (Cons chunk chunks)
  obtain out res where filled: "drain_blocks codec u (buffer @ chunk) = (out, res)" by fastforce
  note whole = drain_append [of codec u "buffer @ chunk" "concat chunks", unfolded filled]
  show ?case
  proof (cases res)
    case (Inr r)
    show ?thesis
    proof (cases r)
      case (Some rest)
      have "find_double_newline rest = None"
        using filled Inr Some drain_rest by blast
      from Cons.IH [OF this] show ?thesis
        using whole filled Inr Some by (simp split: prod.splits)
    qed (use whole filled Inr in \<open>simp add: ended_def\<close>)
  qed (use whole filled in \<open>simp add: ended_def\<close>)
qed

section \<open>The events of a stream\<close>

fun upto_first :: "('a \<Rightarrow> bool) \<Rightarrow> 'a list \<Rightarrow> 'a list" where
  "upto_first P [] = []"
| "upto_first P (x # xs) = (if P x then [x] else x # upto_first P xs)"

definition watched :: "bool \<Rightarrow> event_envelope list \<Rightarrow> event_envelope list" where
  "watched until_terminal evs = (if until_terminal then upto_first ends_submission evs else evs)"

fun somes :: "'a option list \<Rightarrow> 'a list" where
  "somes [] = []"
| "somes (None # xs) = somes xs"
| "somes (Some x # xs) = x # somes xs"

text \<open>The codec reads back what it wrote.\<close>

definition faithful :: "event_codec \<Rightarrow> event_envelope \<Rightarrow> bool" where
  "faithful codec ev \<longleftrightarrow> (\<exists>text. ec_to_string codec ev = Some text \<and> ec_from_slice codec text = Some ev)"

definition event_line :: "event_codec \<Rightarrow> event_envelope \<Rightarrow> string" where
  "event_line codec ev = ss_data (event_to_sse (ec_to_string codec) ev)"

text \<open>What travels: a block for every event, comments (\<open>None\<close>) in between.\<close>

definition streamed :: "event_codec \<Rightarrow> event_envelope option list \<Rightarrow> string list \<Rightarrow> bool" where
  "streamed codec items blocks \<longleftrightarrow>
     list_all2 (\<lambda>item. stream_block (map_option (event_line codec) item)) items blocks"

lemma drain_block:
  assumes "stream_block data block"
  shows "drain_blocks codec u (block @ s) =
    (case data of
       None \<Rightarrow> drain_blocks codec u s
     | Some d \<Rightarrow>
         (case ec_from_slice codec d of
            None \<Rightarrow> ([], Inl Undecodable)
          | Some event \<Rightarrow>
              (case ec_to_string codec event of
                 None \<Rightarrow> ([], Inl Unencodable)
               | Some line \<Rightarrow>
                   if u \<and> ends_submission event then ([line], Inr None)
                   else (case drain_blocks codec u s of (out, res) \<Rightarrow> (line # out, res)))))"
  using block_length [OF assms] find_block [OF assms, of s] parse_block [OF assms]
  by (subst drain_blocks.simps) (simp add: Let_def)

lemma drain_stream:
  assumes "streamed codec items blocks" and "find_double_newline part = None"
    and "\<forall>ev \<in> set (somes items). faithful codec ev"
  shows "\<exists>res. drain_blocks codec u (concat blocks @ part) =
    (map (event_line codec) (watched u (somes items)), Inr res)"
  using assms(1,3) unfolding streamed_def
proof (induction rule: list_all2_induct)
  case Nil
  then show ?case
    using assms(2) by (simp add: drain_blocks.simps watched_def)
next
  case (Cons item items block blocks)
  show ?case
  proof (cases item)
    case None
    then show ?thesis
      using Cons.IH Cons.prems drain_block [OF Cons.hyps(1)] by (simp)
  next
    case (Some ev)
    obtain enc where codec: "ec_to_string codec ev = Some enc" "ec_from_slice codec enc = Some ev"
      using Cons.prems Some by (auto simp: faithful_def)
    then have enc: "event_line codec ev = enc"
      by (simp add: event_line_def event_to_sse_def)
    obtain res where "drain_blocks codec u (concat blocks @ part) =
        (map (event_line codec) (watched u (somes items)), Inr res)"
      using Cons.IH Cons.prems Some by auto
    then show ?thesis
      using drain_block [OF Cons.hyps(1), of codec u "concat blocks @ part"] Some codec enc
      by (auto simp: watched_def)
  qed
qed

lemma watch_prints:
  assumes "streamed codec items blocks" and "\<forall>ev \<in> set (somes items). faithful codec ev"
    and "stream_block data block" and "strict_prefix part block"
    and "concat chunks = concat blocks @ part" and "is_success code"
  shows "watch codec lossy (Some (code, map FrameData chunks)) u =
    (map (event_line codec) (watched u (somes items)), Inr ())"
proof -
  obtain res where "drain_blocks codec u (concat blocks @ part) =
      (map (event_line codec) (watched u (somes items)), Inr res)"
    using drain_stream [OF assms(1) find_incomplete [OF assms(3,4)] assms(2)] by blast
  then show ?thesis
    using assms(6) by (simp add: watch_def watch_chunks assms(5) ended_def)
qed

section \<open>From the log to the terminal\<close>

text \<open>
  C39: what \<open>eyes watch\<close> prints is the log: whatever comments the server put between the events,
  however the body was cut into chunks and wherever it stopped, the client prints the Submission's
  events in order, from the first on, each decoded and encoded again to the text it travelled as -
  \<open>eyes run\<close> up to the event that ends the Submission - and everything sent before the receiver's
  position is among what the server had sent.
\<close>

theorem watch_prints_log:
  assumes "reachable s0" and "store_step\<^sup>*\<^sup>* s0 (as_store st)"
    and "events_start i None (map_of (snd (watch_request i))) st = Inr start"
    and "along (as_store st) steps s" and "channel (length (bus s0)) steps pos"
    and "event_stream i start steps = (out, l)"
    and "\<forall>ev \<in> set out. faithful codec ev" and "somes items = out" and "streamed codec items blocks"
    and "stream_block data block" and "strict_prefix part block" and "concat chunks = concat blocks @ part"
  shows "watch codec lossy (Some (200, map FrameData chunks)) until_terminal =
      (map (event_line codec) (watched until_terminal (take (unat l) (history i s))), Inr ()) \<and>
    (\<forall>ev \<in> set (take pos (bus s)). ev_submission_id ev = i \<longrightarrow> number ev \<le> unat l)"
proof -
  have cursor: "events_cursor None (map_of (snd (watch_request i))) = 0"
    by (simp add: events_cursor_def watch_request_def)
  have "unat (events_cursor None (map_of (snd (watch_request i)))) < 2 ^ 63"
    by (simp add: cursor)
  note sent = event_stream_follows [OF assms(1-3) this assms(4-6), unfolded cursor]
  have "watch codec lossy (Some (200, map FrameData chunks)) until_terminal =
      (map (event_line codec) (watched until_terminal out), Inr ())"
    using watch_prints [OF assms(9) _ assms(10-12), of 200] assms(7,8) by (simp add: is_success_def)
  then show ?thesis using sent by simp
qed

definition demo_codec :: event_codec where
  "demo_codec = \<lparr>
     ec_from_slice = (\<lambda>text. find (\<lambda>ev. decimal (unat (ev_sequence ev)) = text) (bus demo_done)),
     ec_to_string = (\<lambda>ev. Some (decimal (unat (ev_sequence ev))))\<rparr>"

definition demo_block :: "event_envelope \<Rightarrow> string" where
  "demo_block ev =
     unlines [''id: '' @ decimal (number ev), ''data: '' @ decimal (number ev)] @ [newline]"

lemma newline_not_digit: "newline \<notin> set (decimal n)"
  using decimal_digits [of n] by (auto simp: list_all_iff is_digit_def)

lemma demo_block_format: "stream_block (Some (event_line demo_codec ev)) (demo_block ev)"
  unfolding stream_block_def
  by (rule exI [of _ "[''id: '' @ decimal (number ev), ''data: '' @ decimal (number ev)]"])
    (simp add: demo_block_def block_lines_def newline_not_digit demo_codec_def event_line_def event_to_sse_def)

lemma comment_format: "stream_block None ('':'' @ [newline, newline])"
  unfolding stream_block_def by (rule exI [of _ "['':'']"]) (simp add: block_lines_def)

lemma demo_streamed: "streamed demo_codec (map Some evs) (map demo_block evs)"
  by (induction evs) (simp_all add: streamed_def demo_block_format)

lemma somes_map_Some: "somes (map Some xs) = xs"
  by (induction xs) simp_all

lemma demo_faithful: "\<forall>ev \<in> set (bus demo_done). faithful demo_codec ev"
proof -
  have "list_all (\<lambda>ev. find (\<lambda>e. decimal (unat (ev_sequence e)) = decimal (unat (ev_sequence ev))) (bus demo_done)
      = Some ev) (bus demo_done)"
    by code_simp
  then show ?thesis by (auto simp: list_all_iff faithful_def demo_codec_def)
qed

lemma watch_prints_log_witness:
  "\<exists>chunks. watch demo_codec (\<lambda>b. b) (Some (200, map FrameData chunks)) False =
     (map decimal [1, 2, 3, 4, 5], Inr ())"
proof -
  let ?headers = "map_of (snd (watch_request ''sub_1''))"
  have "case events_start ''sub_1'' None ?headers demo_watch of Inl _ \<Rightarrow> False
      | Inr start \<Rightarrow> length (fst (event_stream ''sub_1'' start demo_deliveries)) = 5 \<and>
          unat (snd (event_stream ''sub_1'' start demo_deliveries)) = 5"
    by code_simp
  then obtain start where start: "events_start ''sub_1'' None ?headers demo_watch = Inr start"
    "length (fst (event_stream ''sub_1'' start demo_deliveries)) = 5"
    "unat (snd (event_stream ''sub_1'' start demo_deliveries)) = 5"
    by (auto split: sum.splits)
  obtain out l where run: "event_stream ''sub_1'' start demo_deliveries = (out, l)" by fastforce
  have lengths: "length (bus demo_queued) = 1" "length (bus demo_running) = 3" "length (bus demo_done) = 5"
    by code_simp+
  then have chan: "channel (length (bus demo_queued)) demo_deliveries 5"
    by (auto simp: demo_deliveries_def intro!: exI [of _ 5])
  have road: "along (as_store demo_watch) demo_deliveries demo_done"
    using demo_steps(3) by (auto simp: demo_deliveries_def demo_watch_def)
  have begun: "store_step\<^sup>*\<^sup>* demo_queued (as_store demo_watch)"
    using demo_steps(2) by (simp add: demo_watch_def)
  have cursor: "events_cursor None ?headers = 0"
    by (simp add: events_cursor_def watch_request_def)
  have small: "unat (events_cursor None ?headers) < 2 ^ 63" by (simp add: cursor)
  have out: "out = take 5 (history ''sub_1'' demo_done)"
    using event_stream_follows [OF demo_reachable(1) begun start(1) small road chan run] start(3) run
    by (simp add: cursor)
  have good: "\<forall>ev \<in> set out. faithful demo_codec ev"
    using demo_faithful by (auto simp: out history_def dest: in_set_takeD)
  have sent: "streamed demo_codec (None # map Some out) (('':'' @ [newline, newline]) # map demo_block out)"
    using demo_streamed [of out] comment_format by (simp add: streamed_def)
  have "strict_prefix '':'' ('':'' @ [newline, newline])" by (simp add: strict_prefix_def)
  note printed = watch_prints_log [OF demo_reachable(1) begun start(1) road chan run good _ sent
      comment_format this, of _ "\<lambda>b. b" False]
  let ?chunks = "[concat (('':'' @ [newline, newline]) # map demo_block out), '':'']"
  have lines: "map (event_line demo_codec) (take 5 (history ''sub_1'' demo_done)) = map decimal [1, 2, 3, 4, 5]"
    by code_simp
  have "unat l = 5" using start(3) run by simp
  then have "watch demo_codec (\<lambda>b. b) (Some (200, map FrameData ?chunks)) False =
      (map (event_line demo_codec) (take 5 (history ''sub_1'' demo_done)), Inr ())"
    using printed [of ?chunks] by (simp add: somes_map_Some watched_def)
  then show ?thesis
    unfolding lines by (rule exI [of _ ?chunks])
qed

end
