(* ===== verification/EventLog.thy ===== *)
theory EventLog
  imports Watch Attempts
begin

text \<open>
  The event log as the record of what happened to a Submission: replaying its
  \<open>submission.state_changed\<close> events from \<open>queued\<close> gives the state in its row, at every moment.
  A client that follows the events therefore knows the state, and when it has seen the event that ends
  the Submission, the result is there.

  \<^item> \<open>daemon_step\<close> is \<open>store_step\<close> without foreign state events: \<open>append_agent_event\<close> takes any type,
    but its only caller (\<open>handle_event\<close> of the scheduler) logs under five types of its own
    (\<open>event_record\<close>).
  \<^item> \<open>told s evs s'\<close>: the events \<open>evs\<close> tell how every state of \<open>s\<close> became that of \<open>s'\<close>. It holds of every
    method, and composes.
\<close>

section \<open>Replaying the log\<close>

abbreviation state_changed :: string where
  "state_changed \<equiv> ''submission.state_changed''"

definition state_at :: "string \<Rightarrow> json \<Rightarrow> submission_state option" where
  "state_at key data =
     (case Option.bind (json_get key data) as_str of
        None \<Rightarrow> None
      | Some name \<Rightarrow> (case parse_submission_state name of Inl _ \<Rightarrow> None | Inr x \<Rightarrow> Some x))"

definition tells :: "string \<Rightarrow> json \<Rightarrow> submission_state \<Rightarrow> submission_state option" where
  "tells event_type data state =
     (if event_type \<noteq> state_changed then Some state
      else case (state_at ''from'' data, state_at ''to'' data) of
        (Some x, Some y) \<Rightarrow> if x = state \<and> lifecycle x y then Some y else None
      | _ \<Rightarrow> None)"

fun retell :: "submission_state \<Rightarrow> event_envelope list \<Rightarrow> submission_state option" where
  "retell state [] = Some state"
| "retell state (ev # evs) =
     Option.bind (tells (ev_event_type ev) (ev_data ev) state) (\<lambda>state'. retell state' evs)"

lemma retell_append: "retell state (xs @ ys) = Option.bind (retell state xs) (\<lambda>state'. retell state' ys)"
  by (induction xs arbitrary: state) (simp_all add: bind_assoc)

lemma tells_other [simp]: "event_type \<noteq> state_changed \<Longrightarrow> tells event_type data state = Some state"
  by (simp add: tells_def)

lemma state_at_simps [simp]:
  "state_at ''from'' (JObject ((''from'', JString (state_name x)) # m)) = Some x"
  "state_at ''to'' (JObject [(''from'', v), (''to'', JString (state_name y))]) = Some y"
  "state_at ''to'' (JObject [(''from'', v), (''reason'', w), (''to'', JString (state_name y))]) = Some y"
  by (simp_all add: state_at_def json_get_def)

lemma tells_change:
  assumes "lifecycle x y"
  shows "tells state_changed (JObject [(''from'', JString (state_name x)), (''to'', JString (state_name y))]) x = Some y"
    "tells state_changed
       (JObject [(''from'', JString (state_name x)), (''reason'', v), (''to'', JString (state_name y))]) x = Some y"
  using assms by (simp_all add: tells_def)

definition row_state :: "submission_row \<Rightarrow> submission_state" where
  "row_state r = (case parse_submission_state (s_state r) of Inl _ \<Rightarrow> Queued | Inr x \<Rightarrow> x)"

definition state_in :: "string \<Rightarrow> store \<Rightarrow> submission_state" where
  "state_in i s = (case fetch_submission i s of None \<Rightarrow> Queued | Some r \<Rightarrow> row_state r)"

lemma row_state_name [simp]: "s_state r = state_name x \<Longrightarrow> row_state r = x"
  by (simp add: row_state_def)

lemma row_state_bump [simp]: "row_state (bump_sequence r) = row_state r"
  by (simp add: row_state_def)

lemmas tells_eval = tells_def state_at_def json_get_def as_str_def row_state_def
  parse_submission_state_def

definition told :: "store \<Rightarrow> event_envelope list \<Rightarrow> store \<Rightarrow> bool" where
  "told s evs s' \<longleftrightarrow> (\<forall>i. retell (state_in i s) (filter (\<lambda>ev. ev_submission_id ev = i) evs) = Some (state_in i s'))"

text \<open>A step that puts on the bus what it did.\<close>

definition narrates :: "store \<Rightarrow> store \<Rightarrow> bool" where
  "narrates s s' \<longleftrightarrow> (\<exists>evs. bus s' = bus s @ evs \<and> told s evs s')"

lemma narrates_same: "submissions s' = submissions s \<Longrightarrow> bus s' = bus s \<Longrightarrow> narrates s s'"
  unfolding narrates_def
  by (rule exI [of _ "[]"]) (simp add: told_def state_in_def fetch_submission_def)

lemma narrates_refl [simp]: "narrates s s"
  by (simp add: narrates_same)

lemma state_in_send [simp]: "state_in i (send_events evs s) = state_in i s"
  by (simp add: state_in_def)

lemma state_in_append:
  "append_event_tx st sid att ty data s = Inr (s', ev) \<Longrightarrow> state_in i s' = state_in i s"
  by (simp add: state_in_def fetch_after_append split: option.split)

lemma append_event_fields:
  "append_event_tx st sid att ty data s = Inr (s', ev) \<Longrightarrow>
     ev_submission_id ev = sid \<and> ev_event_type ev = ty \<and> ev_data ev = data"
  by (erule append_event_tx_Inr) simp

section \<open>Every method tells what it does\<close>

lemma narrates_one:
  assumes app: "append_event_tx st sid att ty data s0 = Inr (s1, ev)" and "bus s0 = bus s"
    and "\<And>i. i \<noteq> sid \<Longrightarrow> state_in i s0 = state_in i s"
    and "tells ty data (state_in sid s) = Some (state_in sid s0)"
  shows "narrates s (send_events [ev] s1)"
  unfolding narrates_def
  by (rule exI [of _ "[ev]"])
    (use append_event_fields [OF app] assms(2-) in
      \<open>simp add: told_def state_in_append [OF app] append_event_tx_parts [OF app]\<close>)

lemma narrates_two:
  assumes app: "append_event_tx st sid att ty data s0 = Inr (s1, ev)"
      "append_event_tx st' sid att' ty' data' s1 = Inr (s2, ev')"
    and "bus s0 = bus s"
    and "\<And>i. i \<noteq> sid \<Longrightarrow> state_in i s0 = state_in i s"
    and "ty \<noteq> state_changed" and "tells ty' data' (state_in sid s) = Some (state_in sid s0)"
  shows "narrates s (send_events [ev, ev'] s2)"
  unfolding narrates_def
  by (rule exI [of _ "[ev, ev']"])
    (use append_event_fields [OF app(1)] append_event_fields [OF app(2)] assms(3-) in
      \<open>simp add: told_def state_in_append [OF app(1)] state_in_append [OF app(2)]
        append_event_tx_parts [OF app(1)] append_event_tx_parts [OF app(2)]\<close>)

lemma state_in_update:
  assumes "submissions s' = update_where p f (submissions s)" and "\<And>r. s_submission_id (f r) = s_submission_id r"
  shows "state_in i s' = (case fetch_submission i s of None \<Rightarrow> Queued
    | Some r \<Rightarrow> row_state (if p r then f r else r))"
  by (simp add: state_in_def fetch_after_update [OF assms] split: option.split)

text \<open>The common shape: one assignment to rows of one Submission, one event.\<close>

lemma narrates_update:
  assumes app: "append_event_tx st sid att ty data
      (s\<lparr>submissions := update_where p f (submissions s)\<rparr>) = Inr (s1, ev)"
    and key: "\<And>r. s_submission_id (f r) = s_submission_id r" "\<And>r. p r \<Longrightarrow> s_submission_id r = sid"
    and tells: "\<And>r. fetch_submission sid s = Some r \<Longrightarrow>
      tells ty data (row_state r) = Some (row_state (if p r then f r else r))"
  shows "narrates s (send_events [ev] s1)"
proof (rule narrates_one [OF app])
  let ?s0 = "s\<lparr>submissions := update_where p f (submissions s)\<rparr>"
  have now: "state_in i ?s0 = (case fetch_submission i s of None \<Rightarrow> Queued
    | Some r \<Rightarrow> row_state (if p r then f r else r))" for i
    by (rule state_in_update) (simp_all add: key)
  show "bus ?s0 = bus s" by simp
  show "state_in i ?s0 = state_in i s" if "i \<noteq> sid" for i
    unfolding now using that by (auto simp: state_in_def dest!: key(2) fetch_member split: option.split)
  obtain r0 where "fetch_submission sid ?s0 = Some r0"
    using app by (rule append_event_tx_Inr)
  then obtain r where "fetch_submission sid s = Some r"
    using fetch_after_update [of ?s0 p f s sid] key(1) by auto
  then show "tells ty data (state_in sid s) = Some (state_in sid ?s0)"
    unfolding now using tells by (simp add: state_in_def)
qed

lemma queued_row_fetch:
  assumes "wf_store s" and "count_where (queued_row sid) (submissions s) \<noteq> 0"
  shows "\<exists>r. fetch_submission sid s = Some r \<and> s_state r = ''queued''"
proof -
  have "distinct (map s_submission_id (submissions s))"
    using assms(1) by (simp add: wf_store_def keys_distinct)
  then show ?thesis
    using assms(2) count_key_distinct [of s_submission_id "submissions s" sid "\<lambda>r. s_state r = ''queued''"]
    by (simp add: fetch_submission_def split: option.splits if_splits)
qed

lemma narrates_expire:
  assumes wf: "wf_store s" and tx: "finish_queued_tx now st sid Expired reason s = Inr (s', u)"
  shows "narrates s s'"
  using tx
proof (rule finish_queued_tx_Inr)
  fix s1 ev
  assume app: "append_event_tx st sid None state_changed
      (JObject [(''from'', JString ''queued''), (''reason'', JString reason), (''to'', JString (state_name Expired))])
      (s\<lparr>submissions := update_where (queued_row sid) (leave_queue now (state_name Expired)) (submissions s)\<rparr>)
      = Inr (s1, ev)"
    and s': "s' = send_events [ev] s1" and one: "count_where (queued_row sid) (submissions s) \<noteq> 0"
  obtain r where r: "fetch_submission sid s = Some r" "s_state r = ''queued''"
    using queued_row_fetch [OF wf one] by blast
  show ?thesis
    unfolding s' using app
    by (rule narrates_update) (use r fetch_member [OF r(1)] in \<open>auto simp: leave_queue_def state_name_def tells_eval\<close>)
qed

text \<open>\<open>reject_unfrozen_queued\<close> and \<open>cancel\<close> leave the queue as \<open>expire\<close> does.\<close>

lemma narrates_reject:
  assumes wf: "wf_store s" and tx: "reject_one_tx now st sid s = Inr (s', moved)"
  shows "narrates s s'"
proof (cases "count_where (queued_row sid) (submissions s) = 0")
  case True
  then show ?thesis using tx by (auto simp: reject_one_tx_def)
next
  case False
  then obtain r where r: "fetch_submission sid s = Some r" "s_state r = ''queued''"
    using queued_row_fetch [OF wf] by blast
  from tx show ?thesis
  proof (rule reject_one_tx_Inr)
    fix s1 ev
    assume app: "append_event_tx st sid None state_changed
        (JObject [(''from'', JString ''queued''),
           (''reason'', JString ''configuration_snapshot_missing''), (''to'', JString ''failed'')])
        (s\<lparr>submissions := update_where (queued_row sid) (reject_row now) (submissions s)\<rparr>) = Inr (s1, ev)"
      and s': "s' = send_events [ev] s1"
    show ?thesis
      unfolding s' using app by (rule narrates_update) (use r fetch_member [OF r(1)] in \<open>auto simp: tells_eval\<close>)
  qed (use False in simp)
qed

lemma narrates_cancel:
  assumes "cancel_tx now st sid s = Inr (s', d, revision)"
  shows "narrates s s'"
  using assms
proof (cases rule: cancel_tx_Inr)
  case (queued row s1 ev rev0)
  show ?thesis
    unfolding queued(7) using queued(6)
    by (rule narrates_update) (use queued fetch_member [OF queued(1)] in \<open>auto simp: leave_queue_def state_name_def tells_eval\<close>)
next
  case (running row s1 ev rev0)
  show ?thesis
    unfolding running(8) using running(7)
    by (rule narrates_update) (auto simp: request_cancel_def row_state_def)
qed simp_all

lemma narrates_set_blocker:
  assumes "set_blocker_tx now st sid code detail s = Inr (s', u)"
  shows "narrates s s'"
  using assms
proof (rule set_blocker_tx_Inr)
  fix s1 ev
  assume app: "append_event_tx st sid None ''queue.blocked''
      (JObject [(''code'', JString code), (''detail'', json_opt JString detail)])
      (s\<lparr>submissions := update_where (queued_row sid) (block_row now code detail) (submissions s)\<rparr>) = Inr (s1, ev)"
    and s': "s' = send_events [ev] s1"
  show ?thesis
    unfolding s' using app by (rule narrates_update) (auto simp: block_row_def row_state_def)
qed simp

lemma narrates_patch:
  assumes "patch_scheduling_tx fmt now st sid expected patch s = Inr (s', u)"
  shows "narrates s s'"
  using assms
proof (rule patch_scheduling_tx_Inr)
  fix row priority s1 ev
  assume app: "append_event_tx st sid None ''submission.scheduling_changed'' (patch_json fmt patch)
      (s\<lparr>submissions := update_where
         (\<lambda>r. s_submission_id r = sid \<and> s_state r = ''queued'' \<and> s_revision r = uint expected)
         (reschedule now priority
           (case pt_not_before patch of None \<Rightarrow> s_not_before row | Some v \<Rightarrow> v)
           (case pt_start_deadline patch of None \<Rightarrow> s_start_deadline row | Some v \<Rightarrow> v))
         (submissions s)\<rparr>) = Inr (s1, ev)"
    and s': "s' = send_events [ev] s1"
  show ?thesis
    unfolding s' using app by (rule narrates_update) (auto simp: reschedule_def row_state_def)
qed

lemma narrates_event:
  assumes "append_event_tx st sid att ty data s0 = Inr (s1, ev)"
    and "submissions s0 = submissions s" "bus s0 = bus s" and "ty \<noteq> state_changed"
  shows "narrates s (send_events [ev] s1)"
  by (rule narrates_one [OF assms(1,3)]) (simp_all add: assms state_in_def fetch_submission_def)

lemma narrates_mark:
  "mark_attempt_running_tx st sid aid version s = Inr (s', u) \<Longrightarrow> narrates s s'"
  by (erule mark_attempt_running_tx_Inr) (auto intro: narrates_event)

lemma narrates_accept:
  assumes "accept_tx ulid now st spec s = Inr (s', record)"
  shows "narrates s s'"
  using assms
proof (cases rule: accept_tx_Inr)
  case (fresh s1 ev)
  let ?sid = "''sub_'' @ ulid"
  let ?s0 = "s\<lparr>submissions := submissions s @ [new_submission ?sid now spec]\<rparr>"
  have new: "fetch_submission ?sid s = None"
    using fresh(2) by (auto simp: fetch_submission_def fetch_optional_None_iff)
  have row: "s_submission_id (new_submission ?sid now spec) = ?sid"
    "row_state (new_submission ?sid now spec) = Queued"
    by (simp_all add: new_submission_def Let_def row_state_def parse_submission_state_def)
  have "state_in i ?s0 = state_in i s" for i
    using new row
    by (auto simp: state_in_def fetch_submission_def table_simps split: option.splits)
  then show ?thesis
    unfolding fresh(4) by (intro narrates_one [OF fresh(3)]) simp_all
qed simp

lemma narrates_claim:
  assumes "claim_tx now st1 st2 spec s = Inr (s', u)"
  shows "narrates s s'"
  using assms
proof (rule claim_tx_Inr)
  let ?sid = "cl_submission_id spec"
  fix row s1 s2 ev1 ev2
  assume row: "fetch_submission ?sid s = Some row" "s_state row = ''queued''"
    and app: "append_event_tx st1 ?sid (Some (cl_attempt_id spec)) ''attempt.created''
       (JObject [(''attempt_id'', JString (cl_attempt_id spec)), (''state'', JString ''starting'')])
       (claimed now spec s) = Inr (s1, ev1)"
    "append_event_tx st2 ?sid (Some (cl_attempt_id spec)) state_changed
       (JObject [(''from'', JString ''queued''), (''to'', JString ''running'')]) s1 = Inr (s2, ev2)"
    and s': "s' = send_events [ev1, ev2] s2"
  have now: "state_in i (claimed now spec s) = (case fetch_submission i s of None \<Rightarrow> Queued
    | Some r \<Rightarrow> row_state (if queued_row ?sid r then start_running now r else r))" for i
    by (rule state_in_update) (simp add: claimed_def, simp add: start_running_def)
  have "state_in i (claimed now spec s) = state_in i s" if "i \<noteq> ?sid" for i
    unfolding now using that by (auto simp: state_in_def dest!: fetch_member split: option.split)
  moreover have "tells state_changed (JObject [(''from'', JString ''queued''), (''to'', JString ''running'')])
      (state_in ?sid s) = Some (state_in ?sid (claimed now spec s))"
    unfolding now using row fetch_member [OF row(1)]
    by (simp add: state_in_def start_running_def tells_eval)
  ultimately show ?thesis
    unfolding s' by (intro narrates_two [OF app]) (simp_all add: claimed_def)
qed

lemma finish_lifecycle: "finish_attempt_state x = Some name \<Longrightarrow> lifecycle Running x"
  by (cases x) simp_all

lemma narrates_finish:
  assumes wf: "wf_store s" and tx: "finish_tx now st1 st2 spec s = Inr (s', u)"
  shows "narrates s s'"
  using tx
proof (rule finish_tx_Inr)
  let ?sid = "fin_submission_id spec"
  fix name s1 s2 ev1 ev2
  assume name: "finish_attempt_state (fin_state spec) = Some name"
    and one: "count_where (finishing_row spec) (submissions s) = 1"
    and app: "append_event_tx st1 ?sid (Some (fin_attempt_id spec)) ''attempt.state_changed''
       (JObject [(''to'', JString name)]) (finished now name spec s) = Inr (s1, ev1)"
    "append_event_tx st2 ?sid (Some (fin_attempt_id spec)) state_changed
       (JObject [(''from'', JString ''running''), (''to'', JString (state_name (fin_state spec)))]) s1
       = Inr (s2, ev2)"
    and s': "s' = send_events [ev1, ev2] s2"
  obtain r where r: "fetch_submission ?sid s = Some r" "s_state r = ''running''"
    by (rule finishing_row_fetch [OF wf one])
  have now: "state_in i (finished now name spec s) = (case fetch_submission i s of None \<Rightarrow> Queued
    | Some r \<Rightarrow> row_state (if finishing_row spec r then finish_submission now spec r else r))" for i
    by (rule state_in_update) (simp add: finished_def, simp add: finish_submission_def)
  have "state_in i (finished now name spec s) = state_in i s" if "i \<noteq> ?sid" for i
    unfolding now using that by (auto simp: state_in_def dest!: fetch_member split: option.split)
  moreover have "tells state_changed
      (JObject [(''from'', JString ''running''), (''to'', JString (state_name (fin_state spec)))])
      (state_in ?sid s) = Some (state_in ?sid (finished now name spec s))"
    unfolding now using r fetch_member [OF r(1)] tells_change(1) [OF finish_lifecycle [OF name]]
    by (simp add: state_in_def finish_submission_def row_state_def) (simp add: state_name_def parse_submission_state_def)
  ultimately show ?thesis
    unfolding s' by (intro narrates_two [OF app]) (simp_all add: finished_def)
qed

section \<open>The steps of the daemon\<close>

inductive daemon_step :: "store \<Rightarrow> store \<Rightarrow> bool" where
  accepting: "accept ulid now st spec s = (s', res) \<Longrightarrow> daemon_step s s'"
| claiming: "claim now st1 st2 cspec s = (s', cres) \<Longrightarrow> daemon_step s s'"
| marking: "mark_attempt_running st sid aid version s = (s', ures) \<Longrightarrow> daemon_step s s'"
| agent_event: "append_agent_event st sid aid event_type data s = (s', ures) \<Longrightarrow>
    event_record event = Some (event_type, data) \<Longrightarrow> daemon_step s s'"
| finishing: "finish now st1 st2 fspec s = (s', ures) \<Longrightarrow> daemon_step s s'"
| blocking: "set_blocker now st sid code detail s = (s', ures) \<Longrightarrow> daemon_step s s'"
| expiring: "expire now st sid s = (s', ures) \<Longrightarrow> daemon_step s s'"
| cancelling: "cancel now st sid s = (s', dres) \<Longrightarrow> daemon_step s s'"
| patching: "patch_scheduling fmt now st sid expected patch s = (s', pres) \<Longrightarrow> daemon_step s s'"
| rejecting: "transact (reject_one_tx now st sid) s = (s', bres) \<Longrightarrow> daemon_step s s'"
| observing: "record_capacity now source_id health usage_kind in_use observed_at s = s' \<Longrightarrow> daemon_step s s'"

lemma daemon_step_store_step: "daemon_step s s' \<Longrightarrow> store_step s s'"
  by (induction rule: daemon_step.induct) (rule store_step.intros, assumption)+

lemma daemon_steps_store_steps: "daemon_step\<^sup>*\<^sup>* s s' \<Longrightarrow> store_step\<^sup>*\<^sup>* s s'"
  by (erule rtranclp_mono [THEN predicate2D, rotated]) (auto dest: daemon_step_store_step)

lemma event_record_type: "event_record event = Some (event_type, data) \<Longrightarrow> event_type \<noteq> state_changed"
  by (auto simp: event_record_def split: runtime_event.splits)

lemma daemon_step_narrates: "daemon_step s s' \<Longrightarrow> wf_store s \<Longrightarrow> narrates s s'"
proof (induction rule: daemon_step.induct)
  case (claiming now st1 st2 cspec s s' cres)
  then show ?case
    by (auto simp: claim_def transact_def split: sum.splits prod.splits dest: narrates_claim)
next
  case (patching fmt now st sid expected patch s s' pres)
  then show ?case
    by (auto simp: patch_scheduling_def transact_def split: sum.splits prod.splits dest: narrates_patch)
next
  case (agent_event st sid aid event_type data s s' ures event)
  then show ?case
    by (auto simp: append_agent_event_def result_simps dest: event_record_type
        elim!: transact_cases intro!: narrates_event [OF _ refl refl event_record_type])
next
  case (observing now source_id health usage_kind in_use observed_at s s')
  then show ?case
    by (auto simp: record_capacity_def Let_def intro: narrates_same split: if_splits)
next
  case (cancelling now st sid s s' dres)
  then show ?case
    unfolding cancel_def by (elim transact_cases) (auto dest: narrates_cancel)
qed (auto simp: accept_def mark_attempt_running_def finish_def set_blocker_def expire_def
      elim!: transact_cases intro: narrates_accept narrates_mark narrates_finish narrates_set_blocker
        narrates_expire narrates_reject)

text \<open>The task of an attempt makes such steps only.\<close>

lemma log_event_daemon: "log_event sid aid st e s = (s', res) \<Longrightarrow> daemon_step\<^sup>*\<^sup>* s s'"
  by (auto simp: log_event_def split: option.splits prod.splits sum.splits dest!: daemon_step.agent_event)

lemma handle_event_daemon:
  assumes run: "handle_event n sid aid env e s = (s', res)"
  shows "daemon_step\<^sup>*\<^sup>* s s'"
proof (cases "terminal_spec n sid aid e")
  case (Some spec)
  then show ?thesis
    using run by (auto simp: handle_event_def split: prod.splits sum.splits dest!: daemon_step.finishing)
next
  case None
  obtain s1 r where mark: "mark_attempt_running (ee_stamp1 env) sid aid (case e of Started v \<Rightarrow> v | _ \<Rightarrow> None) s = (s1, r)"
    by fastforce
  have "daemon_step s s1" using mark by (rule daemon_step.marking)
  then show ?thesis
    using run None mark
    by (cases e; cases r)
      (auto simp: handle_event_def intro: converse_rtranclp_into_rtranclp log_event_daemon)
qed

section \<open>The log tells the state\<close>

lemma retell_log: "daemon_step\<^sup>*\<^sup>* empty_store s \<Longrightarrow> retell Queued (history i s) = Some (state_in i s)"
proof (induction rule: rtranclp_induct)
  case base
  show ?case
    by (simp add: history_def state_in_def empty_store_def fetch_submission_def fetch_optional_Nil)
next
  case (step t u)
  have "wf_store t"
    using daemon_steps_store_steps [OF step(1)] by (intro wf_reachable) (simp add: reachable_def)
  then have "narrates t u" using daemon_step_narrates [OF step(2)] by simp
  then show ?case
    using step(3) by (auto simp: narrates_def told_def history_def retell_append)
qed

lemma state_in_of: "state_of i s = Some x \<Longrightarrow> state_in i s = x"
  by (auto simp: state_of_Some state_in_def)

lemma ends_name: "ends_submission ev \<longleftrightarrow> ev_event_type ev = state_changed \<and>
    (\<exists>x. state_at ''to'' (ev_data ev) = Some x \<and> terminal x)"
proof -
  have "name \<in> set [''completed'', ''failed'', ''cancelled'', ''expired'', ''uncertain''] \<longleftrightarrow>
      (\<exists>x. parse_submission_state name = Inr x \<and> terminal x)" for name
    by (auto simp: parse_submission_state_def)
  then show ?thesis
    by (auto simp: ends_submission_def state_at_def split: option.splits sum.splits)
qed

lemma tells_ends:
  assumes "tells (ev_event_type ev) (ev_data ev) x = Some y"
  shows "if ends_submission ev then \<not> terminal x \<and> terminal y \<and> state_at ''to'' (ev_data ev) = Some y
    else terminal y \<longrightarrow> y = x"
  using assms
  by (auto simp: tells_def ends_name dest: lifecycle_terminal split: if_splits option.splits)

lemma retell_ends:
  assumes "retell x evs = Some y" and "\<not> terminal x"
  shows "(terminal y \<longleftrightarrow> (\<exists>ev \<in> set evs. ends_submission ev)) \<and>
    (\<forall>ev \<in> set evs. ends_submission ev \<longrightarrow> state_at ''to'' (ev_data ev) = Some y)"
proof -
  have over: "z = y \<and> \<not> (\<exists>ev \<in> set evs. ends_submission ev)"
    if "terminal z" "retell z evs = Some y" for z evs
    using that
  proof (induction evs)
    case (Cons ev evs)
    then obtain z' where z': "tells (ev_event_type ev) (ev_data ev) z = Some z'" "retell z' evs = Some y"
      by (auto simp: bind_eq_Some_conv)
    then have "z' = z" using Cons.prems(1) by (auto simp: tells_def dest: lifecycle_terminal split: if_splits option.splits)
    then show ?case
      using Cons z' tells_ends [OF z'(1)] by (auto split: if_splits)
  qed simp
  show ?thesis
    using assms
  proof (induction evs arbitrary: x)
    case (Cons ev evs)
    then obtain z where z: "tells (ev_event_type ev) (ev_data ev) x = Some z" "retell z evs = Some y"
      by (auto simp: bind_eq_Some_conv)
    show ?case
      using Cons.IH [OF z(2)] Cons.prems(2) over [OF _ z(2)] tells_ends [OF z(1)]
      by (cases "terminal z") (auto split: if_splits)
  qed simp
qed

text \<open>
  C11: the log is the truth about a Submission, and following it is enough. At any moment, whatever
  the handlers, the scheduler and the recovery did, replaying the state events of a Submission from
  \<open>queued\<close> is a run of the lifecycle that ends in the state its row has. The Submission is over
  exactly when the log has an event at which \<open>eyes run\<close> stops watching; that event names the final
  state, and the result is available with it.
\<close>

theorem log_tells_state:
  assumes "daemon_step\<^sup>*\<^sup>* empty_store s" and "state_of i s = Some x"
  shows "retell Queued (history i s) = Some x \<and>
    (terminal x \<longleftrightarrow> (\<exists>ev \<in> set (history i s). ends_submission ev)) \<and>
    (\<forall>ev \<in> set (history i s). ends_submission ev \<longrightarrow>
       state_at ''to'' (ev_data ev) = Some x \<and> (\<exists>res. result_of i s = Inr res \<and> sr_state res = x))"
proof -
  have told: "retell Queued (history i s) = Some x"
    using retell_log [OF assms(1), of i] state_in_of [OF assms(2)] by simp
  have wf: "wf_store s"
    using daemon_steps_store_steps [OF assms(1)] by (intro wf_reachable) (simp add: reachable_def)
  obtain r where "fetch_submission i s = Some r" "s_state r = state_name x"
    using assms(2) by (auto simp: state_of_Some)
  from result_total [OF wf this] have "terminal x \<Longrightarrow> \<exists>res. result_of i s = Inr res \<and> sr_state res = x"
    by auto
  then show ?thesis
    using told retell_ends [OF told] by auto
qed

lemma demo_daemon_steps: "daemon_step\<^sup>*\<^sup>* empty_store demo_done"
proof -
  have "daemon_step empty_store demo_queued" "daemon_step demo_queued demo_running"
    "daemon_step demo_running demo_done"
    unfolding demo_queued_def demo_running_def demo_done_def
    by (rule daemon_step.accepting, rule surjective_pairing)
      (rule daemon_step.claiming daemon_step.finishing, rule surjective_pairing)+
  then show ?thesis by (meson converse_rtranclp_into_rtranclp rtranclp.rtrancl_refl)
qed

lemma log_tells_state_witness:
  "retell Queued (history ''sub_1'' demo_done) = Some Completed \<and>
     (\<exists>ev \<in> set (history ''sub_1'' demo_done). ends_submission ev) \<and>
     (\<exists>res. result_of ''sub_1'' demo_done = Inr res \<and> sr_state res = Completed)"
  using log_tells_state [OF demo_daemon_steps demo_states(3)] by auto

end
