(* ===== verification/ClientProps.thy ===== *)
theory ClientProps
  imports Client ApiProps Utf8
begin

text \<open>
  The client and the daemon agree: what \<open>eyes submit\<close> builds from the configuration is accepted by
  the daemon that runs with the same configuration, and resolved to what the arguments meant. The
  workspace travels as a root id and a relative path, so this rests on the round trip between
  \<open>strip_prefix\<close> in the client and \<open>join\<close> in the daemon.

  \<^item> \<open>canonicalizes\<close> states what \<open>canonicalize\<close> documents: an absolute path without \<open>..\<close>, the same
    for every spelling of its components. \<open>keeps_utf8\<close> is the lossy conversion on valid text.
\<close>

section \<open>Paths and text\<close>

definition canonicalizes :: "(string \<Rightarrow> string option) \<Rightarrow> bool" where
  "canonicalizes canon \<longleftrightarrow> (\<forall>p c. canon p = Some c \<longrightarrow>
     is_absolute c \<and> ParentDir \<notin> set (path_components c) \<and>
     (\<forall>q. path_components q = path_components c \<longrightarrow> canon q = Some c))"

definition keeps_utf8 :: "(string \<Rightarrow> string) \<Rightarrow> bool" where
  "keeps_utf8 lossy \<longleftrightarrow> (\<forall>s. utf8 s \<longrightarrow> lossy s = s)"

lemma canonicalizesD:
  assumes "canonicalizes canon" and "canon p = Some c"
  shows "is_absolute c" "ParentDir \<notin> set (path_components c)"
    "path_components q = path_components c \<Longrightarrow> canon q = Some c"
  using assms unfolding canonicalizes_def by blast+

lemma utf8_append: "utf8 a \<Longrightarrow> utf8 b \<Longrightarrow> utf8 (a @ b)"
  by (induction a rule: utf8.induct) (auto split: option.splits)

text \<open>An ASCII byte is a character of its own.\<close>

lemma utf8_cut:
  "utf8 s \<Longrightarrow> s = xs @ d # ys \<Longrightarrow> trail_bytes d = Some 0 \<Longrightarrow> utf8 xs \<and> utf8 ys"
proof (induction s arbitrary: xs rule: utf8.induct)
  case (2 c cs)
  from "2.prems"(1) obtain k where k: "trail_bytes c = Some k" "k \<le> length cs"
    "list_all continuation (take k cs)" "utf8 (drop k cs)"
    by (auto split: option.splits)
  show ?case
  proof (cases xs)
    case Nil
    then show ?thesis using "2.prems"(2,3) k by simp
  next
    case (Cons x xs')
    then have cs: "cs = xs' @ d # ys" and x: "x = c" using "2.prems"(2) by simp_all
    have "\<not> continuation d" using "2.prems"(3) by (rule trail_bytes_lead)
    have short: "k \<le> length xs'"
    proof (rule ccontr)
      assume "\<not> k \<le> length xs'"
      then have "d \<in> set (take k cs)" by (simp add: cs take_Cons')
      then show False using k(3) \<open>\<not> continuation d\<close> by (auto simp: list_all_iff)
    qed
    have "drop k cs = drop k xs' @ d # ys" using short by (simp add: cs)
    from "2.IH" [OF k(1,4) this "2.prems"(3)] have "utf8 (drop k xs')" "utf8 ys" by blast+
    moreover have "take k xs' = take k cs" using short by (simp add: cs)
    ultimately show ?thesis using Cons x k short by simp
  qed
qed simp

lemma utf8_segments: "utf8 p \<Longrightarrow> s \<in> set (split_on (CHR ''/'') p) \<Longrightarrow> utf8 s"
proof (induction "length p" arbitrary: p rule: less_induct)
  case less
  show ?case
  proof (cases "CHR ''/'' \<in> set p")
    case True
    then obtain xs ys where p: "p = xs @ CHR ''/'' # ys" "CHR ''/'' \<notin> set xs"
      using split_list_first by metis
    have "utf8 xs \<and> utf8 ys"
      by (rule utf8_cut [OF less.prems(1) p(1)]) (simp add: trail_bytes_def)
    then show ?thesis
      using less.hyps [of ys] less.prems(2) p by (auto simp: split_on_append_sep split_on_free)
  qed (use less.prems in \<open>simp add: split_on_free\<close>)
qed

lemma utf8_join: "\<forall>s \<in> set ss. utf8 s \<Longrightarrow> utf8 (join_with ''/'' ss)"
proof (induction "''/''" ss rule: join_with.induct)
  case (3 x y ys)
  have "utf8 ''/''" by (simp add: trail_bytes_def)
  then have "utf8 (''/'' @ join_with ''/'' (y # ys))"
    using 3 by (intro utf8_append) simp_all
  then show ?case
    using 3(2) utf8_append [of x] by simp
qed simp_all

lemma utf8_strip_prefix:
  assumes "utf8 p" and "path_strip_prefix p base = Some rel"
  shows "utf8 rel"
proof -
  let ?n = "named_components (path_components base)"
  have "utf8 s" if "s \<in> set (trim_segments (skip_segments ?n (split_on (CHR ''/'') p)))" for s
    using that set_trim_segments set_skip_segments utf8_segments [OF assms(1)] by blast
  then show ?thesis
    using assms(2) utf8_join by (auto simp: path_strip_prefix_def split: if_splits)
qed

lemma body_components_named: "c \<in> set (body_components ss) \<Longrightarrow> c \<noteq> RootDir \<and> c \<noteq> CurDir"
  by (induction ss) (auto split: if_splits)

section \<open>The workspace\<close>

text \<open>Below the root the client sends a safe relative path, which the daemon joins to the same place.\<close>

lemma strip_then_join:
  assumes canon: "canonicalizes canon" and c: "canon w = Some c" and root: "canon r = Some base"
    and below: "path_starts_with c base" and rel: "path_strip_prefix c base = Some rel"
  shows "safe_relative rel \<and> canon (path_join base rel) = Some c"
proof -
  note abs = canonicalizesD(1) [OF canon c] canonicalizesD(1) [OF canon root]
  obtain cs where cs: "path_components c = path_components base @ cs"
    using below by (auto simp: path_starts_with_def prefix_def)
  have comps: "path_components rel = cs" and relative: "\<not> is_absolute rel"
    using strip_prefix_components [OF abs cs] rel by auto
  have "cs = drop (length (path_components base)) (path_components c)" by (simp add: cs)
  moreover have "path_components base \<noteq> []" using abs(2) by (simp add: path_components_absolute)
  ultimately have "set cs \<subseteq> set (body_components (split_on (CHR ''/'') c))"
    using abs(1) by (cases "path_components base") (auto simp: path_components_absolute dest: in_set_dropD)
  then have named: "x \<noteq> RootDir \<and> x \<noteq> CurDir" if "x \<in> set cs" for x
    using that body_components_named by blast
  have "path_components (path_join base rel) = path_components c"
    using components_join [OF abs(2) relative] named by (auto simp: comps cs filter_id_conv)
  moreover have "safe_relative rel"
    using canonicalizesD(2) [OF canon c] named relative
    by (auto simp: safe_relative_def comps cs list_ex_iff escaping_component_def)
  ultimately show ?thesis
    using canonicalizesD(3) [OF canon c] by blast
qed

lemma workspace_root_iff:
  "unique_ids (map wr_id (cfg_workspace_roots config)) \<Longrightarrow> root \<in> set (cfg_workspace_roots config) \<Longrightarrow>
     workspace_root config (wr_id root) = Some root"
  using fetch_key_distinct [of wr_id "cfg_workspace_roots config" root]
  by (simp add: workspace_root_def unique_ids_def fetch_optional_def)

lemma resolve_workspace_granted:
  assumes config: "validate_config config = Inr ()" and canon: "canonicalizes (ce_canonicalize cenv)"
    and same: "en_canonicalize env = ce_canonicalize cenv" "en_lossy env = ce_lossy cenv"
    and texts: "keeps_utf8 (ce_lossy cenv)" and valid: "\<And>c. ce_canonicalize cenv w = Some c \<Longrightarrow> utf8 c"
    and ws: "resolve_workspace cenv config w write = Inr ws" and req: "sc_workspace request = Some ws"
  shows "\<exists>c. ce_canonicalize cenv w = Some c \<and> workspace_grant env config request
    (Some c, Some (if write then ''writable'' else ''read_only''))"
proof -
  from ws obtain c root base rel where c: "ce_canonicalize cenv w = Some c"
    and chosen: "max_by_last (\<lambda>(root, path). length (path_components path)) (candidate_roots cenv config c) =
      Some (root, base)"
    and may: "\<not> (write \<and> \<not> wr_allow_writable root)"
    and rel: "path_strip_prefix c base = Some rel"
    and ws': "ws = WsLocal (wr_id root) (if rel = [] then None else Some (ce_lossy cenv rel)) None
      (if write then Writable else ReadOnly)"
    by (auto simp: resolve_workspace_def result_simps)
  have "(root, base) \<in> set (candidate_roots cenv config c)"
    using max_by_last_SomeD [OF chosen] by blast
  then have root: "root \<in> set (cfg_workspace_roots config)" "ce_canonicalize cenv (wr_path root) = Some base"
    "path_starts_with c base"
    by (auto simp: candidate_roots_def set_map_filter_Some split: option.splits if_splits)
  have "unique_ids (map wr_id (cfg_workspace_roots config))"
    using config by (simp add: validate_config_ok_iff config_ok_def Let_def)
  note found = workspace_root_iff [OF this root(1)]
  note joined = strip_then_join [OF canon c root(2,3) rel]
  have "ce_lossy cenv rel = rel" "ce_lossy cenv c = c"
    using texts valid [OF c] utf8_strip_prefix [OF valid [OF c] rel] by (simp_all add: keeps_utf8_def)
  then have "workspace_grant env config request (Some c, Some (if write then ''writable'' else ''read_only''))"
    using found root(2,3) joined may by (auto simp: workspace_grant_def req ws' same)
  then show ?thesis using c by blast
qed

section \<open>The routes\<close>

text \<open>The configured routes the arguments name: the default one without a model or an adapter.\<close>

definition task_routes :: "config \<Rightarrow> task_args \<Rightarrow> route_config set" where
  "task_routes config task = {route \<in> set (cfg_routes config).
     if ta_model task = None \<and> ta_adapter task = None
     then ro_id route = df_route_id (cfg_defaults config)
     else (ta_adapter task = None \<or> ta_adapter task = Some (ro_adapter route)) \<and>
       (ta_model task = None \<or> ro_model route = [] \<or> ta_model task = Some (ro_model route))}"

lemma task_routes_ids:
  assumes "ta_model task \<noteq> None \<or> ta_adapter task \<noteq> None"
  shows "task_route_ids config task = Some (map ro_id (filter (\<lambda>r. r \<in> task_routes config task) (cfg_routes config)))"
proof -
  have "filter (\<lambda>r. r \<in> task_routes config task) (cfg_routes config) =
      filter (\<lambda>route.
          (case ta_adapter task of None \<Rightarrow> True | Some adapter \<Rightarrow> ro_adapter route = adapter) \<and>
          (case ta_model task of None \<Rightarrow> True | Some model \<Rightarrow> ro_model route = [] \<or> ro_model route = model))
        (cfg_routes config)"
    using assms by (intro filter_cong) (auto simp: task_routes_def split: option.splits)
  then show ?thesis using assms by (simp add: task_route_ids_def)
qed

lemma submission_request_shape:
  assumes "submission_request cenv config task = Inr req"
  shows "unat (ta_priority task) \<le> 100" "task_route_ids config task \<noteq> Some []"
    "sc_mode req = Task" "sc_input req = \<lparr>inp_parts = [PartText (ta_prompt task)]\<rparr>" "sc_output req = None"
    "sc_session req = None" "sc_limits req = None" "sc_policy req = None"
    "sc_agent req = (if ta_adapter task \<noteq> None \<or> ta_model task \<noteq> None
       then Some \<lparr>ag_profile = None, ag_adapter = ta_adapter task, ag_model = ta_model task,
         ag_required_capabilities = [], ag_extensions = []\<rparr> else None)"
    "sc_execution req = Some \<lparr>ex_route_ids = task_route_ids config task, ex_target_ids = Some [''local''],
       ex_locality = Some LocalOnly,
       ex_side_effects = Some (if ta_write task then SideEffecting else ReadOnlyEffects)\<rparr>"
    "sc_scheduling req = Some \<lparr>sch_priority = Some (ta_priority task), sch_not_before = None,
       sch_start_deadline = None\<rparr>"
    "ta_workspace task = None \<Longrightarrow> sc_workspace req = None"
    "ta_workspace task = Some w \<Longrightarrow>
       \<exists>ws. resolve_workspace cenv config w (ta_write task) = Inr ws \<and> sc_workspace req = Some ws"
  using assms
  by (auto simp: submission_request_def Let_def result_simps word_less_nat_alt)

lemma resolved_task_routes:
  assumes "submission_request cenv config task = Inr req" and unique: "unique_ids (map ro_id (cfg_routes config))"
  shows "set (resolve_routes config req) = task_routes config task"
proof -
  note shape = submission_request_shape [OF assms(1)]
  show ?thesis
  proof (cases "ta_model task = None \<and> ta_adapter task = None")
    case True
    then show ?thesis
      by (auto simp: resolve_routes_set [OF unique] route_fits_def route_serves_def requested_route_ids_def
          shape task_route_ids_def task_routes_def)
  next
    case False
    then have "ta_model task \<noteq> None \<or> ta_adapter task \<noteq> None" by simp
    note ids = task_routes_ids [OF this, of config]
    have serves: "route_serves req r \<longleftrightarrow> r \<in> task_routes config task" if "r \<in> set (cfg_routes config)" for r
      using False that by (auto simp: route_serves_def shape task_routes_def split: option.splits)
    have asked: "requested_route_ids config req = map ro_id (filter (\<lambda>r. r \<in> task_routes config task) (cfg_routes config))"
      by (simp add: requested_route_ids_def shape(10) ids)
    have "route_fits config req r \<longleftrightarrow> r \<in> task_routes config task" for r
    proof
      assume "r \<in> task_routes config task"
      moreover from this have "r \<in> set (cfg_routes config)" by (simp add: task_routes_def)
      ultimately show "route_fits config req r"
        using serves [of r] by (simp add: route_fits_def asked)
    qed (use serves [of r] in \<open>simp add: route_fits_def\<close>)
    then show ?thesis by (simp add: resolve_routes_set [OF unique])
  qed
qed

section \<open>The daemon accepts what the client sends\<close>

lemma task_execution_ok:
  assumes built: "submission_request cenv config task = Inr req" and ok: "config_ok config"
  shows "execution_ok req \<and> task_routes config task \<noteq> {}"
proof
  note shape = submission_request_shape [OF built]
  have unique: "unique_ids (map ro_id (cfg_routes config))" using ok by (simp add: config_ok_def Let_def)
  have "distinct (map ro_id (filter P (cfg_routes config)))" for P
    using unique by (simp add: unique_ids_def distinct_map_filter)
  then show "execution_ok req"
    using shape(2) task_routes_ids [of task config]
    by (cases "ta_model task \<noteq> None \<or> ta_adapter task \<noteq> None")
      (auto simp: execution_ok_def shape(10) task_route_ids_def)
  show "task_routes config task \<noteq> {}"
  proof (cases "ta_model task \<noteq> None \<or> ta_adapter task \<noteq> None")
    case True
    then show ?thesis
      using shape(2) task_routes_ids [OF True] by (auto simp: filter_empty_conv)
  next
    case False
    then show ?thesis
      using ok config_route_ex [of config] by (auto simp: task_routes_def config_ok_def Let_def)
  qed
qed

lemma task_workspace_granted:
  assumes "validate_config config = Inr ()" and "submission_request cenv config task = Inr req"
    and "canonicalizes (ce_canonicalize cenv)" and "keeps_utf8 (ce_lossy cenv)"
    and "en_canonicalize env = ce_canonicalize cenv" and "en_lossy env = ce_lossy cenv"
    and "\<forall>w c. ta_workspace task = Some w \<longrightarrow> ce_canonicalize cenv w = Some c \<longrightarrow> utf8 c"
  shows "workspace_grant env config req (Option.bind (ta_workspace task) (ce_canonicalize cenv),
    map_option (\<lambda>_. if ta_write task then ''writable'' else ''read_only'') (ta_workspace task))"
proof (cases "ta_workspace task")
  case None
  then show ?thesis
    using submission_request_shape(12) [OF assms(2)] by (simp add: workspace_grant_def)
next
  case (Some w)
  obtain ws where ws: "resolve_workspace cenv config w (ta_write task) = Inr ws" "sc_workspace req = Some ws"
    using submission_request_shape(13) [OF assms(2) Some] by blast
  have "utf8 c" if "ce_canonicalize cenv w = Some c" for c using assms(7) Some that by blast
  from resolve_workspace_granted [OF assms(1,3,5,6,4) this ws] Some show ?thesis by auto
qed

lemma task_request_accepted:
  assumes "validate_config config = Inr ()" and "submission_request cenv config task = Inr req"
    and "canonicalizes (ce_canonicalize cenv)" and "keeps_utf8 (ce_lossy cenv)"
    and "en_canonicalize env = ce_canonicalize cenv" and "en_lossy env = ce_lossy cenv"
    and "ta_prompt task \<noteq> []" and "length (ta_prompt task) \<le> 1048576"
    and "\<forall>w c. ta_workspace task = Some w \<longrightarrow> ce_canonicalize cenv w = Some c \<longrightarrow> utf8 c"
  shows "\<exists>r. validate_request env config req = Inr r \<and> re_routes r \<noteq> [] \<and>
    set (re_routes r) = task_routes config task \<and>
    re_workspace_key r = Option.bind (ta_workspace task) (ce_canonicalize cenv) \<and>
    re_workspace_access r =
      map_option (\<lambda>_. if ta_write task then ''writable'' else ''read_only'') (ta_workspace task) \<and>
    pr_id (re_profile_config r) = df_profile_id (cfg_defaults config) \<and>
    po_id (re_policy_config r) = df_policy_id (cfg_defaults config)"
proof -
  note shape = submission_request_shape [OF assms(2)]
  have ok: "config_ok config" using assms(1) by (simp add: validate_config_ok_iff)
  then have unique: "unique_ids (map ro_id (cfg_routes config))" by (simp add: config_ok_def Let_def)
  obtain p q where pq: "config_profile config (df_profile_id (cfg_defaults config)) None = Some p"
    "config_policy config (df_policy_id (cfg_defaults config)) None = Some q"
    using ok by (auto simp: config_ok_def Let_def)
  have none: "Option.bind (sc_agent req) ag_profile = None" by (simp add: shape)
  have profile: "resolve_profile config req = Inr p" "resolve_policy config req = Inr q"
    using pq by (simp_all add: resolve_profile_def resolve_policy_def selected_def none shape(8))
  have version: "within_version req" by (simp add: within_version_def shape)
  have "input_ok (inp_parts (sc_input req))"
    using assms(7,8) by (simp add: input_ok_def shape)
  then have input: "\<exists>n. inp_parts (sc_input req) \<noteq> [] \<and>
      check_parts 0 0 (inp_parts (sc_input req)) = Inr n \<and> \<not> (1048576 < n)"
    using input_check [of "inp_parts (sc_input req)"] assms(8) by (simp add: shape)
  have scheduled: "scheduling_ok req" using shape(1) by (simp add: scheduling_ok_def shape)
  have executable: "execution_ok req" and found: "task_routes config task \<noteq> {}"
    using task_execution_ok [OF assms(2) ok] by simp_all
  note routes = resolved_task_routes [OF assms(2) unique]
  obtain key access where grant: "workspace_grant env config req (key, access)"
    "key = Option.bind (ta_workspace task) (ce_canonicalize cenv)"
    "access = map_option (\<lambda>_. if ta_write task then ''writable'' else ''read_only'') (ta_workspace task)"
    using task_workspace_granted [OF assms(1-6,9)] by blast
  have effects: "\<not> (Option.bind (sc_execution req) ex_side_effects = Some ReadOnlyEffects \<and>
      access = Some ''writable'')"
    using grant(3) by (auto simp: shape split: if_splits)
  have nonempty: "resolve_routes config req \<noteq> []" using routes found by force
  have "\<exists>r. validate_request env config req = Inr r \<and> re_routes r = resolve_routes config req \<and>
      re_workspace_key r = key \<and> re_workspace_access r = access \<and> re_profile_config r = p \<and> re_policy_config r = q"
    unfolding validate_request_iff
    using version input scheduled executable nonempty profile grant(1) effects by fastforce
  then show ?thesis
    using routes nonempty grant(2,3) config_profile_SomeD [OF pq(1)] config_policy_SomeD [OF pq(2)] by fastforce
qed

text \<open>The one thing the client does not check before it sends.\<close>

lemma task_prompt_refused:
  assumes "submission_request cenv config task = Inr req" and "length (ta_prompt task) < 2 ^ 64"
    and "ta_prompt task = [] \<or> 1048576 < length (ta_prompt task)"
  shows "\<exists>e. validate_request env config req = Inl e"
proof (cases "validate_request env config req")
  case (Inr r)
  note shape = submission_request_shape [OF assms(1)]
  have "\<not> input_ok (inp_parts (sc_input req))"
    using assms(3) by (auto simp: input_ok_def shape)
  moreover have "\<forall>part \<in> set (inp_parts (sc_input req)). part_bytes part < 2 ^ 64"
    using assms(2) by (simp add: shape)
  ultimately show ?thesis
    using input_check Inr [unfolded validate_request_iff] by blast
qed blast

text \<open>
  C40: client and daemon agree. When \<open>eyes submit\<close> gets as far as sending, a daemon with the same
  validated configuration and file system accepts the request exactly when the prompt is not empty and
  at most one MiB - \<open>eyes submit ""\<close> is sent too, and refused - and resolves it to what the arguments
  meant: exactly the configured routes with the wanted adapter and model (the default one without a
  wish), the canonical path of the workspace, writable only if asked for, the default profile and
  policy. Assumed are paths that are valid text, and a prompt below 2^64 bytes.
\<close>

theorem client_request_accepted:
  assumes "validate_config config = Inr ()" and "submission_request cenv config task = Inr req"
    and "canonicalizes (ce_canonicalize cenv)" and "keeps_utf8 (ce_lossy cenv)"
    and "en_canonicalize env = ce_canonicalize cenv" and "en_lossy env = ce_lossy cenv"
    and "length (ta_prompt task) < 2 ^ 64"
    and "\<forall>w c. ta_workspace task = Some w \<longrightarrow> ce_canonicalize cenv w = Some c \<longrightarrow> utf8 c"
  shows "if ta_prompt task = [] \<or> 1048576 < length (ta_prompt task)
    then \<exists>e. validate_request env config req = Inl e
    else \<exists>r. validate_request env config req = Inr r \<and> re_routes r \<noteq> [] \<and>
      set (re_routes r) = task_routes config task \<and>
      re_workspace_key r = Option.bind (ta_workspace task) (ce_canonicalize cenv) \<and>
      re_workspace_access r =
        map_option (\<lambda>_. if ta_write task then ''writable'' else ''read_only'') (ta_workspace task) \<and>
      pr_id (re_profile_config r) = df_profile_id (cfg_defaults config) \<and>
      po_id (re_policy_config r) = df_policy_id (cfg_defaults config)"
proof (cases "ta_prompt task = [] \<or> 1048576 < length (ta_prompt task)")
  case True
  then show ?thesis using task_prompt_refused [OF assms(2,7) True] by simp
next
  case False
  then show ?thesis using task_request_accepted [OF assms(1-6) _ _ assms(8)] by simp
qed

text \<open>A file system without links: \<open>canonicalize\<close> only normalises.\<close>

definition normalize :: "string \<Rightarrow> string option" where
  "normalize p =
     (if is_absolute p \<and> ParentDir \<notin> set (path_components p)
      then Some (CHR ''/'' # join_with ''/'' (filter (\<lambda>s. \<not> idle_segment s) (split_on (CHR ''/'') p)))
      else None)"

fun component_text :: "path_component \<Rightarrow> string" where
  "component_text (Normal s) = s"
| "component_text ParentDir = ''..''"
| "component_text _ = []"

lemma named_segments: "filter (\<lambda>s. \<not> idle_segment s) ss = map component_text (body_components ss)"
  by (induction ss) (auto simp: idle_segment_def)

lemma body_components_filter: "body_components (filter (\<lambda>s. \<not> idle_segment s) ss) = body_components ss"
  by (induction ss) (auto simp: idle_segment_def)

lemma root_component: "RootDir \<in> set (path_components q) \<Longrightarrow> is_absolute q"
  using body_components_named by (force simp: path_components_def split: list.splits if_splits)

lemma canonicalizes_normalize: "canonicalizes normalize"
  unfolding canonicalizes_def
proof (intro allI impI)
  fix p c
  assume "normalize p = Some c"
  then have p: "is_absolute p" "ParentDir \<notin> set (path_components p)"
    and c: "c = CHR ''/'' # join_with ''/'' (filter (\<lambda>s. \<not> idle_segment s) (split_on (CHR ''/'') p))"
    by (simp_all add: normalize_def split: if_splits)
  let ?ss = "filter (\<lambda>s. \<not> idle_segment s) (split_on (CHR ''/'') p)"
  have "body_components (split_on (CHR ''/'') (join_with ''/'' ?ss)) = body_components ?ss"
  proof (cases "?ss = []")
    case False
    have "\<forall>s \<in> set ?ss. CHR ''/'' \<notin> set s" using split_on_segments by auto
    then show ?thesis using split_join [OF False] by simp
  qed simp
  then have comps: "path_components c = path_components p"
    using p(1) by (simp add: c path_components_absolute is_absolute_def body_components_filter)
  have "normalize q = Some c" if q: "path_components q = path_components c" for q
  proof -
    have "RootDir \<in> set (path_components q)"
      unfolding q comps using p(1) by (simp add: path_components_absolute)
    then have abs: "is_absolute q" by (rule root_component)
    then have "body_components (split_on (CHR ''/'') q) = body_components (split_on (CHR ''/'') p)"
      using q p(1) by (simp add: comps path_components_absolute)
    moreover have "ParentDir \<notin> set (path_components q)" using p(2) by (simp add: q comps)
    ultimately show ?thesis
      using abs by (simp add: normalize_def c named_segments)
  qed
  then show "is_absolute c \<and> ParentDir \<notin> set (path_components c) \<and>
      (\<forall>q. path_components q = path_components c \<longrightarrow> normalize q = Some c)"
    using p(2) comps by (auto simp: c is_absolute_def)
qed

definition demo_client :: client_env where
  "demo_client = \<lparr>ce_canonicalize = normalize, ce_lossy = (\<lambda>s. s), ce_encode = (\<lambda>r. Some []),
     ce_accepted = (\<lambda>b. None), ce_status = (\<lambda>b. None), ce_result = (\<lambda>b. None)\<rparr>"

definition demo_task :: task_args where
  "demo_task = \<lparr>ta_prompt = ''fix it'', ta_workspace = Some ''/w//a/./b/'', ta_write = True,
     ta_priority = 50, ta_model = None, ta_adapter = Some ''opencode''\<rparr>"

lemma client_request_accepted_witness:
  "\<exists>req r. submission_request demo_client demo_config demo_task = Inr req \<and>
     validate_request (demo_api\<lparr>en_canonicalize := normalize\<rparr>) demo_config req = Inr r \<and>
     re_workspace_key r = Some ''/w/a/b'' \<and> re_workspace_access r = Some ''writable'' \<and>
     set (re_routes r) = {demo_route}"
proof -
  have "case submission_request demo_client demo_config demo_task of Inl _ \<Rightarrow> False | Inr _ \<Rightarrow> True"
    by code_simp
  then obtain req where req: "submission_request demo_client demo_config demo_task = Inr req"
    by (auto split: sum.splits)
  have valid: "\<forall>w c. ta_workspace demo_task = Some w \<longrightarrow> ce_canonicalize demo_client w = Some c \<longrightarrow> utf8 c"
  proof (intro allI impI)
    fix w c
    assume "ta_workspace demo_task = Some w" and c: "ce_canonicalize demo_client w = Some c"
    then have "w = ''/w//a/./b/''" by (simp add: demo_task_def)
    moreover have "normalize ''/w//a/./b/'' = Some ''/w/a/b''" by code_simp
    ultimately have "c = ''/w/a/b''" using c by (simp add: demo_client_def)
    moreover have "utf8 ''/w/a/b''" by code_simp
    ultimately show "utf8 c" by simp
  qed
  have prompt: "\<not> (ta_prompt demo_task = [] \<or> 1048576 < length (ta_prompt demo_task))"
    by (simp add: demo_task_def)
  have "\<exists>r. validate_request (demo_api\<lparr>en_canonicalize := normalize\<rparr>) demo_config req = Inr r \<and>
      re_routes r \<noteq> [] \<and> set (re_routes r) = task_routes demo_config demo_task \<and>
      re_workspace_key r = Option.bind (ta_workspace demo_task) (ce_canonicalize demo_client) \<and>
      re_workspace_access r =
        map_option (\<lambda>_. if ta_write demo_task then ''writable'' else ''read_only'') (ta_workspace demo_task) \<and>
      pr_id (re_profile_config r) = df_profile_id (cfg_defaults demo_config) \<and>
      po_id (re_policy_config r) = df_policy_id (cfg_defaults demo_config)"
    by (rule client_request_accepted [OF demo_config_valid req _ _ _ _ _ valid, unfolded if_not_P [OF prompt]])
      (simp_all add: demo_client_def canonicalizes_normalize keeps_utf8_def demo_api_def demo_task_def)
  moreover have "Option.bind (ta_workspace demo_task) (ce_canonicalize demo_client) = Some ''/w/a/b''"
    by code_simp
  moreover have "task_routes demo_config demo_task = {demo_route}"
    by (auto simp: task_routes_def demo_config_def demo_task_def demo_route_def)
  ultimately show ?thesis
    using req by (auto simp: demo_task_def)
qed

end
