(* ===== verification/Setup.thy ===== *)
theory Setup
  imports Service
begin

text \<open>
  \<open>eyes init\<close> and \<open>eyes doctor\<close> of \<open>bins/eyes/src/main.rs\<close>, with \<open>Config::load\<close> and the default
  directories of \<open>crates/service/src/config.rs\<close>.

  \<^item> \<open>init\<close> is the whole command as one computation on the file system: its checks, the import of
    credentials, the new configuration, the backup of the old one, the installation of the runtime.
  \<^item> \<open>init_env\<close> is the rest of what it asks the system: environment variables, \<open>canonicalize\<close>,
    the path of the executable, fresh ids, the encoding as TOML, the answer to the download.
  \<^item> \<open>doctor_env\<close>: the TOML decoder and how the programs that \<open>doctor\<close> starts end. Their output is
    the text after the lossy conversion and \<open>trim\<close>.
\<close>

section \<open>Environment\<close>

record init_env =
  ie_var :: "string \<Rightarrow> string option"
  ie_is_file :: "string \<Rightarrow> bool"
  ie_canonicalize :: "string \<Rightarrow> string option"
  ie_current_exe :: "string option"
  ie_toml :: "config \<Rightarrow> string option"
  ie_ulid :: string
  ie_backup_ulid :: string
  ie_response :: "(nat option \<times> string option list) option"

definition home_dir :: "init_env \<Rightarrow> setup_error + string" where
  "home_dir env = ok_or HomeMissing (ie_var env ''HOME'')"

definition xdg_dir :: "init_env \<Rightarrow> string \<Rightarrow> string \<Rightarrow> string \<Rightarrow> setup_error + string" where
  "xdg_dir env variable below below_home =
     (case ie_var env variable of
        Some root \<Rightarrow> Inr (path_join root below)
      | None \<Rightarrow> try_bind (home_dir env) (\<lambda>home. Inr (path_join home below_home)))"

definition default_config_path :: "init_env \<Rightarrow> setup_error + string" where
  "default_config_path env =
     xdg_dir env ''XDG_CONFIG_HOME'' ''thieving-eyes/config.toml'' ''.config/thieving-eyes/config.toml''"

definition default_state_dir :: "init_env \<Rightarrow> setup_error + string" where
  "default_state_dir env = xdg_dir env ''XDG_STATE_HOME'' ''thieving-eyes'' ''.local/state/thieving-eyes''"

definition default_data_dir :: "init_env \<Rightarrow> setup_error + string" where
  "default_data_dir env = xdg_dir env ''XDG_DATA_HOME'' ''thieving-eyes'' ''.local/share/thieving-eyes''"

definition default_runtime_dir :: "init_env \<Rightarrow> setup_error + string" where
  "default_runtime_dir env =
     (case ie_var env ''XDG_RUNTIME_DIR'' of
        Some root \<Rightarrow> Inr (path_join root ''thieving-eyes'')
      | None \<Rightarrow> try_bind (default_state_dir env) (\<lambda>d. Inr (path_join d ''run'')))"

definition find_in_path :: "init_env \<Rightarrow> string \<Rightarrow> string option" where
  "find_in_path env binary =
     Option.bind (ie_var env ''PATH'') (\<lambda>path.
     find (ie_is_file env) (map (\<lambda>directory. path_join directory binary) (split_on (CHR '':'') path)))"

definition load_config :: "machine \<Rightarrow> (string \<Rightarrow> config option) \<Rightarrow> string \<Rightarrow> (fs, setup_error, config) exec" where
  "load_config mc parse p =
     exec_bind (read_file mc p) (\<lambda>contents.
     exec_bind (exec_lift (ok_or (ConfigUnreadable p) (parse contents))) (\<lambda>config.
     exec_bind (exec_lift (map_err InvalidConfig (validate_config config))) (\<lambda>_.
     exec_return config)))"

definition digest_file :: "machine \<Rightarrow> string \<Rightarrow> (fs, setup_error, string) exec" where
  "digest_file mc p = exec_bind (read_file mc p) (\<lambda>contents. exec_return (mc_sha256 mc contents))"

definition set_private :: "machine \<Rightarrow> string \<Rightarrow> (fs, setup_error, unit) exec" where
  "set_private mc p = set_permissions mc 0x180 p"

definition set_private_dir :: "machine \<Rightarrow> string \<Rightarrow> (fs, setup_error, unit) exec" where
  "set_private_dir mc p = set_permissions mc 0x1C0 p"

section \<open>\<open>eyes init\<close>\<close>

record init_args =
  ia_workspace_root :: string
  ia_root_id :: string
  ia_opencode :: "string option"
  ia_codex :: "string option"
  ia_codex_acp :: "string option"
  ia_adapter :: string
  ia_model :: string
  ia_force :: bool

definition locate :: "init_env \<Rightarrow> string option \<Rightarrow> string \<Rightarrow> setup_error + string" where
  "locate env given binary =
     (case given of
        Some p \<Rightarrow> ok_or (Unresolved p) (ie_canonicalize env p)
      | None \<Rightarrow> ok_or (NotInPath binary) (find_in_path env binary))"

definition discover_agent :: "init_env \<Rightarrow> init_args \<Rightarrow> setup_error + (string \<times> string option)" where
  "discover_agent env options =
     (if ia_adapter options = ''opencode'' then
        try_bind (bail_if (ia_codex options \<noteq> None \<or> ia_codex_acp options \<noteq> None)
          (ConflictingOptions ''--codex and --codex-acp require --adapter codex'')) (\<lambda>_.
        try_bind (locate env (ia_opencode options) ''opencode'') (\<lambda>binary.
        Inr (binary, None)))
      else if ia_adapter options = ''codex'' then
        try_bind (bail_if (ia_opencode options \<noteq> None)
          (ConflictingOptions ''--opencode cannot be combined with --adapter codex'')) (\<lambda>_.
        try_bind (locate env (ia_codex options) ''codex'') (\<lambda>binary.
        try_bind (locate env (ia_codex_acp options) ''codex-acp'') (\<lambda>process.
        Inr (binary, Some process))))
      else Inl (UnknownAdapter (ia_adapter options)))"

text \<open>Where credentials are discovered, where the copy is kept, and where the sandbox has it.\<close>

definition credential_imports :: "string \<Rightarrow> string \<Rightarrow> string \<Rightarrow> (string \<times> string \<times> string) list" where
  "credential_imports adapter home source_config_dir =
     (if adapter = ''opencode'' then
        [(path_join home ''.local/share/opencode/auth.json'', path_join source_config_dir ''auth.json'',
          ''.local/share/opencode/auth.json''),
         (path_join home ''.config/opencode/opencode.jsonc'', path_join source_config_dir ''opencode.jsonc'',
          ''.config/opencode/opencode.jsonc'')]
      else if adapter = ''codex'' then
        [(path_join home ''.codex/auth.json'', path_join source_config_dir ''auth.json'', ''.codex/auth.json''),
         (path_join home ''.codex/config.toml'', path_join source_config_dir ''config.toml'', ''.codex/config.toml'')]
      else [])"

definition import_file ::
  "machine \<Rightarrow> string \<times> string \<times> string \<Rightarrow> (fs, setup_error, credential_file list) exec" where
  "import_file mc entry =
     (case entry of (discovered, independent, sandbox) \<Rightarrow>
      exec_bind (try_exists mc independent) (\<lambda>kept.
      exec_bind (if kept then exec_return ()
        else exec_bind (try_exists mc discovered) (\<lambda>found.
          if \<not> found then exec_return ()
          else exec_bind (copy_file mc discovered independent) (\<lambda>_. set_private mc independent))) (\<lambda>_.
      exec_bind (try_exists mc independent) (\<lambda>present.
      if \<not> present then exec_return []
      else exec_bind (set_private mc independent) (\<lambda>_.
        exec_return [\<lparr>cf_source_id = ''default'', cf_host_path = independent, cf_sandbox_path = sandbox\<rparr>])))))"

fun import_files ::
  "machine \<Rightarrow> (string \<times> string \<times> string) list \<Rightarrow> (fs, setup_error, credential_file list) exec" where
  "import_files mc [] = exec_return []"
| "import_files mc (entry # entries) =
     exec_bind (import_file mc entry) (\<lambda>new.
     exec_bind (import_files mc entries) (\<lambda>rest. exec_return (new @ rest)))"

text \<open>The configuration that is written: one source, one route, one workspace root.\<close>

definition init_config ::
  "init_args \<Rightarrow> agent_binary_config \<Rightarrow> credential_file list \<Rightarrow> string \<Rightarrow> string \<Rightarrow> string \<Rightarrow> string \<Rightarrow> string \<Rightarrow> config"
where
  "init_config options agent credentials runner state_dir data_dir runtime_dir root =
     (let adapter = ia_adapter options; route_id = adapter @ ''_default'' in
     \<lparr>cfg_daemon = \<lparr>dc_socket_path = path_join runtime_dir ''daemon.sock'',
        dc_database_path = path_join state_dir ''state.db'', dc_max_inline_output_bytes = 262144\<rparr>,
      cfg_runtime = \<lparr>rc_cache_dir = path_join data_dir ''runtimes/sandbox-agent'', rc_download_if_missing = True\<rparr>,
      cfg_local_runner = \<lparr>lr_runner_binary = runner, lr_bubblewrap_binary = ''/usr/bin/bwrap'',
        lr_opencode_binary = None, lr_opencode_sha256 = None, lr_agent_binaries = [agent],
        lr_credential_files = credentials, lr_source_bindings = []\<rparr>,
      cfg_defaults = \<lparr>df_profile_id = ''local_coding'', df_policy_id = ''standard'', df_route_id = route_id\<rparr>,
      cfg_profiles = [\<lparr>pr_id = ''local_coding'', pr_version = ''1'',
        pr_description = ''Non-interactive '' @ adapter @ '' in required bubblewrap sandbox'',
        pr_network = NetInherited\<rparr>],
      cfg_policies = [\<lparr>po_id = ''standard'', po_version = ''1'',
        po_description = ''Single-attempt local execution'', po_run_timeout_seconds = 3600,
        po_idle_timeout_seconds = 900\<rparr>],
      cfg_sources = [\<lparr>so_id = ''default'', so_label = ''local-default'', so_concurrency_limit = 1,
        so_safety_reserve = 0, so_monitor = MonitorStatic\<rparr>],
      cfg_routes = [\<lparr>ro_id = route_id, ro_adapter = adapter, ro_model = ia_model options,
        ro_source_ids = [''default''], ro_target_id = ''local''\<rparr>],
      cfg_workspace_roots = [\<lparr>wr_id = ia_root_id options, wr_path = root, wr_allow_writable = True\<rparr>]\<rparr>)"

definition temporary_path :: "init_env \<Rightarrow> string \<Rightarrow> string" where
  "temporary_path env config_dir = path_join config_dir (''.config-'' @ ie_ulid env @ ''.tmp'')"

definition backup_path :: "init_env \<Rightarrow> string \<Rightarrow> string" where
  "backup_path env config_dir = path_join config_dir (''config.toml.backup-'' @ ie_backup_ulid env)"

definition write_temporary :: "machine \<Rightarrow> string \<Rightarrow> string \<Rightarrow> (fs, setup_error, unit) exec" where
  "write_temporary mc p encoded =
     exec_bind (create_new mc p) (\<lambda>_.
     exec_bind (write_all mc p encoded) (\<lambda>_.
     set_private mc p))"

definition replace_config :: "machine \<Rightarrow> init_env \<Rightarrow> string \<Rightarrow> string \<Rightarrow> (fs, setup_error, unit) exec" where
  "replace_config mc env config_dir config_path =
     exec_bind (try_exists mc config_path) (\<lambda>exists.
     exec_bind (if exists then rename mc config_path (backup_path env config_dir) else exec_return ()) (\<lambda>_.
     rename mc (temporary_path env config_dir) config_path))"

text \<open>Everything up to the new configuration, which is not written yet.\<close>

definition plan_config ::
  "machine \<Rightarrow> init_env \<Rightarrow> string \<Rightarrow> init_args \<Rightarrow> (fs, setup_error, config) exec" where
  "plan_config mc env config_dir options =
     exec_bind (exec_lift (ok_or (Unresolved (ia_workspace_root options))
       (ie_canonicalize env (ia_workspace_root options)))) (\<lambda>workspace_root.
     exec_bind (exec_lift (discover_agent env options)) (\<lambda>(agent, agent_process).
     exec_bind (digest_file mc agent) (\<lambda>agent_sha256.
     exec_bind (case agent_process of
         None \<Rightarrow> exec_return None
       | Some p \<Rightarrow> exec_bind (digest_file mc p) (\<lambda>d. exec_return (Some d))) (\<lambda>agent_process_sha256.
     exec_bind (exec_lift (ok_or (NoParent ''current_exe'') (Option.bind (ie_current_exe env) path_parent)))
       (\<lambda>exe_dir.
     exec_bind (exec_lift (default_state_dir env)) (\<lambda>state_dir.
     exec_bind (exec_lift (default_data_dir env)) (\<lambda>data_dir.
     exec_bind (exec_lift (default_runtime_dir env)) (\<lambda>runtime_dir.
     exec_bind (exec_lift (home_dir env)) (\<lambda>home.
     exec_bind (create_dir_all mc config_dir) (\<lambda>_.
     exec_bind (set_private_dir mc config_dir) (\<lambda>_.
     let source_root = path_join config_dir (ia_adapter options);
         source_config_dir = path_join source_root ''default'' in
     exec_bind (create_dir_all mc source_config_dir) (\<lambda>_.
     exec_bind (case path_parent source_config_dir of
         None \<Rightarrow> exec_return () | Some d \<Rightarrow> set_private_dir mc d) (\<lambda>_.
     exec_bind (set_private_dir mc source_config_dir) (\<lambda>_.
     exec_bind (import_files mc (credential_imports (ia_adapter options) home source_config_dir)) (\<lambda>credentials.
     let config = init_config options
         \<lparr>ab_adapter = ia_adapter options, ab_binary = agent, ab_sha256 = agent_sha256,
          ab_agent_process_binary = agent_process, ab_agent_process_sha256 = agent_process_sha256\<rparr>
         credentials (path_join exe_dir ''thieving-eyes-runner'') state_dir data_dir runtime_dir workspace_root in
     exec_bind (exec_lift (map_err InvalidConfig (validate_config config))) (\<lambda>_.
     exec_return config))))))))))))))))"

definition configure ::
  "machine \<Rightarrow> init_env \<Rightarrow> string \<Rightarrow> string \<Rightarrow> init_args \<Rightarrow> (fs, setup_error, unit) exec" where
  "configure mc env config_dir config_path options =
     exec_bind (plan_config mc env config_dir options) (\<lambda>config.
     exec_bind (exec_lift (ok_or EncodingFailed (ie_toml env config))) (\<lambda>encoded.
     exec_bind (write_temporary mc (temporary_path env config_dir) encoded) (\<lambda>_.
     exec_bind (replace_config mc env config_dir config_path) (\<lambda>_.
     install_runtime mc (ie_response env) config))))"

definition init :: "machine \<Rightarrow> init_env \<Rightarrow> string \<Rightarrow> init_args \<Rightarrow> (fs, setup_error, unit) exec" where
  "init mc env config_path options =
     exec_bind (try_exists mc config_path) (\<lambda>exists.
     exec_bind (exec_lift (bail_if (exists \<and> \<not> ia_force options) (AlreadyExists config_path))) (\<lambda>_.
     exec_bind (exec_lift (ok_or (NoParent config_path) (path_parent config_path))) (\<lambda>config_dir.
     configure mc env config_dir config_path options)))"

section \<open>\<open>eyes doctor\<close>\<close>

record doctor_env =
  de_parse :: "string \<Rightarrow> config option"
  de_version :: "string \<Rightarrow> (bool \<times> string) option"
  de_bubblewrap :: "string \<Rightarrow> string list \<Rightarrow> bool option"

text \<open>\<open>mode & 0o777 & 0o077\<close> is the mode modulo 64.\<close>

definition check_private :: "machine \<Rightarrow> string \<Rightarrow> (fs, setup_error, unit) exec" where
  "check_private mc p fs =
     (case Option.bind (followed fs p) fs of
        None \<Rightarrow> (fs, Inl (IoFailed (OpenFile p)))
      | Some n \<Rightarrow>
          let mode = (case n of FileNode c m \<Rightarrow> m | DirNode m \<Rightarrow> m | SocketNode m \<Rightarrow> m | LinkNode q \<Rightarrow> 0x1FF) in
          (fs, bail_if (mode mod 64 \<noteq> 0) (NotPrivate p)))"

definition check_credential :: "machine \<Rightarrow> credential_file \<Rightarrow> (fs, setup_error, unit) exec" where
  "check_credential mc mapping =
     exec_bind (try_exists mc (cf_host_path mapping)) (\<lambda>exists.
     exec_lift (bail_if (\<not> exists) (CredentialMissing (cf_host_path mapping))))"

definition check_version :: "doctor_env \<Rightarrow> string \<Rightarrow> setup_error + string" where
  "check_version env program =
     try_bind (ok_or (IoFailed (OpenFile program)) (de_version env program)) (\<lambda>(ok, version).
     try_bind (bail_if (\<not> ok) (SmokeTestFailed program)) (\<lambda>_. Inr version))"

text \<open>One adapter: the version lines of the Agent and of the Agent process.\<close>

definition check_adapter ::
  "machine \<Rightarrow> doctor_env \<Rightarrow> config \<Rightarrow> string \<Rightarrow> (fs, setup_error, (string \<times> string) \<times> (string \<times> string) list) exec"
where
  "check_adapter mc env config adapter =
     exec_bind (exec_lift (ok_or (MissingAgentBinary adapter) (agent_binary config adapter))) (\<lambda>binary.
     exec_bind (digest_file mc (ab_binary binary)) (\<lambda>digest.
     exec_bind (exec_lift (bail_if (digest \<noteq> ab_sha256 binary) (AgentDigest adapter))) (\<lambda>_.
     exec_bind (case (ab_agent_process_binary binary, ab_agent_process_sha256 binary) of
         (Some process, Some expected) \<Rightarrow>
           exec_bind (digest_file mc process) (\<lambda>d.
           exec_bind (exec_lift (bail_if (d \<noteq> expected) (AgentProcessDigest adapter))) (\<lambda>_.
           exec_bind (exec_lift (check_version env process)) (\<lambda>version.
           exec_return [(adapter, version)])))
       | _ \<Rightarrow> exec_return []) (\<lambda>processes.
     exec_bind (exec_lift (check_version env (ab_binary binary))) (\<lambda>version.
     exec_return ((adapter, version), processes))))))"

fun check_adapters ::
  "machine \<Rightarrow> doctor_env \<Rightarrow> config \<Rightarrow> string list \<Rightarrow>
     (fs, setup_error, (string \<times> string) list \<times> (string \<times> string) list) exec" where
  "check_adapters mc env config [] = exec_return ([], [])"
| "check_adapters mc env config (adapter # adapters) =
     exec_bind (check_adapter mc env config adapter) (\<lambda>(version, processes).
     exec_bind (check_adapters mc env config adapters) (\<lambda>(versions, more_processes).
     exec_return (version # versions, processes @ more_processes)))"

definition smoke_test_args :: "string list" where
  "smoke_test_args =
     [''--ro-bind'', ''/usr'', ''/usr'', ''--symlink'', ''usr/bin'', ''/bin'', ''--symlink'', ''usr/lib'', ''/lib'',
      ''--symlink'', ''usr/lib64'', ''/lib64'', ''--ro-bind'', ''/etc'', ''/etc'', ''--proc'', ''/proc'',
      ''--dev'', ''/dev'', ''--tmpfs'', ''/tmp'', ''--unshare-user'', ''--unshare-pid'', ''--unshare-ipc'',
      ''--unshare-uts'', ''--share-net'', ''--die-with-parent'', ''/usr/bin/true'']"

definition doctor_report :: "(string \<times> string) list \<Rightarrow> (string \<times> string) list \<Rightarrow> string list" where
  "doctor_report agents processes =
     [''configuration: ok'', ''Sandbox Agent 0.4.2: ok''] @
     map (\<lambda>(adapter, version). adapter @ '' '' @ version @ '': ok'') agents @
     map (\<lambda>(adapter, version). adapter @ '' Agent process '' @ version @ '': ok'') processes @
     [''bubblewrap: ok'']"

definition doctor :: "machine \<Rightarrow> doctor_env \<Rightarrow> string \<Rightarrow> (fs, setup_error, string list) exec" where
  "doctor mc env config_path =
     exec_bind (load_config mc (de_parse env) config_path) (\<lambda>config.
     exec_bind (check_private mc config_path) (\<lambda>_.
     exec_bind (prepare mc config) (\<lambda>_.
     exec_bind (exec_for (check_credential mc) (lr_credential_files (cfg_local_runner config))) (\<lambda>_.
     exec_bind (check_adapters mc env config (route_adapters config)) (\<lambda>(agents, processes).
     exec_bind (exec_lift (ok_or (SmokeTestFailed ''bubblewrap'')
       (de_bubblewrap env (lr_bubblewrap_binary (cfg_local_runner config)) smoke_test_args))) (\<lambda>ok.
     exec_bind (exec_lift (bail_if (\<not> ok) (SmokeTestFailed ''bubblewrap''))) (\<lambda>_.
     exec_return (doctor_report agents processes))))))))"

end
