(* ===== verification/SetupProps.thy ===== *)
theory SetupProps
  imports Setup
begin

text \<open>
  What \<open>eyes init\<close> leaves behind, wherever it stops: up to the new configuration it only adds
  (\<open>growing\<close>), the two renames move the old configuration aside before the new one takes its place,
  and the installation of the runtime touches no existing file.
\<close>

section \<open>Up to the new configuration nothing is replaced\<close>

lemma extends_bind:
  "extends fs (fst (m fs)) \<Longrightarrow> (\<And>x. growing (f x)) \<Longrightarrow> extends fs (fst (exec_bind m f fs))"
  unfolding growing_def exec_bind_def
  by (split prod.split, intro allI impI, split sum.split) (metis extends_trans fst_conv)

lemma growing_digest_file [growing_intros]: "growing (digest_file mc p)"
  unfolding digest_file_def by (intro growing_intros)

lemma growing_set_private [growing_intros]: "growing (set_private mc p)" "growing (set_private_dir mc p)"
  unfolding set_private_def set_private_dir_def by (intro growing_intros)+

lemma try_exists_Inr: "try_exists mc p fs = (t, Inr b) \<longleftrightarrow>
    \<not> mc_fails mc (TryExists p) \<and> t = fs \<and> (\<exists>q. followed fs p = Some q \<and> b = (fs q \<noteq> None))"
  by (auto simp: try_exists_def io_call_Inr)

lemma try_exists_state: "fst (try_exists mc p fs) = fs"
  by (auto simp: try_exists_def io_call_def split: option.split)

lemma copy_new:
  assumes "followed fs b = Some q" and "fs q = None"
  shows "extends fs (fst (copy_file mc a b fs))"
proof (cases "followed fs a")
  case (Some p)
  show ?thesis
    by (cases "fs p") (auto simp: copy_file_def io_call_def Some assms extends_new split: node.split)
qed (simp add: copy_file_def io_call_def)

lemma import_new:
  assumes "followed fs b = Some q" and "fs q = None"
  shows "extends fs (fst (exec_bind (try_exists mc a) (\<lambda>found.
      if \<not> found then exec_return ()
      else exec_bind (copy_file mc a b) (\<lambda>_. set_private mc b)) fs))"
proof -
  have "extends fs (fst (exec_bind (copy_file mc a b) (\<lambda>_. set_private mc b) fs))"
    by (rule extends_bind [of fs "copy_file mc a b", OF copy_new [OF assms]]) (rule growing_set_private)
  then show ?thesis
    using try_exists_state [of mc a fs]
    by (cases "try_exists mc a fs") (auto simp: exec_bind_def exec_return_def split: sum.split)
qed

lemma growing_import_file [growing_intros]: "growing (import_file mc entry)"
proof -
  obtain a b sandbox where entry: "entry = (a, b, sandbox)" by (cases entry)
  let ?fetch = "\<lambda>kept. if kept then exec_return () else exec_bind (try_exists mc a) (\<lambda>found.
      if \<not> found then exec_return () else exec_bind (copy_file mc a b) (\<lambda>_. set_private mc b))"
  let ?rest = "exec_bind (try_exists mc b) (\<lambda>present. if \<not> present then exec_return []
      else exec_bind (set_private mc b) (\<lambda>_.
        exec_return [\<lparr>cf_source_id = ''default'', cf_host_path = b, cf_sandbox_path = sandbox\<rparr>]))"
  have rest: "growing ?rest" by (intro growing_intros)
  have "extends fs (fst (import_file mc entry fs))" for fs
  proof (cases "try_exists mc b fs")
    case (Pair t r)
    show ?thesis
    proof (cases r)
      case (Inl e)
      then show ?thesis
        using Pair try_exists_state [of mc b fs] by (simp add: import_file_def entry exec_bind_def)
    next
      case (Inr kept)
      then obtain q where q: "t = fs" "followed fs b = Some q" "kept = (fs q \<noteq> None)"
        using Pair by (auto simp: try_exists_Inr)
      have "extends fs (fst (?fetch kept fs))"
      proof (cases kept)
        case True
        then show ?thesis by (simp add: exec_return_def)
      next
        case False
        then show ?thesis using import_new [OF q(2), of mc a] q(3) by simp
      qed
      then have "extends fs (fst (exec_bind (?fetch kept) (\<lambda>_. ?rest) fs))"
        by (rule extends_bind) (rule rest)
      moreover have "import_file mc entry fs = exec_bind (?fetch kept) (\<lambda>_. ?rest) fs"
        unfolding import_file_def entry prod.case
        by (rule exec_bind_after(1)) (use Pair Inr q(1) in simp)
      ultimately show ?thesis by simp
    qed
  qed
  then show ?thesis by (simp add: growing_def)
qed

lemma growing_import_files [growing_intros]: "growing (import_files mc entries)"
  by (induction entries) (auto intro!: growing_intros)

lemma growing_plan_config: "growing (plan_config mc env config_dir options)"
  unfolding plan_config_def Let_def
  by (auto intro!: growing_intros split: option.split prod.split)

lemma growing_write_temporary: "growing (write_temporary mc p encoded)"
proof -
  have "extends fs (fst (exec_bind (create_new mc p) (\<lambda>_. write_all mc p encoded) fs))" for fs
    by (auto simp: exec_bind_def create_new_def write_all_def io_call_def extends_new)
  then have "extends fs (fst (exec_bind (exec_bind (create_new mc p) (\<lambda>_. write_all mc p encoded))
      (\<lambda>_. set_private mc p) fs))" for fs
    by (rule extends_bind) (rule growing_set_private)
  moreover have "write_temporary mc p encoded =
      exec_bind (exec_bind (create_new mc p) (\<lambda>_. write_all mc p encoded)) (\<lambda>_. set_private mc p)"
    by (rule ext) (simp add: write_temporary_def exec_bind_def split: prod.split sum.split)
  ultimately show ?thesis by (simp add: growing_def)
qed

lemma write_temporary_ok:
  assumes "write_temporary mc p encoded fs = (t, Inr u)"
  shows "fs p = None \<and> t p = Some (FileNode encoded 0x180)"
proof -
  from assms obtain t1 t2 where new: "create_new mc p fs = (t1, Inr ())"
    and written: "write_all mc p encoded t1 = (t2, Inr ())" and closed: "set_private mc p t2 = (t, Inr u)"
    by (auto simp: write_temporary_def result_simps)
  have t1: "fs p = None" "t1 p = Some (FileNode [] (mc_file_mode mc))"
    using new by (auto simp: create_new_def io_call_Inr split: if_split_asm)
  then have t2: "t2 p = Some (FileNode encoded (mc_file_mode mc))"
    using written by (auto simp: write_all_def io_call_Inr)
  then have "followed t2 p = Some p" by (intro followed_here) simp
  then show ?thesis
    using t1 t2 closed by (auto simp: set_private_def set_permissions_def io_call_Inr)
qed

section \<open>The configuration changes places\<close>

definition holds_file :: "fs \<Rightarrow> string \<Rightarrow> string \<Rightarrow> bool" where
  "holds_file fs p c \<longleftrightarrow> (\<exists>mode. fs p = Some (FileNode c mode))"

lemma holds_extends: "extends fs fs' \<Longrightarrow> holds_file fs p c \<Longrightarrow> holds_file fs' p c"
  unfolding extends_def holds_file_def by fastforce

lemma rename_result:
  assumes "rename mc a b fs = (fs', res)"
  shows "(res = Inr () \<and> (\<exists>n. fs a = Some n \<and> fs' = (fs(a := None))(b \<mapsto> n))) \<or> (res \<noteq> Inr () \<and> fs' = fs)"
proof (cases "fs a")
  case (Some n)
  with assms show ?thesis
    by (cases "fs b") (auto simp: rename_def io_call_def split: if_split_asm node.split_asm)
qed (use assms in \<open>auto simp: rename_def io_call_def split: if_split_asm\<close>)

lemma replace_config_keeps:
  assumes run: "replace_config mc env config_dir p fs = (fs', res)" and old: "holds_file fs p c"
    and fresh: "backup_path env config_dir \<noteq> p" "backup_path env config_dir \<noteq> temporary_path env config_dir"
  shows "holds_file fs' p c \<or> holds_file fs' (backup_path env config_dir) c"
proof -
  let ?b = "backup_path env config_dir" and ?t = "temporary_path env config_dir"
  obtain mode where node: "fs p = Some (FileNode c mode)" using old by (auto simp: holds_file_def)
  have exists: "try_exists mc p fs = (fs, r) \<Longrightarrow> r = Inr x \<Longrightarrow> x" for r x
    using node followed_here [of fs p] by (auto simp: try_exists_Inr)
  obtain r where r: "try_exists mc p fs = (fs, r)"
    using try_exists_state [of mc p fs] by (cases "try_exists mc p fs") auto
  show ?thesis
  proof (cases r)
    case (Inl e)
    then show ?thesis using run r old by (auto simp: replace_config_def exec_bind_def)
  next
    case (Inr x)
    then have x: "x" using exists r by blast
    obtain t r1 where moved: "rename mc p ?b fs = (t, r1)" by fastforce
    obtain u r2 where placed: "rename mc ?t p t = (u, r2)" by fastforce
    from rename_result [OF moved] show ?thesis
    proof
      assume "r1 \<noteq> Inr () \<and> t = fs"
      then obtain e where "r1 = Inl e" "t = fs" by (cases r1) auto
      then show ?thesis
        using run r Inr x moved old by (auto simp: replace_config_def exec_bind_def)
    next
      assume "r1 = Inr () \<and> (\<exists>n. fs p = Some n \<and> t = (fs(p := None))(?b \<mapsto> n))"
      then have r1: "r1 = Inr ()" and t: "t ?b = Some (FileNode c mode)" using node by auto
      have "fs' = u" using run r Inr x moved r1 placed by (simp add: replace_config_def exec_bind_def)
      moreover have "u ?b = Some (FileNode c mode)"
        using rename_result [OF placed] t fresh by auto
      ultimately show ?thesis by (auto simp: holds_file_def)
    qed
  qed
qed

lemma replace_config_ok:
  assumes run: "replace_config mc env config_dir p fs = (fs', Inr ())"
    and new: "fs (temporary_path env config_dir) = Some n"
    and fresh: "backup_path env config_dir \<noteq> temporary_path env config_dir"
  shows "fs' p = Some n"
proof -
  let ?b = "backup_path env config_dir" and ?t = "temporary_path env config_dir"
  from run obtain x t where x: "try_exists mc p fs = (fs, Inr x)"
    and moved: "(if x then rename mc p ?b else exec_return ()) fs = (t, Inr ())"
    and placed: "rename mc ?t p t = (fs', Inr ())"
    by (auto simp: replace_config_def result_simps try_exists_Inr)
  obtain m where m: "t ?t = Some m" "fs' p = Some m"
    using rename_result [OF placed] by auto
  have "t ?t = None \<or> t ?t = Some n"
    using moved rename_result [of mc p ?b fs t "Inr ()"] new fresh
    by (cases x) (auto simp: result_simps split: if_split_asm)
  then show ?thesis using m by auto
qed

lemma path_join_inject: "\<not> is_absolute a \<Longrightarrow> \<not> is_absolute b \<Longrightarrow> path_join d a = path_join d b \<Longrightarrow> a = b"
  by (auto simp: path_join_def split: if_split_asm)

lemma names_differ: "backup_path env config_dir \<noteq> temporary_path env config_dir"
  using path_join_inject [of "''config.toml.backup-'' @ ie_backup_ulid env" "''.config-'' @ ie_ulid env @ ''.tmp''" config_dir]
  by (auto simp: backup_path_def temporary_path_def is_absolute_def)

lemma install_runtime_keeps:
  assumes "install_runtime mc response config fs = (fs', res)" and "fs p = Some (FileNode c mode)"
  shows "fs' p = Some (FileNode c mode)"
proof (cases "validate_config config")
  case (Inl e)
  then show ?thesis using assms by (auto simp: install_runtime_def exec_bind_def exec_lift_def map_err_def)
next
  case (Inr u)
  then have "ensure_runtime mc (sandbox_agent_path config) SANDBOX_AGENT_SHA256
      (rc_download_if_missing (cfg_runtime config)) response fs = (fs', res)"
    using assms(1) by (simp add: install_runtime_def exec_bind_def exec_lift_def map_err_def)
  moreover have "fst (ensure_runtime mc (sandbox_agent_path config) SANDBOX_AGENT_SHA256
      (rc_download_if_missing (cfg_runtime config)) response fs) p = Some (FileNode c mode)"
    by (rule ensure_runtime_keeps_files) (rule assms(2))
  ultimately show ?thesis by simp
qed

section \<open>The configuration is never lost\<close>

lemma load_written:
  assumes "fs p = Some (FileNode encoded 0x180)" and "validate_config config = Inr ()"
    and "parse encoded = Some config" and "\<not> mc_fails mc (OpenFile p)"
  shows "load_config mc parse p fs = (fs, Inr config)"
  using assms followed_here [of fs p]
  by (simp add: load_config_def exec_bind_def exec_lift_def exec_return_def read_file_def io_call_def map_err_def)

lemma private_written: "fs p = Some (FileNode encoded 0x180) \<Longrightarrow> snd (check_private mc p fs) = Inr ()"
  using followed_here [of fs p] by (simp add: check_private_def bail_if_def)

lemma plan_config_ok:
  assumes "plan_config mc env config_dir options fs = (t, Inr config)"
  shows "validate_config config = Inr () \<and> (\<exists>root.
    cfg_workspace_roots config = [\<lparr>wr_id = ia_root_id options, wr_path = root, wr_allow_writable = True\<rparr>] \<and>
    ie_canonicalize env (ia_workspace_root options) = Some root) \<and> map ro_adapter (cfg_routes config) = [ia_adapter options]"
  using assms by (auto simp: plan_config_def Let_def result_simps init_config_def)

lemma configure_keeps:
  assumes run: "configure mc env config_dir p options fs = (fs', res)" and old: "holds_file fs p c"
    and fresh: "backup_path env config_dir \<noteq> p"
  shows "holds_file fs' p c \<or> holds_file fs' (backup_path env config_dir) c"
proof -
  let ?kept = "\<lambda>s. holds_file s p c \<or> holds_file s (backup_path env config_dir) c"
  obtain t1 r1 where plan: "plan_config mc env config_dir options fs = (t1, r1)" by fastforce
  note held1 = holds_extends [OF growingD [OF growing_plan_config plan] old]
  show ?thesis
  proof (cases "\<exists>config encoded. r1 = Inr config \<and> ie_toml env config = Some encoded")
    case False
    then have "fs' = t1"
      using run plan
      by (auto simp: configure_def exec_bind_def exec_lift_def ok_or_def split: sum.split_asm option.split_asm)
    then show ?thesis using held1 by blast
  next
    case True
    then obtain config encoded where c: "r1 = Inr config" "ie_toml env config = Some encoded" by blast
    obtain t2 r2 where wrote: "write_temporary mc (temporary_path env config_dir) encoded t1 = (t2, r2)"
      by fastforce
    note held2 = holds_extends [OF growingD [OF growing_write_temporary wrote] held1]
    obtain t3 r3 where moved: "replace_config mc env config_dir p t2 = (t3, r3)" by fastforce
    note held3 = replace_config_keeps [OF moved held2 fresh names_differ]
    obtain t4 r4 where installed: "install_runtime mc (ie_response env) config t3 = (t4, r4)" by fastforce
    have "?kept t4"
      using held3 install_runtime_keeps [OF installed] by (fastforce simp: holds_file_def)
    moreover have "fs' = t2 \<or> fs' = t3 \<or> fs' = t4"
      using run plan c wrote moved installed
      by (auto simp: configure_def exec_bind_def exec_lift_def split: sum.split_asm)
    ultimately show ?thesis using held2 held3 by blast
  qed
qed

text \<open>The configuration is in place: valid, private, and what the decoder makes of it is loaded.\<close>

definition configured :: "machine \<Rightarrow> init_env \<Rightarrow> init_args \<Rightarrow> string \<Rightarrow> fs \<Rightarrow> config \<Rightarrow> bool" where
  "configured mc env options p fs config \<longleftrightarrow> (\<exists>encoded root. ie_toml env config = Some encoded \<and>
     fs p = Some (FileNode encoded 0x180) \<and> config_ok config \<and> snd (check_private mc p fs) = Inr () \<and>
     (\<forall>parse. parse encoded = Some config \<and> \<not> mc_fails mc (OpenFile p) \<longrightarrow>
        load_config mc parse p fs = (fs, Inr config)) \<and>
     ie_canonicalize env (ia_workspace_root options) = Some root \<and>
     cfg_workspace_roots config = [\<lparr>wr_id = ia_root_id options, wr_path = root, wr_allow_writable = True\<rparr>] \<and>
     map ro_adapter (cfg_routes config) = [ia_adapter options])"

lemma configure_ok:
  assumes "configure mc env config_dir p options fs = (fs', Inr ())"
  shows "\<exists>config. configured mc env options p fs' config"
proof -
  from assms obtain t1 t2 t3 config encoded where plan: "plan_config mc env config_dir options fs = (t1, Inr config)"
    and enc: "ie_toml env config = Some encoded"
    and wrote: "write_temporary mc (temporary_path env config_dir) encoded t1 = (t2, Inr ())"
    and moved: "replace_config mc env config_dir p t2 = (t3, Inr ())"
    and installed: "install_runtime mc (ie_response env) config t3 = (fs', Inr ())"
    by (auto simp: configure_def result_simps)
  have "t2 (temporary_path env config_dir) = Some (FileNode encoded 0x180)"
    using write_temporary_ok [OF wrote] by blast
  from replace_config_ok [OF moved this names_differ] have placed: "fs' p = Some (FileNode encoded 0x180)"
    by (rule install_runtime_keeps [OF installed])
  obtain root where planned: "validate_config config = Inr ()" "ie_canonicalize env (ia_workspace_root options) = Some root"
    "cfg_workspace_roots config = [\<lparr>wr_id = ia_root_id options, wr_path = root, wr_allow_writable = True\<rparr>]"
    "map ro_adapter (cfg_routes config) = [ia_adapter options]"
    using plan_config_ok [OF plan] by auto
  then have "configured mc env options p fs' config"
    unfolding configured_def validate_config_ok_iff [symmetric]
    using enc placed load_written [where fs = fs' and p = p, OF placed planned(1)]
      private_written [where fs = fs' and p = p, OF placed]
    by (intro exI [of _ encoded] exI [of _ root]) simp
  then show ?thesis by blast
qed

text \<open>
  C22: \<open>eyes init\<close> never loses a configuration. Wherever it stops - a call failed, the new
  configuration was refused, the download broke off - the old one is still in its place or under the
  backup name, and without \<open>--force\<close> nothing at all was changed. When it succeeds, the new
  configuration is in place, valid, readable by its owner only and, if the decoder reads what the
  encoder wrote, what the daemon loads; its workspace root is the one given, its route uses the adapter.
\<close>

theorem init_keeps_configuration:
  assumes "init mc env config_path options fs = (fs', res)" and "path_parent config_path = Some config_dir"
    and "backup_path env config_dir \<noteq> config_path"
  shows "(\<forall>c. holds_file fs config_path c \<longrightarrow>
      (holds_file fs' config_path c \<or> holds_file fs' (backup_path env config_dir) c) \<and>
      (\<not> ia_force options \<longrightarrow> fs' = fs \<and> res \<noteq> Inr ())) \<and>
    (res = Inr () \<longrightarrow> (\<exists>config. configured mc env options config_path fs' config))"
proof -
  obtain r where r: "try_exists mc config_path fs = (fs, r)"
    using try_exists_state [of mc config_path fs] by (cases "try_exists mc config_path fs") auto
  have whole: "(fs', res) = (case r of Inl e \<Rightarrow> (fs, Inl e)
       | Inr x \<Rightarrow> if x \<and> \<not> ia_force options then (fs, Inl (AlreadyExists config_path))
           else configure mc env config_dir config_path options fs)"
    unfolding assms(1) [symmetric] init_def using r assms(2)
    by (simp add: exec_bind_def exec_lift_def bail_if_def split: sum.split)
  show ?thesis
  proof (intro conjI allI impI)
    fix c
    assume old: "holds_file fs config_path c"
    then have seen: "x" if "r = Inr x" for x
      using that r followed_here [of fs config_path] by (auto simp: holds_file_def try_exists_Inr)
    show "holds_file fs' config_path c \<or> holds_file fs' (backup_path env config_dir) c"
      using whole old configure_keeps [OF _ old assms(3), of mc options fs' res]
      by (auto split: sum.split_asm if_split_asm)
    assume "\<not> ia_force options"
    then show "fs' = fs" "res \<noteq> Inr ()"
      using whole seen by (auto split: sum.split_asm if_split_asm)
  next
    assume "res = Inr ()"
    then have "configure mc env config_dir config_path options fs = (fs', Inr ())"
      using whole by (auto split: sum.split_asm if_split_asm)
    then show "\<exists>config. configured mc env options config_path fs' config" by (rule configure_ok)
  qed
qed

section \<open>What \<open>doctor\<close> confirms\<close>

lemma growing_check_private [growing_intros]: "growing (check_private mc p)"
  by (auto simp: growing_def check_private_def Let_def split: option.split)

lemma growing_load_config [growing_intros]: "growing (load_config mc parse p)"
  unfolding load_config_def by (intro growing_intros)

lemma growing_check_credential [growing_intros]: "growing (check_credential mc mapping)"
  unfolding check_credential_def by (intro growing_intros)

lemma growing_check_adapter [growing_intros]: "growing (check_adapter mc env config adapter)"
  unfolding check_adapter_def by (auto intro!: growing_intros split: prod.split option.split)

lemma growing_check_adapters [growing_intros]: "growing (check_adapters mc env config adapters)"
  by (induction adapters) (auto intro!: growing_intros split: prod.split)

lemma growing_doctor: "growing (doctor mc env p)"
  unfolding doctor_def by (auto intro!: growing_intros split: prod.split)

text \<open>A report means that a daemon with this configuration would find everything in place.\<close>

lemma doctor_confirms:
  assumes "doctor mc env p fs = (fs', Inr report)"
  shows "extends fs fs' \<and> (\<exists>config t. load_config mc (de_parse env) p fs = (t, Inr config) \<and>
    verified mc fs' (sandbox_agent_path config) SANDBOX_AGENT_SHA256 \<and>
    (\<forall>route \<in> set (cfg_routes config). agent_verified mc config fs' (ro_adapter route)))"
proof -
  from assms obtain config t u v w agents processes where loaded: "load_config mc (de_parse env) p fs = (t, Inr config)"
    and prepared: "prepare mc config u = (v, Inr ())"
    and creds: "exec_for (check_credential mc) (lr_credential_files (cfg_local_runner config)) v = (w, Inr ())"
    and adapters: "check_adapters mc env config (route_adapters config) w = (fs', Inr (agents, processes))"
    by (auto simp: doctor_def result_simps split: prod.split_asm)
  have "growing (exec_for (check_credential mc) (lr_credential_files (cfg_local_runner config)))"
    by (intro growing_intros)
  then have "extends v w" using creds by (rule growingD)
  then have later: "extends v fs'"
    using growingD [OF growing_check_adapters adapters] extends_trans by blast
  note ok = prepare_ok [OF prepared]
  show ?thesis
    using growingD [OF growing_doctor assms] loaded verified_extends [OF later ok(2)]
      agent_verified_extends [OF later] ok(3) by blast
qed

definition demo_init_env :: init_env where
  "demo_init_env = \<lparr>ie_var = map_of [(''HOME'', ''/h'')], ie_is_file = (\<lambda>p. False),
     ie_canonicalize = (\<lambda>p. Some p), ie_current_exe = Some ''/bin/eyes'', ie_toml = (\<lambda>c. Some ''new''),
     ie_ulid = ''1'', ie_backup_ulid = ''2'', ie_response = None\<rparr>"

definition demo_init_args :: init_args where
  "demo_init_args = \<lparr>ia_workspace_root = ''/w'', ia_root_id = ''w'', ia_opencode = Some ''/o'', ia_codex = None,
     ia_codex_acp = None, ia_adapter = ''opencode'', ia_model = [], ia_force = True\<rparr>"

definition demo_init_fs :: fs where
  "demo_init_fs = map_of [(''/c/config.toml'', FileNode ''old'' 0x180), (''/c'', DirNode 0x1ED),
     (''/c/opencode'', DirNode 0x1ED), (''/o'', FileNode ''oc'' 0x1ED),
     (''/h/.local/share/opencode/auth.json'', FileNode ''key'' 0x1A4),
     (''/h/.local/share/thieving-eyes/runtimes/sandbox-agent/0.4.2/sandbox-agent'', FileNode ''sa'' 0x140)]"

lemma init_keeps_configuration_witness:
  "\<exists>fs'. init demo_machine demo_init_env ''/c/config.toml'' demo_init_args demo_init_fs = (fs', Inr ()) \<and>
     (holds_file fs' ''/c/config.toml'' ''old'' \<or> holds_file fs' ''/c/config.toml.backup-2'' ''old'') \<and>
     (\<exists>config. configured demo_machine demo_init_env demo_init_args ''/c/config.toml'' fs' config)"
proof -
  have "case snd (init demo_machine demo_init_env ''/c/config.toml'' demo_init_args demo_init_fs) of
      Inl _ \<Rightarrow> False | Inr _ \<Rightarrow> True"
    by code_simp
  then obtain fs' where run:
    "init demo_machine demo_init_env ''/c/config.toml'' demo_init_args demo_init_fs = (fs', Inr ())"
    by (cases "init demo_machine demo_init_env ''/c/config.toml'' demo_init_args demo_init_fs")
      (auto split: sum.splits)
  have dir: "path_parent ''/c/config.toml'' = Some ''/c''" by code_simp
  have backup: "backup_path demo_init_env ''/c'' = ''/c/config.toml.backup-2''" by code_simp
  then have "backup_path demo_init_env ''/c'' \<noteq> ''/c/config.toml''" by simp
  note kept = init_keeps_configuration [OF run dir this]
  have "demo_init_fs ''/c/config.toml'' = Some (FileNode ''old'' 0x180)" by (simp add: demo_init_fs_def)
  then have "holds_file demo_init_fs ''/c/config.toml'' ''old''" by (simp add: holds_file_def)
  then show ?thesis
    using kept run unfolding backup by blast
qed

end
