(* ===== verification/Peer.thy ===== *)
theory Peer
  imports RuntimeProps Client
begin

text \<open>
  The Sandbox Agent as the runtime binding sees it (\<open>crates/runtime-sandbox-agent/src/lib.rs\<close>): the
  process it starts and reaps, the HTTP requests it sends to it, and how their outcomes become the
  \<open>session_env\<close> that \<open>Runtime\<close> works on.

  \<^item> \<open>peer\<close> holds what came back, request by request; \<open>peer_session\<close> reads it with the code's own
    functions (\<open>wait_for_health\<close>, \<open>query_agents\<close>, \<open>open_sse\<close>).
  \<^item> \<open>preparation\<close> is the sequence of requests \<open>prepare_session\<close> sends, up to the one that failed.
  \<^item> The lemmas say that every request stays on the loopback port and carries the token, and that a
    prepared session has gone through initialisation, event stream and \<open>session/new\<close> in this order.
\<close>

section \<open>The process\<close>

definition server_args :: "u16 \<Rightarrow> string \<Rightarrow> string list" where
  "server_args port token = [''server'', ''--host'', ''127.0.0.1'', ''--port'', decimal (unat port),
     ''--token'', token, ''--no-telemetry'']"

definition server_url :: "u16 \<Rightarrow> string" where
  "server_url port = ''http://127.0.0.1:'' @ decimal (unat port)"

text \<open>
  \<open>stop_child\<close> after the kill signal: each poll of the child, and for a running one whether the
  five seconds are not over. The result says whether the child was reaped; \<open>None\<close> while it polls.
\<close>

datatype child_poll = Exited | StillRunning bool | NotPolled

fun stop_child :: "child_poll list \<Rightarrow> bool option" where
  "stop_child [] = None"
| "stop_child (Exited # polls) = Some True"
| "stop_child (StillRunning in_time # polls) = (if in_time then stop_child polls else Some False)"
| "stop_child (NotPolled # polls) = Some False"

lemma stop_child_returns: "stop_child polls \<noteq> None \<longleftrightarrow> (\<exists>p \<in> set polls. p \<noteq> StillRunning True)"
  by (induction polls rule: stop_child.induct) auto

section \<open>Requests to the server\<close>

record peer_request =
  pq_method :: string
  pq_url :: string
  pq_token :: string
  pq_headers :: "(string \<times> string) list"
  pq_body :: "json option"

definition authorized :: "string \<Rightarrow> string \<Rightarrow> json option \<Rightarrow> string \<Rightarrow> peer_request" where
  "authorized verb url body token =
     \<lparr>pq_method = verb, pq_url = url, pq_token = token, pq_headers = [], pq_body = body\<rparr>"

definition rpc_call :: "nat \<Rightarrow> string \<Rightarrow> json \<Rightarrow> json" where
  "rpc_call n verb params = JObject [(''id'', JInt (int n)), (''jsonrpc'', JString ''2.0''),
     (''method'', JString verb), (''params'', params)]"

definition health_request :: "string \<Rightarrow> string \<Rightarrow> peer_request" where
  "health_request base token = authorized ''GET'' (base @ ''/v1/health'') None token"

definition agents_request :: "string \<Rightarrow> string \<Rightarrow> peer_request" where
  "agents_request base token = authorized ''GET'' (base @ ''/v1/agents?config=true'') None token"

definition acp_url :: "string \<Rightarrow> string \<Rightarrow> string" where
  "acp_url base ulid = base @ ''/v1/acp/eyes-'' @ ulid"

definition initialize_request :: "string \<Rightarrow> string \<Rightarrow> string \<Rightarrow> peer_request" where
  "initialize_request url adapter token = authorized ''POST'' (url @ ''?agent='' @ adapter)
     (Some (rpc_call 1 ''initialize''
        (JObject [(''clientCapabilities'', JObject []), (''protocolVersion'', JInt 1)]))) token"

definition new_session_request :: "string \<Rightarrow> string \<Rightarrow> string \<Rightarrow> peer_request" where
  "new_session_request url cwd token = authorized ''POST'' url
     (Some (rpc_call 2 ''session/new'' (JObject [(''cwd'', JString cwd), (''mcpServers'', JArray [])]))) token"

definition set_model_request :: "string \<Rightarrow> string \<Rightarrow> string \<Rightarrow> string \<Rightarrow> peer_request" where
  "set_model_request url session_id model token = authorized ''POST'' url
     (Some (rpc_call 3 ''session/set_config_option'' (JObject [(''configId'', JString ''model''),
        (''sessionId'', JString session_id), (''value'', JString model)]))) token"

definition prompt_request :: "string \<Rightarrow> string \<Rightarrow> string \<Rightarrow> string \<Rightarrow> peer_request" where
  "prompt_request url session_id prompt token = authorized ''POST'' url
     (Some (rpc_call 4 ''session/prompt'' (JObject
        [(''prompt'', JArray [JObject [(''text'', JString prompt), (''type'', JString ''text'')]]),
         (''sessionId'', JString session_id)]))) token"

definition cancel_request :: "string \<Rightarrow> string \<Rightarrow> string \<Rightarrow> peer_request" where
  "cancel_request url session_id token = authorized ''POST'' url
     (Some (JObject [(''jsonrpc'', JString ''2.0''), (''method'', JString ''session/cancel''),
        (''params'', JObject [(''sessionId'', JString session_id)])])) token"

definition delete_request :: "string \<Rightarrow> string \<Rightarrow> peer_request" where
  "delete_request url token = authorized ''DELETE'' url None token"

definition open_sse_request :: "string \<Rightarrow> string \<Rightarrow> u64 option \<Rightarrow> peer_request" where
  "open_sse_request url token last_event_id =
     (let request = authorized ''GET'' url None token in
      case last_event_id of
        None \<Rightarrow> request
      | Some n \<Rightarrow> request\<lparr>pq_headers := pq_headers request @ [(''Last-Event-ID'', decimal (unat n))]\<rparr>)"

section \<open>Their outcomes\<close>

text \<open>A request under a time limit whose body does not matter: its status code, and how it is shown.\<close>

datatype call_reply = NoReply | SendFailed | Answer nat string

definition cancel_session :: "call_reply \<Rightarrow> string + unit" where
  "cancel_session reply =
     (case reply of
        NoReply \<Rightarrow> Inl ''ACP cancellation delivery timeout''
      | SendFailed \<Rightarrow> Inl ''deliver ACP cancellation''
      | Answer code shown \<Rightarrow> bail_if (\<not> is_success code) (''ACP cancellation failed with '' @ shown))"

definition open_sse :: "call_reply \<Rightarrow> string + unit" where
  "open_sse reply =
     (case reply of
        NoReply \<Rightarrow> Inl ''ACP SSE subscription timeout''
      | SendFailed \<Rightarrow> Inl ''subscribe to ACP SSE''
      | Answer code shown \<Rightarrow> bail_if (code \<noteq> 200) (''ACP SSE returned '' @ shown))"

text \<open>The polls made before the twenty seconds are over, \<open>None\<close> a failed one.\<close>

fun wait_for_health :: "nat option list \<Rightarrow> string + unit" where
  "wait_for_health [] = Inl ''Sandbox Agent health timeout''"
| "wait_for_health (poll # polls) =
     (case poll of
        Some code \<Rightarrow> if is_success code then Inr () else wait_for_health polls
      | None \<Rightarrow> wait_for_health polls)"

definition query_agents :: "http_reply \<Rightarrow> string + json" where
  "query_agents reply =
     (case reply of
        Refused _ _ \<Rightarrow> Inl ''Sandbox Agent agent discovery failed''
      | Undecoded \<Rightarrow> Inl ''decode Sandbox Agent agent discovery''
      | EmptyBody \<Rightarrow> Inl ''decode Sandbox Agent agent discovery''
      | Replied value \<Rightarrow> Inr value
      | _ \<Rightarrow> Inl ''query Sandbox Agent agents'')"

record peer =
  px_launch_error :: "string option"
  px_client_error :: "string option"
  px_child_gone :: "(nat \<times> child_end) option"
  px_health :: "nat option list"
  px_agents :: http_reply
  px_initialize :: http_reply
  px_stream :: call_reply
  px_new_session :: http_reply
  px_set_model :: http_reply
  px_shutdown :: shutdown

definition peer_session :: "peer \<Rightarrow> session_env" where
  "peer_session p =
     \<lparr>se_launch_error = px_launch_error p, se_client_error = px_client_error p,
      se_child_gone = px_child_gone p,
      se_healthy = (wait_for_health (px_health p) = Inr ()),
      se_agents = query_agents (px_agents p), se_initialize = px_initialize p,
      se_subscribed = open_sse (px_stream p), se_new_session = px_new_session p,
      se_set_model = px_set_model p, se_shutdown = px_shutdown p\<rparr>"

lemma peer_session_fields [simp]:
  "se_healthy (peer_session p) \<longleftrightarrow> wait_for_health (px_health p) = Inr ()"
  "se_agents (peer_session p) = query_agents (px_agents p)"
  "se_initialize (peer_session p) = px_initialize p"
  "se_subscribed (peer_session p) = open_sse (px_stream p)"
  "se_new_session (peer_session p) = px_new_session p"
  "se_set_model (peer_session p) = px_set_model p"
  by (simp_all add: peer_session_def)

lemma wait_for_health_iff:
  "wait_for_health polls = Inr () \<longleftrightarrow> (\<exists>code. Some code \<in> set polls \<and> is_success code)"
  by (induction polls rule: wait_for_health.induct) (auto split: option.splits)

lemma wait_for_health_error: "wait_for_health polls = Inl e \<Longrightarrow> e = ''Sandbox Agent health timeout''"
  by (induction polls rule: wait_for_health.induct) (auto split: option.splits if_splits)

section \<open>What is sent during preparation\<close>

fun polls_made :: "nat option list \<Rightarrow> nat" where
  "polls_made [] = 0"
| "polls_made (poll # polls) =
     Suc (case poll of
        Some code \<Rightarrow> if is_success code then 0 else polls_made polls
      | None \<Rightarrow> polls_made polls)"

definition session_id_of :: "(json \<Rightarrow> string) \<Rightarrow> http_reply \<Rightarrow> string + string" where
  "session_id_of render reply =
     try_bind (rpc render reply) (\<lambda>session_response.
       ok_or ''ACP session/new omitted sessionId''
         (Option.bind (json_pointer [''result'', ''sessionId''] session_response) as_str))"

definition model_requests :: "string \<Rightarrow> string \<Rightarrow> string option \<Rightarrow> string \<Rightarrow> peer_request list" where
  "model_requests url session_id model token =
     (case model of
        None \<Rightarrow> []
      | Some name \<Rightarrow> if name \<noteq> [] then [set_model_request url session_id name token] else [])"

definition preparation ::
  "(json \<Rightarrow> string) \<Rightarrow> peer \<Rightarrow> runtime_run_request \<Rightarrow> string \<Rightarrow> string \<Rightarrow> string \<Rightarrow> peer_request list" where
  "preparation render p request base ulid token =
     (let url = acp_url base ulid in
      replicate (polls_made (px_health p)) (health_request base token) @
      (if wait_for_health (px_health p) \<noteq> Inr () then []
       else agents_request base token #
      (case try_bind (query_agents (px_agents p)) (\<lambda>agents. discover_agent_version agents (rq_adapter request)) of
         Inl _ \<Rightarrow> []
       | Inr _ \<Rightarrow> initialize_request url (rq_adapter request) token #
      (case rpc render (px_initialize p) of
         Inl _ \<Rightarrow> []
       | Inr _ \<Rightarrow> open_sse_request url token None #
      (case open_sse (px_stream p) of
         Inl _ \<Rightarrow> []
       | Inr _ \<Rightarrow> new_session_request url (rq_cwd request) token #
      (case session_id_of render (px_new_session p) of
         Inl _ \<Rightarrow> []
       | Inr session_id \<Rightarrow> model_requests url session_id (rq_model request) token))))))"

text \<open>The prompt follows a successful preparation.\<close>

definition conversation ::
  "(json \<Rightarrow> string) \<Rightarrow> peer \<Rightarrow> runtime_run_request \<Rightarrow> string \<Rightarrow> string \<Rightarrow> string \<Rightarrow> peer_request list" where
  "conversation render p request base ulid token =
     preparation render p request base ulid token @
     (case snd (prepare_session render (peer_session p) request) of
        Inl _ \<Rightarrow> []
      | Inr session_id \<Rightarrow> [prompt_request (acp_url base ulid) session_id (rq_prompt request) token])"

lemma request_fields:
  "pq_token (authorized verb url body token) = token"
  "pq_url (authorized verb url body token) = url"
  by (simp_all add: authorized_def)

lemmas peer_requests = health_request_def agents_request_def initialize_request_def
  new_session_request_def set_model_request_def prompt_request_def open_sse_request_def acp_url_def

lemma conversation_authorized:
  "q \<in> set (conversation render p request base ulid token) \<Longrightarrow> pq_token q = token \<and> prefix base (pq_url q)"
  by (auto simp: conversation_def preparation_def model_requests_def Let_def peer_requests request_fields
      split: if_splits sum.splits option.splits)

lemma ending_authorized:
  "q \<in> {cancel_request (acp_url base ulid) session_id token, delete_request (acp_url base ulid) token} \<Longrightarrow>
     pq_token q = token \<and> prefix base (pq_url q)"
  by (auto simp: cancel_request_def delete_request_def acp_url_def request_fields)

text \<open>A prompt is only sent to the session the server created, after everything before it succeeded.\<close>

lemma prepared_conversation:
  assumes "prepare_session render (peer_session p) request = (evs, Inr session_id)"
  shows "session_id_of render (px_new_session p) = Inr session_id"
    and "conversation render p request base ulid token =
      replicate (polls_made (px_health p)) (health_request base token) @
      [agents_request base token, initialize_request (acp_url base ulid) (rq_adapter request) token,
       open_sse_request (acp_url base ulid) token None,
       new_session_request (acp_url base ulid) (rq_cwd request) token] @
      model_requests (acp_url base ulid) session_id (rq_model request) token @
      [prompt_request (acp_url base ulid) session_id (rq_prompt request) token]"
proof -
  from assms [unfolded prepare_session_def peer_session_fields] obtain version where facts: "wait_for_health (px_health p) = Inr ()"
    "try_bind (query_agents (px_agents p)) (\<lambda>agents. discover_agent_version agents (rq_adapter request)) = Inr version"
    and rest: "try_bind (rpc render (px_initialize p)) (\<lambda>_. try_bind (open_sse (px_stream p)) (\<lambda>_.
      try_bind (session_id_of render (px_new_session p)) (\<lambda>session_id.
      if rq_model request \<noteq> None \<and> rq_model request \<noteq> Some []
      then (case rpc render (px_set_model p) of
          Inl _ \<Rightarrow> Inl (''set requested '' @ rq_adapter request @ '' model'')
        | Inr _ \<Rightarrow> Inr session_id)
      else Inr session_id))) = Inr session_id"
    by (auto simp: session_id_of_def try_bind_assoc split: if_splits sum.splits)
  then show "session_id_of render (px_new_session p) = Inr session_id"
    by (auto simp: result_simps split: if_splits sum.splits)
  moreover obtain v w where "rpc render (px_initialize p) = Inr v" "open_sse (px_stream p) = Inr w"
    using rest by (auto simp: result_simps)
  ultimately show "conversation render p request base ulid token =
      replicate (polls_made (px_health p)) (health_request base token) @
      [agents_request base token, initialize_request (acp_url base ulid) (rq_adapter request) token,
       open_sse_request (acp_url base ulid) token None,
       new_session_request (acp_url base ulid) (rq_cwd request) token] @
      model_requests (acp_url base ulid) session_id (rq_model request) token @
      [prompt_request (acp_url base ulid) session_id (rq_prompt request) token]"
    using facts by (simp add: conversation_def preparation_def assms Let_def)
qed

section \<open>Cancelling\<close>

definition stop_delivery :: "call_reply \<Rightarrow> string option" where
  "stop_delivery reply = (case cancel_session reply of Inl e \<Rightarrow> Some e | Inr _ \<Rightarrow> None)"

text \<open>A run ends as cancelled only when the server accepted the cancellation.\<close>

lemma cancelled_was_accepted:
  assumes "drive_prompt render as_f64 maximum posted (CancelChanged True (stop_delivery reply) # inputs) output =
      Some (evs, Inr RunCancelled)"
  shows "\<exists>code shown. reply = Answer code shown \<and> is_success code"
  using assms
  by (cases reply)
    (auto simp: stop_delivery_def cancel_session_def stop_and_wait_def bail_if_def split: if_splits)

end
