(* ===== verification/Defaults.thy ===== *)
theory Defaults
  imports Config
begin

text \<open>
  What a configuration file may leave out (\<open>#[serde(default)]\<close> in
  \<open>crates/service/src/config.rs\<close>): a record per table of the file, with an option for every entry
  that has a default, and the functions that fill them in. Decoding TOML into these records is library
  code. The lemmas say that a default never makes a configuration invalid.
\<close>

section \<open>The default values\<close>

definition default_inline_output_bytes :: u64 where
  "default_inline_output_bytes = 262144"

definition default_download_runtime :: bool where
  "default_download_runtime = True"

definition default_profile_description :: string where
  "default_profile_description = ''Required bubblewrap sandbox with non-interactive approval''"

definition default_policy_description :: string where
  "default_policy_description = ''Single-attempt local execution policy''"

definition default_run_timeout :: u64 where
  "default_run_timeout = 3600"

definition default_idle_timeout :: u64 where
  "default_idle_timeout = 900"

definition default_probe_interval :: u64 where
  "default_probe_interval = 30"

definition default_probe_timeout :: u64 where
  "default_probe_timeout = 10"

definition default_probe_max_age :: u64 where
  "default_probe_max_age = 90"

definition default_adapter :: string where
  "default_adapter = ''opencode''"

definition default_target_id :: string where
  "default_target_id = ''local''"

definition default_allow_writable :: bool where
  "default_allow_writable = True"

lemmas default_values = default_inline_output_bytes_def default_download_runtime_def
  default_profile_description_def default_policy_description_def default_run_timeout_def
  default_idle_timeout_def default_probe_interval_def default_probe_timeout_def
  default_probe_max_age_def default_adapter_def default_target_id_def default_allow_writable_def

section \<open>The tables of the file\<close>

text \<open>\<open>unwrap_or_default\<close> of a vector, and of any other value.\<close>

definition given :: "'a \<Rightarrow> 'a option \<Rightarrow> 'a" where
  "given fallback entry = (case entry of None \<Rightarrow> fallback | Some x \<Rightarrow> x)"

lemma given_simps [simp]: "given d None = d" "given d (Some x) = x"
  by (simp_all add: given_def)

record daemon_table =
  dt_socket_path :: string
  dt_database_path :: string
  dt_max_inline_output_bytes :: "u64 option"

definition read_daemon :: "daemon_table \<Rightarrow> daemon_config" where
  "read_daemon t = \<lparr>dc_socket_path = dt_socket_path t, dc_database_path = dt_database_path t,
     dc_max_inline_output_bytes = given default_inline_output_bytes (dt_max_inline_output_bytes t)\<rparr>"

record runtime_table =
  rt_cache_dir :: string
  rt_download_if_missing :: "bool option"

definition read_runtime :: "runtime_table \<Rightarrow> runtime_config" where
  "read_runtime t = \<lparr>rc_cache_dir = rt_cache_dir t,
     rc_download_if_missing = given default_download_runtime (rt_download_if_missing t)\<rparr>"

record binding_table =
  bt_source_id :: string
  bt_inherit_proxy_environment :: "string list option"

definition read_binding :: "binding_table \<Rightarrow> local_source_binding_config" where
  "read_binding t = \<lparr>sb_source_id = bt_source_id t,
     sb_inherit_proxy_environment = given [] (bt_inherit_proxy_environment t)\<rparr>"

record local_runner_table =
  lt_runner_binary :: string
  lt_bubblewrap_binary :: string
  lt_opencode_binary :: "string option"
  lt_opencode_sha256 :: "string option"
  lt_agent_binaries :: "agent_binary_config list option"
  lt_credential_files :: "credential_file list option"
  lt_source_bindings :: "binding_table list option"

definition read_local_runner :: "local_runner_table \<Rightarrow> local_runner_config" where
  "read_local_runner t = \<lparr>lr_runner_binary = lt_runner_binary t,
     lr_bubblewrap_binary = lt_bubblewrap_binary t, lr_opencode_binary = lt_opencode_binary t,
     lr_opencode_sha256 = lt_opencode_sha256 t, lr_agent_binaries = given [] (lt_agent_binaries t),
     lr_credential_files = given [] (lt_credential_files t),
     lr_source_bindings = map read_binding (given [] (lt_source_bindings t))\<rparr>"

record profile_table =
  pt_id :: string
  pt_version :: string
  pt_description :: "string option"
  pt_network :: "network_mode option"

definition read_profile :: "profile_table \<Rightarrow> profile_config" where
  "read_profile t = \<lparr>pr_id = pt_id t, pr_version = pt_version t,
     pr_description = given default_profile_description (pt_description t),
     pr_network = given NetInherited (pt_network t)\<rparr>"

record policy_table =
  ot_id :: string
  ot_version :: string
  ot_description :: "string option"
  ot_run_timeout_seconds :: "u64 option"
  ot_idle_timeout_seconds :: "u64 option"

definition read_policy :: "policy_table \<Rightarrow> policy_config" where
  "read_policy t = \<lparr>po_id = ot_id t, po_version = ot_version t,
     po_description = given default_policy_description (ot_description t),
     po_run_timeout_seconds = given default_run_timeout (ot_run_timeout_seconds t),
     po_idle_timeout_seconds = given default_idle_timeout (ot_idle_timeout_seconds t)\<rparr>"

datatype monitor_table =
    StaticTable
  | CommandTable string "string list option" "u64 option" "u64 option" "u64 option"

fun read_monitor :: "monitor_table \<Rightarrow> capacity_monitor_config" where
  "read_monitor StaticTable = MonitorStatic"
| "read_monitor (CommandTable program args interval limit max_age) =
     MonitorCommand program (given [] args) (given default_probe_interval interval)
       (given default_probe_timeout limit) (given default_probe_max_age max_age)"

record source_table =
  st_id :: string
  st_label :: string
  st_concurrency_limit :: u32
  st_safety_reserve :: "u32 option"
  st_monitor :: monitor_table

definition read_source :: "source_table \<Rightarrow> source_config" where
  "read_source t = \<lparr>so_id = st_id t, so_label = st_label t,
     so_concurrency_limit = st_concurrency_limit t,
     so_safety_reserve = given 0 (st_safety_reserve t), so_monitor = read_monitor (st_monitor t)\<rparr>"

record route_table =
  rr_id :: string
  rr_adapter :: "string option"
  rr_model :: "string option"
  rr_source_ids :: "string list"
  rr_target_id :: "string option"

definition read_route :: "route_table \<Rightarrow> route_config" where
  "read_route t = \<lparr>ro_id = rr_id t, ro_adapter = given default_adapter (rr_adapter t),
     ro_model = given [] (rr_model t), ro_source_ids = rr_source_ids t,
     ro_target_id = given default_target_id (rr_target_id t)\<rparr>"

record workspace_root_table =
  wt_id :: string
  wt_path :: string
  wt_allow_writable :: "bool option"

definition read_workspace_root :: "workspace_root_table \<Rightarrow> workspace_root_config" where
  "read_workspace_root t = \<lparr>wr_id = wt_id t, wr_path = wt_path t,
     wr_allow_writable = given default_allow_writable (wt_allow_writable t)\<rparr>"

record config_table =
  ct_daemon :: daemon_table
  ct_runtime :: runtime_table
  ct_local_runner :: local_runner_table
  ct_defaults :: defaults
  ct_profiles :: "profile_table list option"
  ct_policies :: "policy_table list option"
  ct_sources :: "source_table list option"
  ct_routes :: "route_table list option"
  ct_workspace_roots :: "workspace_root_table list option"

definition read_config :: "config_table \<Rightarrow> config" where
  "read_config t =
     \<lparr>cfg_daemon = read_daemon (ct_daemon t), cfg_runtime = read_runtime (ct_runtime t),
      cfg_local_runner = read_local_runner (ct_local_runner t), cfg_defaults = ct_defaults t,
      cfg_profiles = map read_profile (given [] (ct_profiles t)),
      cfg_policies = map read_policy (given [] (ct_policies t)),
      cfg_sources = map read_source (given [] (ct_sources t)),
      cfg_routes = map read_route (given [] (ct_routes t)),
      cfg_workspace_roots = map read_workspace_root (given [] (ct_workspace_roots t))\<rparr>"

section \<open>Leaving an entry out is safe\<close>

text \<open>A number the validation refuses was written in the file.\<close>

lemma refused_numbers_were_written:
  "dc_max_inline_output_bytes (read_daemon d) = 0 \<longleftrightarrow> dt_max_inline_output_bytes d = Some 0"
  "po_run_timeout_seconds (read_policy p) = 0 \<longleftrightarrow> ot_run_timeout_seconds p = Some 0"
  "po_idle_timeout_seconds (read_policy p) = 0 \<longleftrightarrow> ot_idle_timeout_seconds p = Some 0"
  by (auto simp: read_daemon_def read_policy_def given_def default_values split: option.split)

lemma omitted_reserve_valid:
  assumes "st_safety_reserve t = None" and "st_concurrency_limit t \<noteq> 0"
    and "\<And>program args interval limit max_age. st_monitor t = CommandTable program args interval limit max_age \<Longrightarrow>
      interval \<noteq> Some 0 \<and> limit \<noteq> Some 0 \<and> max_age \<noteq> Some 0"
  shows "validate_source (read_source t) = Inr ()"
proof (cases "st_monitor t")
  case (CommandTable program args interval limit max_age)
  then show ?thesis
    using assms(3) [OF CommandTable] assms(1,2)
    by (cases interval; cases limit; cases max_age)
      (simp_all add: validate_source_def read_source_def bail_if_def default_values)
qed (use assms(1,2) in \<open>simp add: validate_source_def read_source_def bail_if_def\<close>)

lemma omitted_route_valid:
  assumes "rr_adapter t = None" and "rr_target_id t = None" and "agent_binary c ''opencode'' \<noteq> None"
    and "rr_source_ids t \<noteq> []" and "set (rr_source_ids t) \<subseteq> set ids"
  shows "validate_route c ids (read_route t) = Inr ()"
  using assms
  by (auto simp: validate_route_def read_route_def bail_if_def default_values supported_adapter_def list_ex_iff)

text \<open>The smallest useful file: nothing but what has no default.\<close>

definition minimal_file :: config_table where
  "minimal_file =
     \<lparr>ct_daemon = \<lparr>dt_socket_path = ''/run/s'', dt_database_path = ''/db'', dt_max_inline_output_bytes = None\<rparr>,
      ct_runtime = \<lparr>rt_cache_dir = ''/cache'', rt_download_if_missing = None\<rparr>,
      ct_local_runner = \<lparr>lt_runner_binary = ''/r'', lt_bubblewrap_binary = ''/b'',
        lt_opencode_binary = Some ''/o'', lt_opencode_sha256 = Some (replicate 64 (CHR ''a'')),
        lt_agent_binaries = None, lt_credential_files = None, lt_source_bindings = None\<rparr>,
      ct_defaults = \<lparr>df_profile_id = ''p'', df_policy_id = ''q'', df_route_id = ''r''\<rparr>,
      ct_profiles = Some [\<lparr>pt_id = ''p'', pt_version = ''1'', pt_description = None, pt_network = None\<rparr>],
      ct_policies = Some [\<lparr>ot_id = ''q'', ot_version = ''1'', ot_description = None,
        ot_run_timeout_seconds = None, ot_idle_timeout_seconds = None\<rparr>],
      ct_sources = Some [\<lparr>st_id = ''s'', st_label = ''S'', st_concurrency_limit = 1,
        st_safety_reserve = None, st_monitor = StaticTable\<rparr>],
      ct_routes = Some [\<lparr>rr_id = ''r'', rr_adapter = None, rr_model = None, rr_source_ids = [''s''],
        rr_target_id = None\<rparr>],
      ct_workspace_roots = Some [\<lparr>wt_id = ''w'', wt_path = ''/w'', wt_allow_writable = None\<rparr>]\<rparr>"

lemma minimal_file_valid: "validate_config (read_config minimal_file) = Inr ()"
  by code_simp

end
