(* ===== verification/Cli.thy ===== *)
theory Cli
  imports Setup Watch
begin

text \<open>
  \<open>main\<close> of \<open>bins/eyes/src/main.rs\<close>: the commands, the choice of the configuration file, and what each
  command does to the file system and to the daemon. The lines printed on standard output come second
  in every result. A command that talks to the daemon first loads the configuration (\<open>with_config\<close>).
\<close>

datatype eyes_command =
    Init init_args
  | Doctor
  | Submit task_args
  | RunTask task_args
  | StatusOf string
  | WatchOf string
  | ResultOf string
  | CancelOf string

datatype eyes_error = SetupError setup_error | ClientError client_error

record eyes_env =
  ey_init :: init_env
  ey_doctor :: doctor_env
  ey_client :: client_env
  ey_codec :: event_codec
  ey_ulid :: string
  ey_show_accepted :: "submission_accepted \<Rightarrow> string"
  ey_show_status :: "submission_status \<Rightarrow> string"
  ey_show_result :: "submission_result \<Rightarrow> string"

type_synonym 'd printing = "'d \<times> string list \<times> (client_error + unit)"

definition print_with :: "('a \<Rightarrow> string) \<Rightarrow> 'd \<times> (client_error + 'a) \<Rightarrow> 'd printing" where
  "print_with pretty r =
     (case r of (d, Inl e) \<Rightarrow> (d, [], Inl e) | (d, Inr x) \<Rightarrow> (d, [pretty x], Inr ()))"

definition submit_command :: "eyes_env \<Rightarrow> 'd daemon \<Rightarrow> task_args \<Rightarrow> config \<Rightarrow> 'd \<Rightarrow> 'd printing" where
  "submit_command env daemon task config d =
     print_with (ey_show_accepted env) (submit (ey_client env) config (ey_ulid env) daemon d task)"

definition watch_command :: "eyes_env \<Rightarrow> 'd daemon \<Rightarrow> string \<Rightarrow> config \<Rightarrow> 'd \<Rightarrow> 'd printing" where
  "watch_command env daemon submission_id config d =
     (case daemon d \<lparr>hr_method = ''GET'', hr_path = fst (watch_request submission_id),
         hr_headers = snd (watch_request submission_id), hr_body = []\<rparr> of
        (d', response) \<Rightarrow> (d', watch (ey_codec env) (ce_lossy (ey_client env)) response False))"

definition with_config ::
  "machine \<Rightarrow> eyes_env \<Rightarrow> string \<Rightarrow> (config \<Rightarrow> 'd \<Rightarrow> 'd printing) \<Rightarrow> fs \<times> 'd \<Rightarrow>
     (fs \<times> 'd) \<times> string list \<times> (eyes_error + unit)" where
  "with_config mc env path action st =
     (case st of (fs, d) \<Rightarrow>
      case load_config mc (de_parse (ey_doctor env)) path fs of
        (fs', Inl e) \<Rightarrow> ((fs', d), [], Inl (SetupError e))
      | (fs', Inr config) \<Rightarrow>
          (case action config d of (d', out, res) \<Rightarrow> ((fs', d'), out, map_err ClientError res)))"

definition run_command ::
  "machine \<Rightarrow> eyes_env \<Rightarrow> 'd daemon \<Rightarrow> string \<Rightarrow> eyes_command \<Rightarrow> fs \<times> 'd \<Rightarrow>
     (fs \<times> 'd) \<times> string list \<times> (eyes_error + unit)" where
  "run_command mc env daemon path command st =
     (case command of
        Init options \<Rightarrow>
          (case init mc (ey_init env) path options (fst st) of
             (fs', Inl e) \<Rightarrow> ((fs', snd st), [], Inl (SetupError e))
           | (fs', Inr _) \<Rightarrow> ((fs', snd st),
               [''initialized '' @ path, ''run `eyes doctor` before starting thieving-eyesd''], Inr ()))
      | Doctor \<Rightarrow>
          (case doctor mc (ey_doctor env) path (fst st) of
             (fs', Inl e) \<Rightarrow> ((fs', snd st), [], Inl (SetupError e))
           | (fs', Inr report) \<Rightarrow> ((fs', snd st), report, Inr ()))
      | Submit task \<Rightarrow> with_config mc env path (submit_command env daemon task) st
      | RunTask task \<Rightarrow> with_config mc env path (\<lambda>config d.
          run_task (ey_client env) (ey_codec env) (ey_show_result env) config (ey_ulid env) daemon d task) st
      | StatusOf i \<Rightarrow> with_config mc env path (\<lambda>config d.
          print_with (ey_show_status env) (status_command (ey_client env) daemon d i)) st
      | WatchOf i \<Rightarrow> with_config mc env path (watch_command env daemon i) st
      | ResultOf i \<Rightarrow> with_config mc env path (\<lambda>config d.
          print_with (ey_show_result env) (result_command (ey_client env) daemon d i)) st
      | CancelOf i \<Rightarrow> with_config mc env path (\<lambda>config d.
          print_with (\<lambda>body. body) (cancel_command (ey_client env) daemon d i)) st)"

definition eyes_main ::
  "machine \<Rightarrow> eyes_env \<Rightarrow> 'd daemon \<Rightarrow> string option \<Rightarrow> eyes_command \<Rightarrow> fs \<times> 'd \<Rightarrow>
     (fs \<times> 'd) \<times> string list \<times> (eyes_error + unit)" where
  "eyes_main mc env daemon config_arg command st =
     (case (case config_arg of Some p \<Rightarrow> Inr p | None \<Rightarrow> default_config_path (ey_init env)) of
        Inl e \<Rightarrow> (st, [], Inl (SetupError e))
      | Inr path \<Rightarrow> run_command mc env daemon path command st)"

section \<open>What a command touches\<close>

fun sets_up :: "eyes_command \<Rightarrow> bool" where
  "sets_up (Init options) = True"
| "sets_up Doctor = True"
| "sets_up _ = False"

lemma io_call_kept: "(\<And>fs fs' x. act fs = Some (fs', x) \<Longrightarrow> fs' = fs) \<Longrightarrow> fst (io_call mc op act fs) = fs"
  by (auto simp: io_call_def split: option.split)

lemma read_file_kept: "fst (read_file mc p fs) = fs"
  unfolding read_file_def
proof (rule io_call_kept)
  fix fs fs' :: fs and c
  assume "Option.bind (followed fs p) (\<lambda>q. case fs q of
      Some (FileNode contents mode) \<Rightarrow> Some (fs, contents) | _ \<Rightarrow> None) = Some (fs', c)"
  then obtain q n where "fs q = Some n"
    "(case n of FileNode contents mode \<Rightarrow> Some (fs, contents) | _ \<Rightarrow> None) = Some (fs', c)"
    by (auto simp: bind_eq_Some_conv split: option.split_asm)
  then show "fs' = fs" by (cases n) simp_all
qed

lemma load_config_kept: "fst (load_config mc parse path fs) = fs"
  using read_file_kept [of mc path fs]
  by (auto simp: load_config_def exec_bind_def exec_lift_def exec_return_def split: prod.splits sum.splits)

lemma load_config_valid: "load_config mc parse path fs = (fs', Inr config) \<Longrightarrow> validate_config config = Inr ()"
  by (auto simp: load_config_def result_simps map_err_def split: sum.splits)

lemma with_config_kept: "fst (fst (with_config mc env path action st)) = fst st"
  using load_config_kept [of mc "de_parse (ey_doctor env)" path "fst st"]
  by (cases st) (auto simp: with_config_def split: prod.splits sum.splits)

text \<open>The commands for the daemon change no file, those for the set-up do not talk to the daemon.\<close>

lemma command_scope:
  "\<not> sets_up command \<Longrightarrow> fst (fst (run_command mc env daemon path command st)) = fst st"
  "sets_up command \<Longrightarrow> snd (fst (run_command mc env daemon path command st)) = snd st"
  by (cases command; simp add: run_command_def with_config_kept split: prod.split sum.split)+

text \<open>Without a readable and valid configuration the daemon is not asked for anything.\<close>

lemma command_needs_configuration:
  assumes "load_config mc (de_parse (ey_doctor env)) path (fst st) = (fs', Inl e)" and "\<not> sets_up command"
  shows "run_command mc env daemon path command st = (st, [], Inl (SetupError e))"
  using assms load_config_kept [of mc "de_parse (ey_doctor env)" path "fst st"]
  by (cases command; cases st) (simp_all add: run_command_def with_config_def)

end
