(* ===== verification/Spec2Isabelle.thy ===== *)
theory Spec2Isabelle
  imports StoreClaims Capacity RunnerProps SchedulerProps Daemon Attempts ApiClaims Race EventLog
    ClientProps SetupProps Peer Defaults Cli
begin

text \<open>
  A verification of \<^bold>\<open>thieving-eyes\<close>: a daemon that runs coding agents in the background on the spare
  capacity of the accounts it is given. A client submits a task over HTTP on a local socket; the
  daemon stores it, waits until a source has room, and runs one attempt of an agent in a bubblewrap
  sandbox; the client follows an event stream and fetches the result.

  \<^bold>\<open>The program and its parts\<close> (paths under \<open>src/\<close>). A request goes
  \<open>eyes\<close> (\<open>bins/eyes/src/main.rs\<close>) \<open>\<rightarrow>\<close> HTTP API (\<open>crates/service/src/api.rs\<close>) \<open>\<rightarrow>\<close>
  store (\<open>store.rs\<close>, SQLite) \<open>\<leftarrow>\<close> scheduler (\<open>scheduler.rs\<close>, one loop with capacity
  \<open>capacity.rs\<close>) \<open>\<rightarrow>\<close> runner (\<open>crates/runner/src/lib.rs\<close>: the daemon's side, the
  supervisor, the worker in the sandbox) \<open>\<rightarrow>\<close> Sandbox Agent binding
  (\<open>crates/runtime-sandbox-agent/src/lib.rs\<close>). The tasks of the daemon share the store, a table of
  cancellation channels and a notification. \<open>config.rs\<close> and \<open>crates/protocol/src/lib.rs\<close> are
  used by all; \<open>crates/service/src/lib.rs\<close> starts the daemon.

  \<^bold>\<open>Theories.\<close>

  \<^item> \<open>Prelude\<close> (Rust integers, \<open>?\<close> and \<open>bail!\<close>, time, tables, the collections \<open>rust_arith\<close>,
    \<open>result_simps\<close>, \<open>table_simps\<close>, the locale \<open>keyed_rows\<close>), \<open>Json\<close>, \<open>Utf8\<close>
    (boundaries; locale \<open>byte_truncation\<close>), \<open>Paths\<close> (\<open>std::path\<close>), \<open>Decimal\<close>
    (numbers as text), \<open>Files\<close> (a file system with failing calls and a database that opening may
    rewrite; \<open>growing\<close>, \<open>extends_but\<close>).
  \<^item> \<open>Protocol\<close>, \<open>Config\<close>: records and datatypes with the source's fields and constructors;
    \<open>validate_config\<close> in the order of the source, and \<open>config_ok\<close>, which it decides. \<open>Defaults\<close>:
    what a configuration file may leave out, and that leaving it out is safe.
  \<^item> Store. \<open>Store\<close>: a record per row, the readers and decoders. \<open>StoreOps\<close>: every writing
    method as a transaction body (\<open>_tx\<close>) under \<open>transact\<close>. \<open>StoreInv\<close>, \<open>StoreKeep\<close>:
    the invariant \<open>wf_store\<close> and its preservation (locale \<open>row_change\<close>, interpreted for the six
    assignments of the store). \<open>StoreSteps\<close>: \<open>store_step\<close>, any call with any arguments, and
    \<open>reachable\<close>. \<open>Lifecycle\<close>: the abstract state machine and that every step refines it
    (locale \<open>row_move\<close>). \<open>StoreReads\<close>, \<open>Recovery\<close>, \<open>StoreProps\<close>, \<open>StoreClaims\<close>: C1-C10, C12,
    C13. \<open>EventLog\<close>: the event log replayed through the abstract machine gives the state, C11.
  \<^item> \<open>Capacity\<close>: probes, observations, \<open>available\<close>; the locale \<open>capacity_provider\<close> is what the
    scheduler relies on, C14-C15.
  \<^item> \<open>Runtime\<close>, \<open>RuntimeProps\<close>: one prompt driven through the Sandbox Agent, message
    normalisation, truncation, reconnecting streams, the shutdown while the child is still polled, the
    installation of the binary, C16-C20.
    \<open>Peer\<close>: the server process, every request sent to it and how the answers become the
    \<open>session_env\<close> of a run.
  \<^item> \<open>Service\<close>: preparation, verification, lock and socket, main loop, C21. \<open>Setup\<close>,
    \<open>SetupProps\<close>: \<open>eyes init\<close> and \<open>doctor\<close> on the file system, C22.
  \<^item> \<open>Runner\<close>, \<open>RunnerProps\<close>: the three process roles and the command line of the sandbox, C23-C25.
  \<^item> \<open>Scheduler\<close>, \<open>SchedulerProps\<close>, \<open>Dispatch\<close>, \<open>Attempts\<close>: the start, one iteration turn
    by turn with other tasks in between, the choice of route and source, the task of an attempt, C26-C28,
    C30, C31. \<open>Daemon\<close>: the scheduler from its start over all its wakes, \<open>run\<close> as a whole, C29.
  \<^item> \<open>Api\<close>, \<open>Handlers\<close>, \<open>ApiProps\<close>, \<open>ApiClaims\<close>: validation and handlers, C32 and C34-C36;
    \<open>Plan\<close>: from the accepted request to the sandbox, C33; \<open>Sse\<close>: the event stream against the
    log, C37; \<open>Race\<close>: cancellation against the start of an attempt, C38.
  \<^item> \<open>Client\<close>, \<open>Watch\<close>, \<open>ClientProps\<close>: the client's requests, its reader of the event stream,
    C39 (what is printed is the log, whatever the chunks), C40 (the daemon accepts what the client
    sends); \<open>Cli\<close>: \<open>main\<close>, and what each command touches.
  \<^item> \<open>Demo\<close>: one concrete history and configuration; the witnesses evaluate on it.

  \<^bold>\<open>How code becomes definitions.\<close> A Rust function is a HOL function of the same name where HOL
  allows it; \<open>Err\<close> is \<open>Inl\<close> and \<open>Ok\<close> is \<open>Inr\<close>, so every \<open>bail!\<close>, \<open>?\<close> and early
  return is a branch. Integers keep their width (\<open>8 word\<close> to \<open>64 word\<close>), strings are lists of bytes,
  an SQLite table is the list of its rows. A method of the store is one atomic step: SQLite runs
  with a single connection, and every method is one transaction. Interleaving is explicit: the store
  moves between any two calls of a task (\<open>hd_between\<close>, \<open>ee_between\<close>, \<open>rely\<close>,
  \<open>race_step\<close>, \<open>along\<close>). A \<open>select!\<close> loop is a function on the list of the branches taken;
  \<open>None\<close> or an empty rest is a loop that still runs. What the environment supplies is an argument:
  clocks, fresh ids, digests, \<open>canonicalize\<close>, the encoders and decoders of JSON and TOML, the agent,
  the child processes, the failing calls of the file system. Laws assumed of them are hypotheses of
  the theorem that needs them, with a name: \<open>canonicalizes\<close>, \<open>keeps_utf8\<close>, \<open>faithful\<close>,
  \<open>stream_block\<close>, \<open>channel\<close>, fresh event ids; each is met by the witness.

  \<^bold>\<open>What the lemmas show.\<close> Invariants of every reachable store (C1, C5, C6) and what survives any
  later step (C3, C4, C33); refinement of the lifecycle by the rows (C2) and by the log (C11);
  exactness of reads against what was broadcast (C8, C37, C39); idempotence and replay (C10, C35); capacity never exceeded, by the
  decision alone (C14) and under interference over a whole run (C29); at most one terminal report, confirmed by the
  exit of the process (C16, C17, C23, C30), a stop reported as clean only if the agent answered (C19);
  a source closed by every probe that cannot be trusted (C15); an attempt always ends (C31); nothing unverified is started
  (C20, C21), nothing is exposed to the sandbox beyond its mounts (C24, C25); a validated request is
  what its specification says, from the client's arguments to the runner (C32, C33, C40); refused or
  failed operations change nothing or lose nothing (C7, C22, C34, C36).

  \<^bold>\<open>Bounds and termination.\<close> Loops of the code are structural recursions over their inputs; the
  search for block ends (\<open>drain_blocks\<close>) has the length of the buffer as its measure. Links are
  followed forty times, the kernel's limit; a longer chain is an error, as it is there. No other
  fuel is used. Counters are 64-bit columns: the theorems that need room in them say so, and an
  overflow is the error the code returns.

  \<^bold>\<open>Not modelled.\<close> Library code: HTTP, SSE and TOML/JSON text, SQLite and its failures, tokio's
  scheduling and timers, clap, the Sandbox Agent and the agents. \<open>bins/thieving-eyes-runner\<close> and
  \<open>bins/thieving-eyesd\<close> only parse arguments and call \<open>supervisor\<close>, \<open>worker\<close> or
  \<open>load_config\<close> and \<open>run\<close>. What the operating system, the server process and the clocks answer -
  polls of the child, health polls, expired time limits - are lists of outcomes. In the file
  system, parents of a created directory are not represented, only the last component of a path may
  be a link, a failing call changes nothing, and other processes do not interfere. Log output is
  left out. Decoding TOML into the tables of \<open>Defaults\<close> is the decoder's part. SQLite is a parameter
  where the daemon opens its database (\<open>mc_sqlite\<close>: new contents for the files of the database, or an
  error), and afterwards the list of its rows.

  \<^bold>\<open>Steps taken as one.\<close> A commit and the broadcast of its events; the commit of \<open>patch_scheduling\<close> and
  the status it reads back; the queries and clock readings behind one dispatch decision, and those of
  one sort. Another task of the daemon may run in between in the code.

  \<^bold>\<open>Where code and documents differ.\<close> Two definitions follow the code against the documents:
  \<open>check_response\<close> accepts a timestamp up to 30 seconds in the future (C15), \<open>resolve_routes\<close> drops named
  routes that are not available (C32 leaves these requests out, \<open>unavailable_names_dropped\<close> says what
  happens to them). A run whose server exits while its session is being deleted reports twice (C16).
\<close>

end
